(* ===== verification/Prelude.thy ===== *)
theory Prelude
  imports Main "HOL-Library.Word" "HOL-Library.Code_Target_Numeral"
begin

text \<open>
  Shared vocabulary of the development: the types that name the values the program
  handles (bytes, \<^verbatim>\<open>Uint8Array\<close>s, JavaScript strings), the collections of
  rewrite rules the component theories contribute to, and generic lemmas on lists,
  characters and words that several components use.

  A JavaScript string is modelled as the list of its UTF-8 bytes (\<^typ>\<open>string\<close>,
  one \<^typ>\<open>char\<close> per byte). Every string the program builds from keys is ASCII,
  and the only string it receives from outside (the relay URL) is percent-encoded
  byte by byte, which is what the byte view describes.
\<close>

unbundle bit_operations_syntax

type_synonym byte = "8 word"
type_synonym bytes = "byte list"
type_synonym js_string = string

named_theorems codec_simps "equations that evaluate the encoders and decoders"
named_theorems roundtrip_simps "decode-after-encode equations"

subsection \<open>Splitting a list into chunks\<close>

text \<open>
  \<open>chunks k xs\<close> cuts \<open>xs\<close> into pieces of length \<open>k\<close> (the last one shorter).
  Hex strings are read two characters at a time and bit strings five or eight bits at
  a time; all of them go through this one function.
\<close>

fun chunks :: "nat \<Rightarrow> 'a list \<Rightarrow> 'a list list" where
  "chunks k xs = (if k = 0 \<or> xs = [] then [] else take k xs # chunks k (drop k xs))"

declare chunks.simps [simp del]

lemma chunks_Nil [simp]: "chunks k [] = []"
  by (simp add: chunks.simps)

lemma chunks_append_block:
  assumes "length ys = k" and "0 < k"
  shows "chunks k (ys @ zs) = ys # chunks k zs"
  using assms by (subst chunks.simps) auto

lemma chunks_concat:
  assumes "\<forall>x \<in> set xss. length x = k" and "0 < k"
  shows "chunks k (concat xss) = xss"
  using assms by (induction xss) (auto simp: chunks_append_block)

lemma concat_chunks: "0 < k \<Longrightarrow> concat (chunks k xs) = xs"
proof (induction k xs rule: chunks.induct)
  case (1 k xs)
  then show ?case by (subst chunks.simps) auto
qed

lemma length_concat_const:
  "\<forall>x \<in> set xss. length x = k \<Longrightarrow> length (concat xss) = k * length xss"
  by (induction xss) auto

lemma those_append:
  "those xs = Some as \<Longrightarrow> those ys = Some bs \<Longrightarrow> those (xs @ ys) = Some (as @ bs)"
  by (induction xs arbitrary: as) (auto split: option.splits)

lemma those_Some_all: "those xs = Some ys \<Longrightarrow> \<forall>x \<in> set xs. x \<noteq> None"
  by (induction xs arbitrary: ys) (auto split: option.splits)

subsection \<open>Characters\<close>

text \<open>Characters are read as their byte value \<open>of_char c :: nat\<close>.\<close>

lemma of_char_less_256 [simp]: "of_char (c :: char) < (256 :: nat)"
  by (metis nat_of_char_less_256)

lemma char_of_of_char_nat [simp]: "char_of (of_char c :: nat) = c"
  by (rule char_of_char)

lemma of_char_char_of_small [simp]: "n < 256 \<Longrightarrow> of_char (char_of n :: char) = (n :: nat)"
  by simp

lemma char_of_inj_small:
  "a < 256 \<Longrightarrow> b < 256 \<Longrightarrow> (char_of a = (char_of b :: char)) = (a = (b :: nat))"
  by (metis of_char_char_of_small)

subsection \<open>Bytes\<close>

lemma unat_byte_less [simp]: "unat (b :: byte) < 256"
  using unsigned_less [of b] by simp

lemma unat_byte_div_16 [simp]: "unat (b :: byte) div 16 < 16"
  using unat_byte_less [of b] by (simp add: div_less_iff_less_mult)

lemma byte_of_unat [simp]: "(word_of_nat (unat (b :: byte)) :: byte) = b"
  by simp

lemma unat_word_of_nat_byte [simp]: "n < 256 \<Longrightarrow> unat (word_of_nat n :: byte) = n"
  by (simp add: unat_of_nat)

end
