(* ===== verification/Hex.thy ===== *)
theory Hex
  imports Prelude
begin

text \<open>
  Hexadecimal text of byte arrays, as the key library's byte utilities
  (\<^verbatim>\<open>bytesToHex\<close>, \<^verbatim>\<open>hexToBytes\<close>) define it. \<^verbatim>\<open>getPublicKey\<close> returns the
  public key as \<^verbatim>\<open>bytesToHex\<close> of its 32 bytes, \<^verbatim>\<open>npubEncode\<close> reads it back with
  \<^verbatim>\<open>hexToBytes\<close>, and the public key that heads the connection URI is this text.
  Encoding writes two lowercase digits per byte; decoding accepts both cases and fails
  on an odd length or a non-hex character, as the library throws there.
\<close>

datatype hex_error = HexUnpadded | HexInvalidByte

definition hex_digit :: "nat \<Rightarrow> char" where
  "hex_digit d = (if d < 10 then char_of (48 + d) else char_of (87 + d))"

definition byte_to_hex :: "byte \<Rightarrow> js_string" where
  "byte_to_hex b = [hex_digit (unat b div 16), hex_digit (unat b mod 16)]"

definition bytes_to_hex :: "bytes \<Rightarrow> js_string" where
  "bytes_to_hex bs = concat (map byte_to_hex bs)"

definition ascii_to_base16 :: "char \<Rightarrow> nat option" where
  "ascii_to_base16 c =
     (let n = (of_char c :: nat) in
      if 48 \<le> n \<and> n \<le> 57 then Some (n - 48)
      else if 65 \<le> n \<and> n \<le> 70 then Some (n - 55)
      else if 97 \<le> n \<and> n \<le> 102 then Some (n - 87)
      else None)"

definition hex_pair_to_byte :: "js_string \<Rightarrow> byte option" where
  "hex_pair_to_byte s =
     (case s of
        [c1, c2] \<Rightarrow>
          (case (ascii_to_base16 c1, ascii_to_base16 c2) of
             (Some n1, Some n2) \<Rightarrow> Some (word_of_nat (n1 * 16 + n2))
           | _ \<Rightarrow> None)
      | _ \<Rightarrow> None)"

definition hex_to_bytes :: "js_string \<Rightarrow> hex_error + bytes" where
  "hex_to_bytes s =
     (if odd (length s) then Inl HexUnpadded
      else (case those (map hex_pair_to_byte (chunks 2 s)) of
              None \<Rightarrow> Inl HexInvalidByte
            | Some bs \<Rightarrow> Inr bs))"

definition is_lower_hex_char :: "char \<Rightarrow> bool" where
  "is_lower_hex_char c \<longleftrightarrow>
     (48 \<le> (of_char c :: nat) \<and> (of_char c :: nat) \<le> 57) \<or> (97 \<le> (of_char c :: nat) \<and> (of_char c :: nat) \<le> 102)"

subsection \<open>Encoding\<close>

lemma length_byte_to_hex [simp]: "length (byte_to_hex b) = 2"
  by (simp add: byte_to_hex_def)

lemma length_bytes_to_hex [simp]: "length (bytes_to_hex bs) = 2 * length bs"
  by (induction bs) (simp_all add: bytes_to_hex_def)

lemma bytes_to_hex_Cons [codec_simps]: "bytes_to_hex (b # bs) = byte_to_hex b @ bytes_to_hex bs"
  by (simp add: bytes_to_hex_def)

lemma hex_digit_lower: "d < 16 \<Longrightarrow> is_lower_hex_char (hex_digit d)"
  by (simp add: hex_digit_def is_lower_hex_char_def)

lemma ascii_to_base16_hex_digit [simp]: "d < 16 \<Longrightarrow> ascii_to_base16 (hex_digit d) = Some d"
  by (auto simp: hex_digit_def ascii_to_base16_def Let_def)

lemma bytes_to_hex_lower: "list_all is_lower_hex_char (bytes_to_hex bs)"
  by (induction bs) (simp_all add: bytes_to_hex_def byte_to_hex_def hex_digit_lower)

subsection \<open>Decoding inverts encoding\<close>

lemma hex_pair_to_byte_byte_to_hex [simp]: "hex_pair_to_byte (byte_to_hex b) = Some b"
proof -
  have lt: "unat b div 16 < 16" "unat b mod 16 < 16"
    by simp_all
  have "unat b div 16 * 16 + unat b mod 16 = unat b" by simp
  with lt show ?thesis
    by (simp add: hex_pair_to_byte_def byte_to_hex_def)
qed

lemma chunks_bytes_to_hex: "chunks 2 (bytes_to_hex bs) = map byte_to_hex bs"
  unfolding bytes_to_hex_def by (rule chunks_concat) auto

theorem hex_to_bytes_bytes_to_hex [roundtrip_simps]: "hex_to_bytes (bytes_to_hex bs) = Inr bs"
proof -
  have "those (map hex_pair_to_byte (map byte_to_hex bs)) = Some bs"
    by (induction bs) auto
  then show ?thesis
    by (simp add: hex_to_bytes_def chunks_bytes_to_hex)
qed

lemma bytes_to_hex_inj: "bytes_to_hex xs = bytes_to_hex ys \<longleftrightarrow> xs = ys"
  by (metis hex_to_bytes_bytes_to_hex sum.inject(2))

text \<open>
  \<^verbatim>\<open>hexToBytes\<close> inverts \<^verbatim>\<open>bytesToHex\<close>, which writes exactly two lowercase
  hex digits per byte; text of odd length is rejected with \<open>HexUnpadded\<close>.
\<close>

theorem hex_codec_roundtrip:
  "hex_to_bytes (bytes_to_hex bs) = Inr bs \<and> length (bytes_to_hex bs) = 2 * length bs
   \<and> list_all is_lower_hex_char (bytes_to_hex bs)
   \<and> (odd (length s) \<longrightarrow> hex_to_bytes s = Inl HexUnpadded)"
proof (intro conjI impI)
  show "odd (length s) \<Longrightarrow> hex_to_bytes s = Inl HexUnpadded"
    by (simp add: hex_to_bytes_def)
qed (simp_all add: hex_to_bytes_bytes_to_hex bytes_to_hex_lower)

theorem hex_codec_roundtrip_witness:
  "hex_to_bytes (bytes_to_hex [0xab, 0x01]) = Inr [0xab, 0x01] \<and> hex_to_bytes ''abc'' = Inl HexUnpadded"
  using hex_codec_roundtrip [of "[0xab, 0x01]" "''abc''"] by simp

subsection \<open>Decoding text that is not hex\<close>

lemma hex_pair_to_byte_digits: "hex_pair_to_byte p = Some b \<Longrightarrow> \<forall>c \<in> set p. ascii_to_base16 c \<noteq> None"
  by (auto simp: hex_pair_to_byte_def split: list.splits option.splits)

lemma hex_to_bytes_Inr_digits:
  assumes "hex_to_bytes s = Inr bs"
  shows "\<forall>c \<in> set s. ascii_to_base16 c \<noteq> None"
proof -
  have "those (map hex_pair_to_byte (chunks 2 s)) = Some bs"
    using assms by (auto simp: hex_to_bytes_def split: if_splits option.splits)
  then have "\<forall>p \<in> set (chunks 2 s). hex_pair_to_byte p \<noteq> None"
    using those_Some_all by fastforce
  then have "\<forall>p \<in> set (chunks 2 s). \<forall>c \<in> set p. ascii_to_base16 c \<noteq> None"
    using hex_pair_to_byte_digits by blast
  moreover have "set s = \<Union> (set ` set (chunks 2 s))"
    using concat_chunks [of 2 s] by (metis set_concat zero_less_numeral)
  ultimately show ?thesis
    by auto
qed

lemma hex_to_bytes_comma: "CHR '','' \<in> set s \<Longrightarrow> \<exists>e. hex_to_bytes s = Inl e"
  using hex_to_bytes_Inr_digits [of s] by (cases "hex_to_bytes s") (auto simp: ascii_to_base16_def)

end
