(* ===== verification/Secp256k1.thy ===== *)
theory Secp256k1
  imports Hex
begin

text \<open>
  The key primitives \<^verbatim>\<open>generateClientKeys\<close> and \<^verbatim>\<open>generateWalletConnectURI\<close>
  call: \<^verbatim>\<open>generateSecretKey()\<close> and \<^verbatim>\<open>getPublicKey(sk)\<close> of the key library,
  which delegate to the secp256k1 Schnorr (BIP-340) implementation of its curve library.
  They are library code, modelled from the spec and the algorithms the library documents:
  \<^item> \<^verbatim>\<open>generateSecretKey\<close> draws 48 random bytes and reduces them into the scalar
    range: \<open>(num mod (n - 1)) + 1\<close> written as 32 big-endian bytes
    (\<^verbatim>\<open>mapHashToField\<close>); an unavailable random source is the error
    \<open>RandomSourceUnavailable\<close>;
  \<^item> \<^verbatim>\<open>getPublicKey\<close> reads the 32 bytes as a scalar \<open>d\<close>, rejects
    \<open>d = 0\<close> and \<open>d \<ge> n\<close>, computes \<open>d \<cdot> G\<close> in affine coordinates over
    \<open>GF(p)\<close> (double-and-add, inverses by Fermat's little theorem) and returns the
    x-coordinate as 32 big-endian bytes in lowercase hex.
  The random source is an oracle: draw \<open>k\<close> is either unavailable or an infinite
  supply of bytes of which \<^verbatim>\<open>randomBytes(len)\<close> takes the first \<open>len\<close>.
\<close>

datatype key_error =
    RandomSourceUnavailable
  | HashLengthInvalid
  | InvalidSecretKeyLength
  | SecretKeyOutOfRange
  | PointAtInfinity

subsection \<open>Curve parameters\<close>

definition secp256k1_p :: nat where
  "secp256k1_p = 0xFFFFFFFFFFFFFFFFFFFFFFFFFFFFFFFFFFFFFFFFFFFFFFFFFFFFFFFEFFFFFC2F"

definition secp256k1_n :: nat where
  "secp256k1_n = 0xFFFFFFFFFFFFFFFFFFFFFFFFFFFFFFFEBAAEDCE6AF48A03BBFD25E8CD0364141"

definition secp256k1_gx :: int where
  "secp256k1_gx = 0x79BE667EF9DCBBAC55A06295CE870B07029BFCDB2DCE28D959F2815B16F81798"

definition secp256k1_gy :: int where
  "secp256k1_gy = 0x483ADA7726A3C4655DA4FBFC0E1108A8FD17B448A68554199C47D08FFB10D4B8"

subsection \<open>Big-endian numbers\<close>

definition be_to_nat :: "bytes \<Rightarrow> nat" where
  "be_to_nat bs = foldl (\<lambda>acc b. acc * 256 + unat b) 0 bs"

fun nat_to_bytes_be :: "nat \<Rightarrow> nat \<Rightarrow> bytes" where
  "nat_to_bytes_be 0 v = []"
| "nat_to_bytes_be (Suc k) v = nat_to_bytes_be k (v div 256) @ [word_of_nat (v mod 256)]"

subsection \<open>Random source and secret keys\<close>

type_synonym random_source = "nat \<Rightarrow> (nat \<Rightarrow> byte) option"

definition random_bytes :: "random_source \<Rightarrow> nat \<Rightarrow> nat \<Rightarrow> bytes option" where
  "random_bytes src k len = map_option (\<lambda>f. map f [0..<len]) (src k)"

definition map_hash_to_field :: "bytes \<Rightarrow> key_error + bytes" where
  "map_hash_to_field key =
     (let len = length key; field_len = 32; min_len = 48 in
      if len < 16 \<or> len < min_len \<or> 1024 < len then Inl HashLengthInvalid
      else Inr (nat_to_bytes_be field_len (be_to_nat key mod (secp256k1_n - 1) + 1)))"

definition generate_secret_key :: "random_source \<Rightarrow> nat \<Rightarrow> key_error + bytes" where
  "generate_secret_key src k =
     (case random_bytes src k 48 of
        None \<Rightarrow> Inl RandomSourceUnavailable
      | Some bs \<Rightarrow> map_hash_to_field bs)"

subsection \<open>Field and curve arithmetic\<close>

definition fp_mod :: "int \<Rightarrow> int" where
  "fp_mod a = a mod int secp256k1_p"

fun pow_mod_p :: "int \<Rightarrow> nat \<Rightarrow> int" where
  "pow_mod_p b e =
     (if e = 0 then 1
      else (let h = pow_mod_p b (e div 2); h2 = fp_mod (h * h) in
            if odd e then fp_mod (h2 * b) else h2))"

declare pow_mod_p.simps [simp del]

definition fp_inv :: "int \<Rightarrow> int" where
  "fp_inv a = pow_mod_p (fp_mod a) (secp256k1_p - 2)"

datatype ec_point = Infinity | Affine int int

definition secp256k1_G :: ec_point where
  "secp256k1_G = Affine secp256k1_gx secp256k1_gy"

definition ec_double :: "ec_point \<Rightarrow> ec_point" where
  "ec_double P =
     (case P of
        Infinity \<Rightarrow> Infinity
      | Affine x y \<Rightarrow>
          (if fp_mod y = 0 then Infinity
           else (let l = fp_mod (3 * x * x * fp_inv (2 * y));
                     x3 = fp_mod (l * l - 2 * x);
                     y3 = fp_mod (l * (x - x3) - y)
                 in Affine x3 y3)))"

definition ec_add :: "ec_point \<Rightarrow> ec_point \<Rightarrow> ec_point" where
  "ec_add P Q =
     (case (P, Q) of
        (Infinity, _) \<Rightarrow> Q
      | (_, Infinity) \<Rightarrow> P
      | (Affine x1 y1, Affine x2 y2) \<Rightarrow>
          (if fp_mod x1 = fp_mod x2 then
             (if fp_mod (y1 + y2) = 0 then Infinity else ec_double P)
           else (let l = fp_mod ((y2 - y1) * fp_inv (x2 - x1));
                     x3 = fp_mod (l * l - x1 - x2);
                     y3 = fp_mod (l * (x1 - x3) - y1)
                 in Affine x3 y3)))"

fun ec_mul :: "nat \<Rightarrow> ec_point \<Rightarrow> ec_point" where
  "ec_mul k P =
     (if k = 0 then Infinity
      else (let Q = ec_mul (k div 2) P; Q2 = ec_add Q Q in
            if odd k then ec_add Q2 P else Q2))"

declare ec_mul.simps [simp del]

definition on_curve :: "ec_point \<Rightarrow> bool" where
  "on_curve P =
     (case P of Infinity \<Rightarrow> True | Affine x y \<Rightarrow> fp_mod (y * y - x * x * x - 7) = 0)"

subsection \<open>Public keys\<close>

definition norm_private_key_to_scalar :: "bytes \<Rightarrow> key_error + nat" where
  "norm_private_key_to_scalar sk =
     (if length sk \<noteq> 32 then Inl InvalidSecretKeyLength
      else (let d = be_to_nat sk in
            if 1 \<le> d \<and> d < secp256k1_n then Inr d else Inl SecretKeyOutOfRange))"

definition schnorr_get_public_key :: "bytes \<Rightarrow> key_error + bytes" where
  "schnorr_get_public_key sk =
     (case norm_private_key_to_scalar sk of
        Inl e \<Rightarrow> Inl e
      | Inr d \<Rightarrow>
          (case ec_mul d secp256k1_G of
             Infinity \<Rightarrow> Inl PointAtInfinity
           | Affine x y \<Rightarrow> Inr (nat_to_bytes_be 32 (nat x))))"

definition get_public_key :: "bytes \<Rightarrow> key_error + js_string" where
  "get_public_key sk =
     (case schnorr_get_public_key sk of
        Inl e \<Rightarrow> Inl e
      | Inr pk \<Rightarrow> Inr (bytes_to_hex pk))"

subsection \<open>Big-endian conversion lemmas\<close>

lemma length_nat_to_bytes_be [simp]: "length (nat_to_bytes_be k v) = k"
  by (induction k arbitrary: v) simp_all

lemma be_to_nat_snoc [simp]: "be_to_nat (bs @ [b]) = be_to_nat bs * 256 + unat b"
  by (simp add: be_to_nat_def)

lemma be_to_nat_Nil [simp]: "be_to_nat [] = 0"
  by (simp add: be_to_nat_def)

lemma be_to_nat_nat_to_bytes_be: "be_to_nat (nat_to_bytes_be k v) = v mod 256 ^ k"
proof (induction k arbitrary: v)
  case 0
  then show ?case by simp
next
  case (Suc k)
  have "v mod (256 * 256 ^ k) = 256 * (v div 256 mod 256 ^ k) + v mod 256"
    by (rule mod_mult2_eq)
  with Suc show ?case
    by (simp add: unat_of_nat)
qed

lemma be_to_nat_less: "be_to_nat bs < 256 ^ length bs"
proof (induction bs rule: rev_induct)
  case Nil
  then show ?case by simp
next
  case (snoc b bs)
  have "be_to_nat bs * 256 + unat b < 256 ^ length bs * 256"
    using snoc unat_byte_less [of b] by linarith
  then show ?case by simp
qed

lemma nat_to_bytes_be_be_to_nat [roundtrip_simps]:
  "nat_to_bytes_be (length bs) (be_to_nat bs) = bs"
proof (induction bs rule: rev_induct)
  case Nil
  then show ?case by simp
next
  case (snoc b bs)
  have "(be_to_nat bs * 256 + unat b) div 256 = be_to_nat bs"
    using unat_byte_less [of b] by simp
  moreover have "(be_to_nat bs * 256 + unat b) mod 256 = unat b"
    using unat_byte_less [of b] by simp
  ultimately show ?case
    using snoc by simp
qed

lemma be_to_nat_nat_to_bytes_be_small:
  "v < 256 ^ k \<Longrightarrow> be_to_nat (nat_to_bytes_be k v) = v"
  by (simp add: be_to_nat_nat_to_bytes_be)

subsection \<open>Curve parameters\<close>

lemma secp256k1_n_bounds: "1 < secp256k1_n" "secp256k1_n < 256 ^ 32"
  by (simp_all add: secp256k1_n_def)

lemma secp256k1_p_bounds: "2 < secp256k1_p" "secp256k1_p < 256 ^ 32"
  by (simp_all add: secp256k1_p_def)

subsection \<open>Secret keys\<close>

lemma length_random_bytes: "random_bytes src k len = Some bs \<Longrightarrow> length bs = len"
  by (auto simp: random_bytes_def)

lemma map_hash_to_field_48:
  assumes "length key = 48"
  shows "map_hash_to_field key = Inr (nat_to_bytes_be 32 (be_to_nat key mod (secp256k1_n - 1) + 1))"
  using assms by (simp add: map_hash_to_field_def Let_def)

lemma reduced_scalar_range:
  "1 \<le> x mod (secp256k1_n - 1) + 1 \<and> x mod (secp256k1_n - 1) + 1 < secp256k1_n"
proof -
  have "x mod (secp256k1_n - 1) < secp256k1_n - 1"
    using secp256k1_n_bounds(1) by simp
  then show ?thesis by linarith
qed

lemma scalar_key_roundtrip:
  assumes "d < secp256k1_n"
  shows "be_to_nat (nat_to_bytes_be 32 d) = d"
  using assms secp256k1_n_bounds(2) by (simp add: be_to_nat_nat_to_bytes_be_small)

lemma generate_secret_key_Some:
  assumes "src k = Some f"
  shows "generate_secret_key src k =
           Inr (nat_to_bytes_be 32 (be_to_nat (map f [0..<48]) mod (secp256k1_n - 1) + 1))"
  using assms by (simp add: generate_secret_key_def random_bytes_def map_hash_to_field_48)

lemma generate_secret_key_None:
  "src k = None \<Longrightarrow> generate_secret_key src k = Inl RandomSourceUnavailable"
  by (simp add: generate_secret_key_def random_bytes_def)

lemma generate_secret_key_valid:
  assumes "generate_secret_key src k = Inr sk"
  shows "length sk = 32 \<and> 1 \<le> be_to_nat sk \<and> be_to_nat sk < secp256k1_n"
proof -
  obtain f where f: "src k = Some f"
    using assms by (cases "src k") (auto simp: generate_secret_key_None)
  let ?d = "be_to_nat (map f [0..<48]) mod (secp256k1_n - 1) + 1"
  have sk: "sk = nat_to_bytes_be 32 ?d"
    using assms generate_secret_key_Some [of src k f, OF f] by simp
  have "1 \<le> ?d \<and> ?d < secp256k1_n"
    by (rule reduced_scalar_range)
  with sk show ?thesis
    by (simp add: scalar_key_roundtrip)
qed

lemma norm_private_key_to_scalar_valid:
  assumes "length sk = 32" and "1 \<le> be_to_nat sk" and "be_to_nat sk < secp256k1_n"
  shows "norm_private_key_to_scalar sk = Inr (be_to_nat sk)"
  using assms by (simp add: norm_private_key_to_scalar_def Let_def)

subsection \<open>Coordinates stay in the field\<close>

definition in_field :: "ec_point \<Rightarrow> bool" where
  "in_field P = (case P of Infinity \<Rightarrow> True
                 | Affine x y \<Rightarrow> 0 \<le> x \<and> x < int secp256k1_p \<and> 0 \<le> y \<and> y < int secp256k1_p)"

lemma fp_mod_range [simp]: "0 \<le> fp_mod a" "fp_mod a < int secp256k1_p"
  using secp256k1_p_bounds(1) by (simp_all add: fp_mod_def)

lemma in_field_ec_double: "in_field (ec_double P)"
  by (simp add: ec_double_def in_field_def Let_def split: ec_point.split)

lemma in_field_ec_add: "in_field P \<Longrightarrow> in_field Q \<Longrightarrow> in_field (ec_add P Q)"
  by (cases P; cases Q) (simp_all add: ec_add_def in_field_def Let_def ec_double_def)

lemma in_field_ec_mul: "in_field P \<Longrightarrow> in_field (ec_mul k P)"
proof (induction k P rule: ec_mul.induct)
  case (1 k P)
  show ?case
  proof (cases "k = 0")
    case True
    then show ?thesis by (subst ec_mul.simps) (simp add: in_field_def)
  next
    case False
    with "1" have "in_field (ec_mul (k div 2) P)" by simp
    with False "1.prems" show ?thesis
      by (subst ec_mul.simps) (simp add: Let_def in_field_ec_add)
  qed
qed

lemma in_field_G: "in_field secp256k1_G"
  by (simp add: in_field_def secp256k1_G_def secp256k1_gx_def secp256k1_gy_def secp256k1_p_def)

lemma get_public_key_shape:
  assumes "get_public_key sk = Inr pk"
  shows "\<exists>x. 0 \<le> x \<and> x < int secp256k1_p \<and> pk = bytes_to_hex (nat_to_bytes_be 32 (nat x))"
proof -
  obtain d where d: "norm_private_key_to_scalar sk = Inr d"
    using assms by (auto simp: get_public_key_def schnorr_get_public_key_def split: sum.splits)
  obtain x y where xy: "ec_mul d secp256k1_G = Affine x y"
    using assms d by (auto simp: get_public_key_def schnorr_get_public_key_def split: sum.splits ec_point.splits)
  have "in_field (Affine x y)"
    using in_field_ec_mul [OF in_field_G, of d] xy by simp
  moreover have "pk = bytes_to_hex (nat_to_bytes_be 32 (nat x))"
    using assms d xy by (simp add: get_public_key_def schnorr_get_public_key_def)
  ultimately show ?thesis
    by (auto simp: in_field_def)
qed

subsection \<open>The scalar one\<close>

text \<open>The key with scalar 1 is the smallest valid key; its public key is the generator's
  x-coordinate, computed without a field inversion. Witnesses use it.\<close>

lemma ec_mul_one: "ec_mul 1 P = P"
proof -
  have "ec_mul 0 P = Infinity" by (simp add: ec_mul.simps [of 0])
  then show ?thesis
    by (subst ec_mul.simps) (simp add: ec_add_def Let_def split: ec_point.split)
qed

lemma norm_private_key_one: "norm_private_key_to_scalar (nat_to_bytes_be 32 1) = Inr 1"
  using secp256k1_n_bounds by (simp add: norm_private_key_to_scalar_def be_to_nat_nat_to_bytes_be)

lemma get_public_key_one:
  "get_public_key (nat_to_bytes_be 32 1) = Inr (bytes_to_hex (nat_to_bytes_be 32 (nat secp256k1_gx)))"
  unfolding get_public_key_def schnorr_get_public_key_def
  by (simp only: norm_private_key_one ec_mul_one sum.case secp256k1_G_def ec_point.case)

lemma be_to_nat_replicate_0 [simp]: "be_to_nat (replicate k 0) = 0"
  by (induction k) (simp_all add: be_to_nat_def)

lemma generate_secret_key_zero_source:
  assumes "src k = Some (\<lambda>_. 0)"
  shows "generate_secret_key src k = Inr (nat_to_bytes_be 32 1)"
  using generate_secret_key_Some [of src k, OF assms] by (simp add: map_replicate_const)

subsection \<open>Properties of key generation\<close>

text \<open>
  \<^verbatim>\<open>generateSecretKey\<close> fails exactly when the random source is unavailable, with
  \<open>RandomSourceUnavailable\<close>; otherwise it returns 32 bytes whose big-endian value is a
  valid secp256k1 scalar, in \<open>[1, n - 1]\<close>.
\<close>

theorem generate_secret_key_in_range:
  "(src k = None \<longrightarrow> generate_secret_key src k = Inl RandomSourceUnavailable)
   \<and> (src k \<noteq> None \<longrightarrow> (\<exists>sk. generate_secret_key src k = Inr sk \<and> length sk = 32
          \<and> 1 \<le> be_to_nat sk \<and> be_to_nat sk < secp256k1_n))"
proof (cases "src k")
  case None
  then show ?thesis by (simp add: generate_secret_key_None)
next
  case (Some f)
  then show ?thesis
    using generate_secret_key_Some [of src k f, OF Some] generate_secret_key_valid by auto
qed

theorem generate_secret_key_in_range_witness:
  "generate_secret_key (\<lambda>_. None) 0 = Inl RandomSourceUnavailable
   \<and> (\<exists>sk. generate_secret_key (\<lambda>_. Some (\<lambda>_. 0)) 0 = Inr sk \<and> length sk = 32
          \<and> 1 \<le> be_to_nat sk \<and> be_to_nat sk < secp256k1_n)"
  using generate_secret_key_in_range [of "\<lambda>_. None" 0]
    generate_secret_key_in_range [of "\<lambda>_. Some (\<lambda>_. 0)" 0] by simp

text \<open>
  A public key returned by \<^verbatim>\<open>getPublicKey\<close> is 64 lowercase hex digits that
  read back as 32 bytes encoding an x-coordinate below the field prime \<open>p\<close>.
\<close>

theorem get_public_key_hex:
  assumes "get_public_key sk = Inr pk"
  shows "length pk = 64 \<and> list_all is_lower_hex_char pk
         \<and> (\<exists>bs. hex_to_bytes pk = Inr bs \<and> length bs = 32 \<and> be_to_nat bs < secp256k1_p)"
proof -
  obtain x where x: "0 \<le> x" "x < int secp256k1_p" and pk: "pk = bytes_to_hex (nat_to_bytes_be 32 (nat x))"
    using get_public_key_shape [OF assms] by blast
  have "nat x < 256 ^ 32"
    using x secp256k1_p_bounds(2) by linarith
  then have "be_to_nat (nat_to_bytes_be 32 (nat x)) < secp256k1_p"
    using x by (simp add: be_to_nat_nat_to_bytes_be_small)
  then show ?thesis
    by (simp add: pk bytes_to_hex_lower hex_to_bytes_bytes_to_hex)
qed

theorem get_public_key_hex_witness:
  "length (bytes_to_hex (nat_to_bytes_be 32 (nat secp256k1_gx))) = 64
   \<and> list_all is_lower_hex_char (bytes_to_hex (nat_to_bytes_be 32 (nat secp256k1_gx)))"
  using get_public_key_hex [OF get_public_key_one] by simp

text \<open>
  \<^verbatim>\<open>getPublicKey\<close> throws on a secret key that is not 32 bytes long
  (\<open>InvalidSecretKeyLength\<close>) and on one whose scalar is 0 or at least the group order
  \<open>n\<close> (\<open>SecretKeyOutOfRange\<close>).
\<close>

theorem get_public_key_rejects_invalid:
  "(length sk \<noteq> 32 \<longrightarrow> get_public_key sk = Inl InvalidSecretKeyLength)
   \<and> (length sk = 32 \<and> (be_to_nat sk = 0 \<or> secp256k1_n \<le> be_to_nat sk)
        \<longrightarrow> get_public_key sk = Inl SecretKeyOutOfRange)"
  by (auto simp: get_public_key_def schnorr_get_public_key_def norm_private_key_to_scalar_def Let_def)

theorem get_public_key_rejects_invalid_witness:
  "get_public_key (replicate 17 0) = Inl InvalidSecretKeyLength
   \<and> get_public_key (replicate 32 0) = Inl SecretKeyOutOfRange"
  using get_public_key_rejects_invalid [of "replicate 17 0"]
    get_public_key_rejects_invalid [of "replicate 32 0"] by simp

text \<open>
  Every key \<^verbatim>\<open>generateSecretKey\<close> returns is accepted by \<^verbatim>\<open>getPublicKey\<close>'s
  scalar check, with the scalar its bytes encode: the generator and its consumer agree on
  the key format, so the range errors of \<^verbatim>\<open>getPublicKey\<close> never occur on generated keys.
\<close>

theorem generated_key_accepted:
  assumes "generate_secret_key src k = Inr sk"
  shows "norm_private_key_to_scalar sk = Inr (be_to_nat sk)"
  using generate_secret_key_valid [OF assms] by (intro norm_private_key_to_scalar_valid) auto

theorem generated_key_accepted_witness:
  "norm_private_key_to_scalar (nat_to_bytes_be 32 1) = Inr (be_to_nat (nat_to_bytes_be 32 1))"
  using generated_key_accepted [OF generate_secret_key_zero_source [of "\<lambda>_. Some (\<lambda>_. 0)" 0]]
  by simp

text \<open>
  The curve constants are transcribed correctly in the sense that the generator lies
  on \<open>y\<^sup>2 = x\<^sup>3 + 7\<close> over \<open>GF(p)\<close>, and every multiple of it that the
  double-and-add loop computes has coordinates in \<open>[0, p)\<close>.
\<close>

theorem generator_on_curve:
  "on_curve secp256k1_G \<and> in_field (ec_mul d secp256k1_G)"
proof
  show "on_curve secp256k1_G"
    by (simp add: on_curve_def secp256k1_G_def fp_mod_def secp256k1_gx_def secp256k1_gy_def
        secp256k1_p_def)
  show "in_field (ec_mul d secp256k1_G)"
    by (rule in_field_ec_mul [OF in_field_G])
qed

end
