(* ===== verification/Bech32.thy ===== *)
theory Bech32
  imports Prelude
begin

text \<open>
  The Bech32 codec (BIP-173) of the key library's base-encoding dependency, which
  \<^verbatim>\<open>npubEncode\<close> and \<^verbatim>\<open>nsecEncode\<close> use. Library code, modelled from the
  standard and the library's documented algorithm:
  \<^item> \<open>convert_radix2\<close> regroups a list of \<open>from\<close>-bit numbers into \<open>to\<close>-bit
    numbers, most significant bit first (\<^verbatim>\<open>convertRadix2\<close>); with padding the last
    group is filled with zero bits, without padding a left-over of \<open>from\<close> bits or more,
    or a non-zero left-over, is an error. It is stated on the bit string the carry loop
    of the library walks through.
  \<^item> \<open>bech32_polymod\<close> is one step of the BCH checksum over 32-bit words;
    \<open>bech_checksum\<close> runs it over the expanded prefix, the data words and six zero
    words and writes the result (xor 1) as six alphabet characters.
  \<^item> \<open>bech32_encode\<close> and \<open>bech32_decode\<close> are \<^verbatim>\<open>bech32.encode\<close> and
    \<^verbatim>\<open>bech32.decode\<close>, with their length limit, case rules and checks in the
    library's order; decoding recomputes the checksum and compares it with the
    string's last six characters.
\<close>

datatype bech32_error =
    InvalidWord
  | ExcessPadding
  | NonZeroPadding
  | InvalidPrefix
  | InvalidPrefixLength
  | LengthExceedsLimit
  | DigitOutsideAlphabet
  | UnknownLetter
  | InvalidStringLength
  | MixedCase
  | MissingSeparator
  | DataTooShort
  | InvalidChecksum
  | WrongRadix
  | CarryOverflow

subsection \<open>Regrouping bits\<close>

fun bits_of :: "nat \<Rightarrow> nat \<Rightarrow> bool list" where
  "bits_of 0 n = []"
| "bits_of (Suc w) n = bits_of w (n div 2) @ [odd n]"

definition nat_of_bits :: "bool list \<Rightarrow> nat" where
  "nat_of_bits bs = foldl (\<lambda>acc b. 2 * acc + of_bool b) 0 bs"

definition convert_radix2 :: "nat \<Rightarrow> nat \<Rightarrow> bool \<Rightarrow> nat list \<Rightarrow> bech32_error + nat list" where
  "convert_radix2 from to padding data =
     (if \<exists>n \<in> set data. 2 ^ from \<le> n then Inl InvalidWord
      else (let bits = concat (map (bits_of from) data);
                full = length bits div to * to;
                rest = drop full bits;
                res = map nat_of_bits (chunks to (take full bits))
            in if padding
               then Inr (res @ (if rest = [] then []
                                else [nat_of_bits (rest @ replicate (to - length rest) False)]))
               else if from \<le> length rest then Inl ExcessPadding
               else if nat_of_bits rest \<noteq> 0 then Inl NonZeroPadding
               else Inr res))"

definition to_words :: "bytes \<Rightarrow> bech32_error + nat list" where
  "to_words bs = convert_radix2 8 5 True (map unat bs)"

definition from_words :: "nat list \<Rightarrow> bech32_error + bytes" where
  "from_words ws =
     (case convert_radix2 5 8 False ws of
        Inl e \<Rightarrow> Inl e
      | Inr ns \<Rightarrow> Inr (map word_of_nat ns))"

subsection \<open>Alphabet\<close>

definition bech32_charset :: string where
  "bech32_charset = ''qpzry9x8gf2tvdw0s3jn54khce6mua7l''"

definition alphabet_encode :: "nat list \<Rightarrow> bech32_error + string" where
  "alphabet_encode ws =
     (if \<forall>w \<in> set ws. w < 32 then Inr (map (\<lambda>w. bech32_charset ! w) ws)
      else Inl DigitOutsideAlphabet)"

fun index_of :: "char \<Rightarrow> string \<Rightarrow> nat option" where
  "index_of c [] = None"
| "index_of c (x # xs) = (if x = c then Some 0 else map_option Suc (index_of c xs))"

definition alphabet_decode :: "string \<Rightarrow> bech32_error + nat list" where
  "alphabet_decode s =
     (case those (map (\<lambda>c. index_of c bech32_charset) s) of
        None \<Rightarrow> Inl UnknownLetter
      | Some ws \<Rightarrow> Inr ws)"

subsection \<open>Checksum\<close>

definition bech32_generators :: "32 word list" where
  "bech32_generators = [0x3b6a57b2, 0x26508e6d, 0x1ea119fa, 0x3d4233dd, 0x2a1462b3]"

definition bech32_polymod :: "32 word \<Rightarrow> 32 word" where
  "bech32_polymod pre =
     (let b = drop_bit 25 pre;
          chk = push_bit 5 (pre AND 0x1ffffff)
      in foldl (\<lambda>c i. if bit b i then c XOR bech32_generators ! i else c) chk [0..<5])"

definition bech_checksum :: "string \<Rightarrow> nat list \<Rightarrow> bech32_error + string" where
  "bech_checksum prefix words =
     (if \<exists>c \<in> set prefix. (of_char c :: nat) < 33 \<or> 126 < (of_char c :: nat)
      then Inl InvalidPrefix
      else (let chk0 = foldl (\<lambda>chk c. bech32_polymod chk XOR word_of_nat (of_char c div 32)) 1 prefix;
                chk1 = bech32_polymod chk0;
                chk2 = foldl (\<lambda>chk c. bech32_polymod chk XOR word_of_nat (of_char c mod 32)) chk1 prefix;
                chk3 = foldl (\<lambda>chk v. bech32_polymod chk XOR word_of_nat v) chk2 words;
                chk4 = (bech32_polymod ^^ 6) chk3;
                chk5 = chk4 XOR 1
            in (case convert_radix2 30 5 False [unat chk5 mod 2 ^ 30] of
                  Inl e \<Rightarrow> Inl e
                | Inr sw \<Rightarrow> alphabet_encode sw)))"

subsection \<open>Encoding and decoding\<close>

definition ascii_lower :: "char \<Rightarrow> char" where
  "ascii_lower c =
     (if 65 \<le> (of_char c :: nat) \<and> (of_char c :: nat) \<le> 90 then char_of (of_char c + (32 :: nat)) else c)"

definition ascii_upper :: "char \<Rightarrow> char" where
  "ascii_upper c =
     (if 97 \<le> (of_char c :: nat) \<and> (of_char c :: nat) \<le> 122 then char_of (of_char c - (32 :: nat)) else c)"

definition bech32_encode :: "nat \<Rightarrow> string \<Rightarrow> nat list \<Rightarrow> bech32_error + string" where
  "bech32_encode limit prefix words =
     (if prefix = [] then Inl InvalidPrefixLength
      else if limit < length prefix + 7 + length words then Inl LengthExceedsLimit
      else (let lowered = map ascii_lower prefix in
            case bech_checksum lowered words of
              Inl e \<Rightarrow> Inl e
            | Inr chksum \<Rightarrow>
                (case alphabet_encode words of
                   Inl e \<Rightarrow> Inl e
                 | Inr w \<Rightarrow> Inr (lowered @ ''1'' @ w @ chksum))))"

fun last_index_of :: "char \<Rightarrow> string \<Rightarrow> nat option" where
  "last_index_of c [] = None"
| "last_index_of c (x # xs) =
     (case last_index_of c xs of
        Some i \<Rightarrow> Some (Suc i)
      | None \<Rightarrow> if x = c then Some 0 else None)"

definition bech32_decode :: "nat \<Rightarrow> string \<Rightarrow> bech32_error + (string \<times> nat list)" where
  "bech32_decode limit str =
     (let slen = length str in
      if slen < 8 \<or> limit < slen then Inl InvalidStringLength
      else (let lowered = map ascii_lower str in
            if str \<noteq> lowered \<and> str \<noteq> map ascii_upper str then Inl MixedCase
            else (case last_index_of (CHR ''1'') lowered of
                    None \<Rightarrow> Inl MissingSeparator
                  | Some i \<Rightarrow>
                      if i = 0 then Inl MissingSeparator
                      else (let prefix = take i lowered; data = drop (Suc i) lowered in
                            if length data < 6 then Inl DataTooShort
                            else (case alphabet_decode data of
                                    Inl e \<Rightarrow> Inl e
                                  | Inr ws \<Rightarrow>
                                      (let words = take (length ws - 6) ws in
                                       case bech_checksum prefix words of
                                         Inl e \<Rightarrow> Inl e
                                       | Inr chksum \<Rightarrow>
                                           if drop (length data - 6) data = chksum
                                           then Inr (prefix, words)
                                           else Inl InvalidChecksum))))))"

subsection \<open>Bit strings\<close>

lemma length_bits_of [simp]: "length (bits_of w n) = w"
  by (induction w arbitrary: n) simp_all

lemma nat_of_bits_snoc [simp]: "nat_of_bits (bs @ [b]) = 2 * nat_of_bits bs + of_bool b"
  by (simp add: nat_of_bits_def)

lemma nat_of_bits_Nil [simp]: "nat_of_bits [] = 0"
  by (simp add: nat_of_bits_def)

lemma nat_of_bits_bits_of: "nat_of_bits (bits_of w n) = n mod 2 ^ w"
proof (induction w arbitrary: n)
  case 0
  then show ?case by simp
next
  case (Suc w)
  have "n mod (2 * 2 ^ w) = 2 * (n div 2 mod 2 ^ w) + n mod 2"
    by (rule mod_mult2_eq)
  with Suc show ?case
    by (simp add: odd_iff_mod_2_eq_one)
qed

lemma nat_of_bits_less: "nat_of_bits bs < 2 ^ length bs"
proof (induction bs rule: rev_induct)
  case (snoc b bs)
  then show ?case by (cases b) simp_all
qed simp

lemma bits_of_nat_of_bits: "bits_of (length bs) (nat_of_bits bs) = bs"
proof (induction bs rule: rev_induct)
  case (snoc b bs)
  then show ?case by (cases b) simp_all
qed simp

lemma nat_of_bits_replicate_False [simp]: "nat_of_bits (replicate k False) = 0"
  by (induction k) (simp_all add: nat_of_bits_def)

lemma bits_of_nat_of_bits_len: "length bs = w \<Longrightarrow> bits_of w (nat_of_bits bs) = bs"
  using bits_of_nat_of_bits by blast

lemma chunks_length_dvd:
  "0 < k \<Longrightarrow> k dvd length xs \<Longrightarrow> x \<in> set (chunks k xs) \<Longrightarrow> length x = k"
proof (induction k xs rule: chunks.induct)
  case (1 k xs)
  show ?case
  proof (cases "xs = []")
    case True
    with "1.prems" show ?thesis by simp
  next
    case False
    then have ne: "xs \<noteq> []" .
    have "k \<le> length xs"
      using "1.prems"(1,2) ne by (simp add: dvd_imp_le)
    moreover have "k dvd length (drop k xs)"
      using "1.prems"(2) calculation by (simp add: dvd_diff_nat)
    ultimately show ?thesis
      using "1" ne by (subst (asm) chunks.simps) auto
  qed
qed

lemma concat_bits_of_chunks:
  assumes "0 < k" and "k dvd length xs"
  shows "concat (map (\<lambda>c. bits_of k (nat_of_bits c)) (chunks k xs)) = xs"
proof -
  have "map (\<lambda>c. bits_of k (nat_of_bits c)) (chunks k xs) = chunks k xs"
    using chunks_length_dvd [OF assms] by (intro map_idI) (simp add: bits_of_nat_of_bits_len)
  then show ?thesis
    using assms(1) by (simp add: concat_chunks)
qed

lemma bits_of_small: "n < 2 ^ w \<Longrightarrow> nat_of_bits (bits_of w n) = n"
  by (simp add: nat_of_bits_bits_of)

lemma length_concat_bits_of [simp]: "length (concat (map (bits_of w) ns)) = w * length ns"
  by (induction ns) simp_all

subsection \<open>Regrouping with padding and back\<close>

lemma convert_radix2_pad_Inr:
  assumes "\<forall>n \<in> set data. n < 2 ^ from"
  shows "\<exists>ws. convert_radix2 from to True data = Inr ws"
  using assms by (auto simp: convert_radix2_def Let_def not_le)

lemma convert_radix2_pad_bits:
  assumes ok: "convert_radix2 from to True data = Inr ws" and to: "0 < to"
  shows "\<exists>pad < to. concat (map (bits_of to) ws) = concat (map (bits_of from) data) @ replicate pad False
                    \<and> (\<forall>w \<in> set ws. w < 2 ^ to)"
proof -
  let ?bits = "concat (map (bits_of from) data)"
  let ?full = "length ?bits div to * to"
  let ?rest = "drop ?full ?bits"
  have valid: "\<not> (\<exists>n \<in> set data. 2 ^ from \<le> n)"
    using ok by (cases "\<exists>n \<in> set data. 2 ^ from \<le> n") (simp_all add: convert_radix2_def)
  have ws: "ws = map nat_of_bits (chunks to (take ?full ?bits))
              @ (if ?rest = [] then [] else [nat_of_bits (?rest @ replicate (to - length ?rest) False)])"
    using ok valid by (simp add: convert_radix2_def Let_def)
  have lt: "length ?bits - ?full < to"
    using to by (simp add: minus_div_mult_eq_mod)
  have "?full \<le> length ?bits"
    by (rule div_times_less_eq_dividend)
  then have dvd: "to dvd length (take ?full ?bits)"
    by (simp add: min_absorb1)
  have head: "concat (map (bits_of to) (map nat_of_bits (chunks to (take ?full ?bits)))) = take ?full ?bits"
    using concat_bits_of_chunks [OF to dvd] by (simp add: comp_def)
  have head_lt: "\<forall>w \<in> set (map nat_of_bits (chunks to (take ?full ?bits))). w < 2 ^ to"
    using chunks_length_dvd [OF to dvd] nat_of_bits_less by fastforce
  show ?thesis
  proof (cases "?rest = []")
    case True
    then have "take ?full ?bits = ?bits" by simp
    then show ?thesis using ws head head_lt True to
      by (intro exI [of _ 0]) auto
  next
    case False
    let ?pad = "to - length ?rest"
    have lr: "length ?rest < to" using lt by simp
    have last: "bits_of to (nat_of_bits (?rest @ replicate ?pad False)) = ?rest @ replicate ?pad False"
      using lr by (intro bits_of_nat_of_bits_len) simp
    have last_lt: "nat_of_bits (?rest @ replicate ?pad False) < 2 ^ to"
      using nat_of_bits_less [of "?rest @ replicate ?pad False"] lr by simp
    have "concat (map (bits_of to) ws) = take ?full ?bits @ ?rest @ replicate ?pad False"
      using ws head False last by simp
    then have "concat (map (bits_of to) ws) = ?bits @ replicate ?pad False"
      by simp
    moreover have "?pad < to" using False to by simp
    ultimately show ?thesis
      using ws head_lt last_lt False by auto
  qed
qed

lemma convert_radix2_unpad:
  assumes valid: "\<forall>n \<in> set data. n < 2 ^ from"
    and bits: "concat (map (bits_of from) data) = concat (map (bits_of to) xs) @ replicate pad False"
    and small: "\<forall>x \<in> set xs. x < 2 ^ to"
    and pad: "pad < from" "pad < to"
  shows "convert_radix2 from to False data = Inr xs"
proof -
  let ?xbits = "concat (map (bits_of to) xs)"
  have to: "0 < to" using pad by simp
  have len: "length (concat (map (bits_of from) data)) = to * length xs + pad"
    using bits by simp
  have full: "(to * length xs + pad) div to * to = to * length xs"
    using pad(2) by simp
  have take_full: "take (to * length xs) (?xbits @ replicate pad False) = ?xbits"
    by simp
  have drop_full: "drop (to * length xs) (?xbits @ replicate pad False) = replicate pad False"
    by simp
  have "chunks to ?xbits = map (bits_of to) xs"
    using to by (intro chunks_concat) auto
  then have "map nat_of_bits (chunks to ?xbits) = xs"
    using small by (simp add: comp_def bits_of_small map_idI)
  then show ?thesis
    using valid pad len full take_full drop_full bits
    by (simp add: convert_radix2_def Let_def not_le)
qed

theorem from_words_to_words:
  assumes "to_words bs = Inr ws"
  shows "from_words ws = Inr bs"
proof -
  have valid: "\<forall>n \<in> set (map unat bs). n < 2 ^ 8"
    by simp
  obtain pad where pad: "pad < 5"
    and bits: "concat (map (bits_of 5) ws) = concat (map (bits_of 8) (map unat bs)) @ replicate pad False"
    and small: "\<forall>w \<in> set ws. w < 2 ^ 5"
    using convert_radix2_pad_bits [of 8 5 "map unat bs" ws] assms by (auto simp: to_words_def)
  have "convert_radix2 5 8 False ws = Inr (map unat bs)"
    using small bits pad valid by (intro convert_radix2_unpad) auto
  then show ?thesis
    by (simp add: from_words_def comp_def)
qed

lemma to_words_Inr: "\<exists>ws. to_words bs = Inr ws"
  unfolding to_words_def by (rule convert_radix2_pad_Inr) simp

lemma to_words_small: "to_words bs = Inr ws \<Longrightarrow> \<forall>w \<in> set ws. w < 32"
  using convert_radix2_pad_bits [of 8 5 "map unat bs" ws] by (auto simp: to_words_def)

subsection \<open>Alphabet lemmas\<close>

lemma index_of_nth_distinct:
  "distinct xs \<Longrightarrow> i < length xs \<Longrightarrow> index_of (xs ! i) xs = Some i"
proof (induction xs arbitrary: i)
  case (Cons x xs)
  then show ?case
    by (cases i) (auto simp: nth_mem)
qed simp

lemma bech32_charset_facts:
  "distinct bech32_charset" "length bech32_charset = 32" "CHR ''1'' \<notin> set bech32_charset"
  "\<forall>c \<in> set bech32_charset. ascii_lower c = c"
  by (simp_all add: bech32_charset_def ascii_lower_def)

lemma alphabet_encode_Inr:
  "alphabet_encode ws = Inr w \<Longrightarrow> (\<forall>x \<in> set ws. x < 32) \<and> w = map (\<lambda>x. bech32_charset ! x) ws"
  by (simp add: alphabet_encode_def split: if_splits)

lemma alphabet_encode_chars:
  "alphabet_encode ws = Inr w \<Longrightarrow> set w \<subseteq> set bech32_charset"
  using bech32_charset_facts(2) by (auto simp: alphabet_encode_def nth_mem split: if_splits)

lemma alphabet_decode_encode:
  assumes "alphabet_encode ws = Inr w"
  shows "alphabet_decode w = Inr ws"
proof -
  from alphabet_encode_Inr [OF assms]
  have small: "\<forall>x \<in> set ws. x < 32" and w: "w = map (\<lambda>x. bech32_charset ! x) ws"
    by auto
  have "those (map (\<lambda>c. index_of c bech32_charset) (map (\<lambda>x. bech32_charset ! x) ws)) = Some ws"
    using small by (induction ws) (simp_all add: index_of_nth_distinct bech32_charset_facts)
  then show ?thesis
    by (simp add: alphabet_decode_def w)
qed

lemma alphabet_decode_append:
  "alphabet_decode xs = Inr as \<Longrightarrow> alphabet_decode ys = Inr bs \<Longrightarrow>
     alphabet_decode (xs @ ys) = Inr (as @ bs)"
  by (auto simp: alphabet_decode_def those_append split: option.splits)

lemma length_chunks_dvd:
  "0 < k \<Longrightarrow> k dvd length xs \<Longrightarrow> length (chunks k xs) = length xs div k"
proof (induction k xs rule: chunks.induct)
  case (1 k xs)
  show ?case
  proof (cases "xs = []")
    case False
    then have "k \<le> length xs"
      using "1.prems" by (simp add: dvd_imp_le)
    moreover have "k dvd length (drop k xs)"
      using "1.prems"(2) calculation by (simp add: dvd_diff_nat)
    ultimately show ?thesis
      using "1" False by (subst chunks.simps) (auto simp: le_div_geq)
  qed simp
qed

lemma bech_checksum_shape:
  assumes "bech_checksum prefix words = Inr chk"
  shows "length chk = 6 \<and> set chk \<subseteq> set bech32_charset"
proof -
  obtain x sw where conv: "convert_radix2 30 5 False [x] = Inr sw" and enc: "alphabet_encode sw = Inr chk"
    using assms by (auto simp: bech_checksum_def Let_def split: if_splits sum.splits)
  have "x < 2 ^ 30"
    using conv by (cases "x < 2 ^ 30") (simp_all add: convert_radix2_def)
  then have "sw = map nat_of_bits (chunks 5 (bits_of 30 x))"
    using conv by (simp add: convert_radix2_def Let_def split: if_splits)
  then have "length sw = 6"
    by (simp add: length_chunks_dvd)
  then show ?thesis
    using enc alphabet_encode_Inr [OF enc] alphabet_encode_chars [OF enc] by simp
qed

subsection \<open>Case and separator lemmas\<close>

lemma ascii_lower_idem [simp]: "ascii_lower (ascii_lower c) = ascii_lower c"
  by (simp add: ascii_lower_def)

lemma ascii_lower_one [simp]: "ascii_lower (CHR ''1'') = CHR ''1''"
  by (simp add: ascii_lower_def)

lemma last_index_of_None: "last_index_of c xs = None \<longleftrightarrow> c \<notin> set xs"
  by (induction xs) (auto split: option.splits)

lemma last_index_of_sep:
  "c \<notin> set ys \<Longrightarrow> last_index_of c (xs @ c # ys) = Some (length xs)"
proof (induction xs)
  case Nil
  then show ?case by (simp add: last_index_of_None [THEN iffD2])
next
  case (Cons x xs)
  then show ?case by simp
qed

subsection \<open>Decoding inverts encoding\<close>

lemma bech32_encode_Inr:
  assumes "bech32_encode limit prefix words = Inr s"
  obtains chk w where "prefix \<noteq> []" "length prefix + 7 + length words \<le> limit"
    "bech_checksum (map ascii_lower prefix) words = Inr chk"
    "alphabet_encode words = Inr w"
    "s = map ascii_lower prefix @ CHR ''1'' # w @ chk"
  using assms by (auto simp: bech32_encode_def Let_def not_less split: if_splits sum.splits)

theorem bech32_decode_encode:
  assumes enc: "bech32_encode limit prefix words = Inr s"
  shows "bech32_decode limit s = Inr (map ascii_lower prefix, words)"
proof -
  obtain chk w where ne: "prefix \<noteq> []" and lim: "length prefix + 7 + length words \<le> limit"
    and cs: "bech_checksum (map ascii_lower prefix) words = Inr chk"
    and ae: "alphabet_encode words = Inr w"
    and s: "s = map ascii_lower prefix @ CHR ''1'' # w @ chk"
    using enc by (rule bech32_encode_Inr)
  let ?lp = "map ascii_lower prefix"
  have chk: "length chk = 6" "set chk \<subseteq> set bech32_charset"
    using bech_checksum_shape [OF cs] by auto
  have wl: "length w = length words" and wc: "set w \<subseteq> set bech32_charset"
    using alphabet_encode_Inr [OF ae] alphabet_encode_chars [OF ae] by auto
  have tail_chars: "set (w @ chk) \<subseteq> set bech32_charset"
    using chk wc by auto
  have lower_tail: "map ascii_lower (w @ chk) = w @ chk"
    using tail_chars bech32_charset_facts(4) by (intro map_idI) auto
  have lowered: "map ascii_lower s = s"
    using lower_tail by (simp add: s comp_def)
  have no_one: "CHR ''1'' \<notin> set (w @ chk)"
    using tail_chars bech32_charset_facts(3) by auto
  have sep: "last_index_of (CHR ''1'') s = Some (length prefix)"
    using last_index_of_sep [OF no_one, of ?lp] by (simp add: s)
  have len: "8 \<le> length s" "length s \<le> limit"
    using ne lim chk wl by (simp_all add: s) (cases prefix; simp)+
  have dec_w: "alphabet_decode w = Inr words"
    by (rule alphabet_decode_encode [OF ae])
  obtain sw where sw: "alphabet_encode sw = Inr chk"
    using cs by (auto simp: bech_checksum_def Let_def split: if_splits sum.splits)
  have dec_chk: "alphabet_decode chk = Inr sw"
    by (rule alphabet_decode_encode [OF sw])
  have swl: "length sw = 6"
    using alphabet_encode_Inr [OF sw] chk by simp
  have dec: "alphabet_decode (w @ chk) = Inr (words @ sw)"
    by (rule alphabet_decode_append [OF dec_w dec_chk])
  have take_words: "take (length (words @ sw) - 6) (words @ sw) = words"
    using swl by simp
  have drop_chk: "drop (length (w @ chk) - 6) (w @ chk) = chk"
    using chk by simp
  have ne': "length prefix \<noteq> 0" using ne by simp
  have pre: "take (length prefix) s = ?lp" and dat: "drop (Suc (length prefix)) s = w @ chk"
    by (simp_all add: s)
  have long: "\<not> length (w @ chk) < 6"
    using chk by simp
  show ?thesis
    using len
    by (simp add: bech32_decode_def Let_def not_less lowered sep ne' pre dat long dec swl cs chk(1) ne)
qed

subsection \<open>When encoding succeeds\<close>

definition valid_prefix_char :: "char \<Rightarrow> bool" where
  "valid_prefix_char c \<longleftrightarrow> 33 \<le> (of_char c :: nat) \<and> (of_char c :: nat) \<le> 126"

lemma valid_prefix_char_lower: "valid_prefix_char c \<Longrightarrow> valid_prefix_char (ascii_lower c)"
  by (simp add: valid_prefix_char_def ascii_lower_def)

lemma convert_radix2_30_5:
  assumes "x < 2 ^ 30"
  shows "convert_radix2 30 5 False [x] = Inr (map nat_of_bits (chunks 5 (bits_of 30 x)))"
  using assms by (simp add: convert_radix2_def)

lemma alphabet_encode_small: "\<forall>w \<in> set ws. w < 32 \<Longrightarrow> \<exists>s. alphabet_encode ws = Inr s"
  by (simp add: alphabet_encode_def)

lemma chunks_nat_of_bits_small:
  "\<forall>w \<in> set (map nat_of_bits (chunks 5 (bits_of 30 x))). w < 32"
proof -
  have "\<forall>c \<in> set (chunks 5 (bits_of 30 x)). length c = 5"
    using chunks_length_dvd [of 5 "bits_of 30 x"] by auto
  then have "nat_of_bits c < 32" if "c \<in> set (chunks 5 (bits_of 30 x))" for c
    using nat_of_bits_less [of c] that by simp
  then show ?thesis by auto
qed

lemma bech_checksum_Inr:
  assumes "\<forall>c \<in> set prefix. valid_prefix_char c"
  shows "\<exists>chk. bech_checksum prefix words = Inr chk"
proof -
  have pre: "\<not> (\<exists>c \<in> set prefix. (of_char c :: nat) < 33 \<or> 126 < (of_char c :: nat))"
    using assms by (auto simp: valid_prefix_char_def not_less)
  have "\<exists>s. alphabet_encode (map nat_of_bits (chunks 5 (bits_of 30 x))) = Inr s" for x
    by (rule alphabet_encode_small [OF chunks_nat_of_bits_small])
  then show ?thesis
    using pre by (simp add: bech_checksum_def Let_def convert_radix2_30_5)
qed

theorem bech32_encode_succeeds:
  assumes "prefix \<noteq> []" and "length prefix + 7 + length words \<le> limit"
    and "\<forall>c \<in> set prefix. valid_prefix_char c" and "\<forall>w \<in> set words. w < 32"
  shows "\<exists>s. bech32_encode limit prefix words = Inr s"
proof -
  obtain chk where chk: "bech_checksum (map ascii_lower prefix) words = Inr chk"
    using bech_checksum_Inr [of "map ascii_lower prefix" words] assms(3)
    by (auto simp: valid_prefix_char_lower)
  obtain w where w: "alphabet_encode words = Inr w"
    using alphabet_encode_small [OF assms(4)] by blast
  show ?thesis
    using assms(1,2) chk w by (simp add: bech32_encode_def Let_def not_less)
qed

lemma bech32_encode_prefix:
  "bech32_encode limit prefix words = Inr s \<Longrightarrow>
     \<exists>rest. s = map ascii_lower prefix @ CHR ''1'' # rest"
  by (erule bech32_encode_Inr) blast

lemma length_to_words:
  assumes "to_words bs = Inr ws"
  shows "5 * length ws < 8 * length bs + 5"
proof -
  obtain pad where "pad < 5"
    and "concat (map (bits_of 5) ws) = concat (map (bits_of 8) (map unat bs)) @ replicate pad False"
    using convert_radix2_pad_bits [of 8 5 "map unat bs" ws] assms by (auto simp: to_words_def)
  then have "5 * length ws = 8 * length bs + pad"
    using length_concat_bits_of [of 5 ws] length_concat_bits_of [of 8 "map unat bs"] by simp
  with \<open>pad < 5\<close> show ?thesis by simp
qed

end
