(* ===== verification/Nip19.thy ===== *)
theory Nip19
  imports Bech32 Hex
begin

text \<open>
  NIP-19 key encodings of the key library (\<^verbatim>\<open>nip19.npubEncode\<close>,
  \<^verbatim>\<open>nip19.nsecEncode\<close>, \<^verbatim>\<open>nip19.decode\<close>), which \<^verbatim>\<open>generateClientKeys\<close>
  calls to display the client keys. Library code, modelled from its documented
  behaviour: a key's bytes are regrouped into 5-bit words and Bech32-encoded under the
  prefix \<^verbatim>\<open>npub\<close> (public key, given as hex text and read with \<^verbatim>\<open>hexToBytes\<close>)
  or \<^verbatim>\<open>nsec\<close> (secret key, given as bytes), with the library's length limit of 5000
  characters. Decoding returns the public key as lowercase hex and the secret key as
  bytes. The TLV prefixes (\<^verbatim>\<open>nprofile\<close>, \<^verbatim>\<open>nevent\<close>, \<^verbatim>\<open>naddr\<close>) are not
  used by the program and decode to \<open>UnknownPrefix\<close> here. Neither encoder checks the
  key's length.
\<close>

datatype nip19_error = Bech32Error bech32_error | HexError hex_error | UnknownPrefix

datatype nip19_decoded = DecodedNpub js_string | DecodedNsec bytes | DecodedNote js_string

definition bech32_max_size :: nat where
  "bech32_max_size = 5000"

definition encode_bytes :: "string \<Rightarrow> bytes \<Rightarrow> nip19_error + js_string" where
  "encode_bytes prefix bs =
     (case to_words bs of
        Inl e \<Rightarrow> Inl (Bech32Error e)
      | Inr ws \<Rightarrow>
          (case bech32_encode bech32_max_size prefix ws of
             Inl e \<Rightarrow> Inl (Bech32Error e)
           | Inr s \<Rightarrow> Inr s))"

definition nsec_encode :: "bytes \<Rightarrow> nip19_error + js_string" where
  "nsec_encode key = encode_bytes ''nsec'' key"

definition npub_encode :: "js_string \<Rightarrow> nip19_error + js_string" where
  "npub_encode hex =
     (case hex_to_bytes hex of
        Inl e \<Rightarrow> Inl (HexError e)
      | Inr bs \<Rightarrow> encode_bytes ''npub'' bs)"

definition nip19_decode :: "js_string \<Rightarrow> nip19_error + nip19_decoded" where
  "nip19_decode s =
     (case bech32_decode bech32_max_size s of
        Inl e \<Rightarrow> Inl (Bech32Error e)
      | Inr (prefix, words) \<Rightarrow>
          (case from_words words of
             Inl e \<Rightarrow> Inl (Bech32Error e)
           | Inr data \<Rightarrow>
               if prefix = ''nsec'' then Inr (DecodedNsec data)
               else if prefix = ''npub'' \<or> prefix = ''note'' then
                 Inr (if prefix = ''npub'' then DecodedNpub (bytes_to_hex data)
                      else DecodedNote (bytes_to_hex data))
               else Inl UnknownPrefix))"

subsection \<open>Encoding succeeds and decodes back\<close>

lemma role_prefixes_valid:
  "\<forall>c \<in> set ''nsec''. valid_prefix_char c" "\<forall>c \<in> set ''npub''. valid_prefix_char c"
  "map ascii_lower ''nsec'' = ''nsec''" "map ascii_lower ''npub'' = ''npub''"
  by (simp_all add: valid_prefix_char_def ascii_lower_def)

lemma encode_bytes_succeeds:
  assumes "length bs \<le> 3000" and "prefix \<in> {''nsec'', ''npub''}"
  shows "\<exists>ws s. to_words bs = Inr ws \<and> bech32_encode bech32_max_size prefix ws = Inr s
               \<and> encode_bytes prefix bs = Inr s"
proof -
  obtain ws where ws: "to_words bs = Inr ws"
    using to_words_Inr by blast
  have "5 * length ws < 8 * length bs + 5"
    by (rule length_to_words [OF ws])
  with assms(1) have "length prefix + 7 + length ws \<le> bech32_max_size"
    using assms(2) by (auto simp: bech32_max_size_def)
  moreover have "\<forall>c \<in> set prefix. valid_prefix_char c"
    using assms(2) role_prefixes_valid by auto
  ultimately obtain s where s: "bech32_encode bech32_max_size prefix ws = Inr s"
    using bech32_encode_succeeds [where limit = bech32_max_size and prefix = prefix and words = ws] to_words_small [OF ws] assms(2)
    by auto
  then show ?thesis
    using ws by (simp add: encode_bytes_def)
qed

lemma decode_encode_bytes:
  assumes "to_words bs = Inr ws" and "bech32_encode bech32_max_size prefix ws = Inr s"
  shows "bech32_decode bech32_max_size s = Inr (map ascii_lower prefix, ws) \<and> from_words ws = Inr bs"
  using bech32_decode_encode [OF assms(2)] from_words_to_words [OF assms(1)] by simp

lemma nsec_encode_Inr_shape:
  assumes "nsec_encode key = Inr s"
  shows "\<exists>ws. to_words key = Inr ws \<and> bech32_encode bech32_max_size ''nsec'' ws = Inr s"
  using assms by (auto simp: nsec_encode_def encode_bytes_def split: sum.splits)

lemma npub_encode_Inr_shape:
  assumes "npub_encode hex = Inr s"
  shows "\<exists>bs ws. hex_to_bytes hex = Inr bs \<and> to_words bs = Inr ws
                 \<and> bech32_encode bech32_max_size ''npub'' ws = Inr s"
  using assms by (auto simp: npub_encode_def encode_bytes_def split: sum.splits)

lemma nsec_decode_of_encode:
  assumes "nsec_encode key = Inr s"
  shows "nip19_decode s = Inr (DecodedNsec key)"
proof -
  obtain ws where ws: "to_words key = Inr ws" and enc: "bech32_encode bech32_max_size ''nsec'' ws = Inr s"
    using nsec_encode_Inr_shape [OF assms] by blast
  show ?thesis
    using decode_encode_bytes [OF ws enc] role_prefixes_valid(3) by (simp add: nip19_decode_def)
qed

lemma npub_decode_of_encode:
  assumes "npub_encode hex = Inr s" and "hex_to_bytes hex = Inr bs"
  shows "nip19_decode s = Inr (DecodedNpub (bytes_to_hex bs))"
proof -
  obtain ws where ws: "to_words bs = Inr ws" and enc: "bech32_encode bech32_max_size ''npub'' ws = Inr s"
    using npub_encode_Inr_shape [OF assms(1)] assms(2) by auto
  show ?thesis
    using decode_encode_bytes [OF ws enc] role_prefixes_valid(4) by (simp add: nip19_decode_def)
qed

lemma nsec_encode_prefix: "nsec_encode key = Inr s \<Longrightarrow> take 5 s = ''nsec1''"
  using nsec_encode_Inr_shape bech32_encode_prefix role_prefixes_valid(3) by fastforce

lemma npub_encode_prefix: "npub_encode hex = Inr s \<Longrightarrow> take 5 s = ''npub1''"
  using npub_encode_Inr_shape bech32_encode_prefix role_prefixes_valid(4) by fastforce

lemma nsec_encode_succeeds:
  "length key \<le> 3000 \<Longrightarrow> \<exists>s. nsec_encode key = Inr s"
  using encode_bytes_succeeds [of key "''nsec''"] by (auto simp: nsec_encode_def)

lemma npub_encode_hex_succeeds:
  "length bs \<le> 3000 \<Longrightarrow> \<exists>s. npub_encode (bytes_to_hex bs) = Inr s"
  using encode_bytes_succeeds [of bs "''npub''"]
  by (auto simp: npub_encode_def hex_to_bytes_bytes_to_hex)

subsection \<open>Properties of the key encodings\<close>

text \<open>
  Every secret key of up to 3000 bytes has an \<^verbatim>\<open>nsec\<close> encoding; it starts with
  \<^verbatim>\<open>nsec1\<close>, and decoding it gives back the role \<^verbatim>\<open>nsec\<close> and the exact bytes.
\<close>

theorem nsec_roundtrip:
  assumes "length key \<le> 3000"
  shows "\<exists>s. nsec_encode key = Inr s \<and> nip19_decode s = Inr (DecodedNsec key) \<and> take 5 s = ''nsec1''"
  using nsec_encode_succeeds [OF assms] nsec_decode_of_encode nsec_encode_prefix by blast

theorem nsec_roundtrip_witness:
  "\<exists>s. nsec_encode (replicate 32 7) = Inr s \<and> nip19_decode s = Inr (DecodedNsec (replicate 32 7))
       \<and> take 5 s = ''nsec1''"
  by (rule nsec_roundtrip) simp

text \<open>
  Every public key given as the hex text of up to 3000 bytes has an \<^verbatim>\<open>npub\<close>
  encoding; it starts with \<^verbatim>\<open>npub1\<close>, and decoding it gives back the role
  \<^verbatim>\<open>npub\<close> and the same hex text.
\<close>

theorem npub_roundtrip:
  assumes "length bs \<le> 3000"
  shows "\<exists>s. npub_encode (bytes_to_hex bs) = Inr s
             \<and> nip19_decode s = Inr (DecodedNpub (bytes_to_hex bs)) \<and> take 5 s = ''npub1''"
proof -
  obtain s where s: "npub_encode (bytes_to_hex bs) = Inr s"
    using npub_encode_hex_succeeds [OF assms] by blast
  have "nip19_decode s = Inr (DecodedNpub (bytes_to_hex bs))"
    using npub_decode_of_encode [OF s hex_to_bytes_bytes_to_hex] .
  then show ?thesis
    using s npub_encode_prefix [OF s] by blast
qed

theorem npub_roundtrip_witness:
  "\<exists>s. npub_encode (bytes_to_hex (replicate 32 7)) = Inr s
       \<and> nip19_decode s = Inr (DecodedNpub (bytes_to_hex (replicate 32 7))) \<and> take 5 s = ''npub1''"
  by (rule npub_roundtrip) simp

text \<open>
  A public-key encoding and a secret-key encoding never coincide, whatever the key
  bytes: the role is visible in the first characters.
\<close>

theorem npub_nsec_distinct:
  assumes "npub_encode pk = Inr a" and "nsec_encode sk = Inr b"
  shows "a \<noteq> b"
proof
  assume "a = b"
  then have "take 5 a = take 5 b" by simp
  then show False
    using npub_encode_prefix [OF assms(1)] nsec_encode_prefix [OF assms(2)] by simp
qed

theorem npub_nsec_distinct_witness:
  "\<exists>a b. npub_encode (bytes_to_hex (replicate 32 7)) = Inr a \<and> nsec_encode (replicate 32 7) = Inr b
         \<and> a \<noteq> b"
proof -
  obtain a where a: "npub_encode (bytes_to_hex (replicate 32 7)) = Inr a"
    using npub_encode_hex_succeeds [of "replicate 32 7"] by auto
  obtain b where b: "nsec_encode (replicate 32 7) = Inr b"
    using nsec_encode_succeeds [of "replicate 32 7"] by auto
  show ?thesis
    using a b npub_nsec_distinct [OF a b] by blast
qed

text \<open>
  \<^verbatim>\<open>nsecEncode\<close> performs no key-length check: a 17-byte buffer is encoded, and
  decodes back to the same 17 bytes, where the spec expects \<open>InvalidKeyLength\<close>.
\<close>

theorem nsec_encode_accepts_short_key:
  "\<exists>s. nsec_encode (replicate 17 0) = Inr s \<and> nip19_decode s = Inr (DecodedNsec (replicate 17 0))"
  using nsec_encode_succeeds [of "replicate 17 0"] nsec_decode_of_encode by auto

end
