(* ===== verification/JsString.thy ===== *)
theory JsString
  imports Prelude
begin

text \<open>
  The JavaScript string operations the component calls implicitly:
  \<^item> \<^verbatim>\<open>String.prototype.trim\<close>, used by the relay guard of
    \<^verbatim>\<open>generateWalletConnectURI\<close> (\<^verbatim>\<open>!relay.trim()\<close>);
  \<^item> the conversion of a number to its decimal string (\<^verbatim>\<open>Number.prototype.toString\<close>);
  \<^item> the conversion of a \<^verbatim>\<open>Uint8Array\<close> to a string, which
    \<^verbatim>\<open>URLSearchParams.append\<close> performs on the client secret key: by
    \<^verbatim>\<open>Array.prototype.toString\<close> it is \<^verbatim>\<open>join(",")\<close> of the decimal strings of
    the elements.
  They are library behaviour (ECMAScript), modelled from the language definition. The
  theory also holds the inverse readings (decimal parsing and splitting at a separator)
  used to state that these conversions lose no information.
\<close>

subsection \<open>\<^verbatim>\<open>String.prototype.trim\<close>\<close>

text \<open>
  ECMAScript's white space and line terminators, restricted to the single-byte ones
  (tab, line feed, vertical tab, form feed, carriage return, space); the multi-byte
  Unicode spaces are not stripped by this model.
\<close>

definition js_whitespace :: "char \<Rightarrow> bool" where
  "js_whitespace c \<longleftrightarrow> (of_char c :: nat) \<in> {9, 10, 11, 12, 13, 32}"

definition js_trim :: "js_string \<Rightarrow> js_string" where
  "js_trim s = rev (dropWhile js_whitespace (rev (dropWhile js_whitespace s)))"

lemma js_trim_empty_iff: "js_trim s = [] \<longleftrightarrow> (\<forall>c \<in> set s. js_whitespace c)"
proof -
  have "rev (dropWhile js_whitespace (rev (dropWhile js_whitespace s))) = []
        \<longleftrightarrow> (\<forall>c \<in> set (dropWhile js_whitespace s). js_whitespace c)"
    by simp
  also have "\<dots> \<longleftrightarrow> (\<forall>c \<in> set s. js_whitespace c)"
    by (induction s) auto
  finally show ?thesis by (simp add: js_trim_def)
qed

subsection \<open>Decimal strings of numbers\<close>

definition decimal_digit :: "nat \<Rightarrow> char" where
  "decimal_digit d = char_of (48 + d)"

fun nat_to_decimal :: "nat \<Rightarrow> js_string" where
  "nat_to_decimal n =
     (if n < 10 then [decimal_digit n]
      else nat_to_decimal (n div 10) @ [decimal_digit (n mod 10)])"

declare nat_to_decimal.simps [simp del]

definition is_decimal_char :: "char \<Rightarrow> bool" where
  "is_decimal_char c \<longleftrightarrow> 48 \<le> (of_char c :: nat) \<and> (of_char c :: nat) < 58"

definition decimal_value :: "js_string \<Rightarrow> nat" where
  "decimal_value s = foldl (\<lambda>acc c. 10 * acc + (of_char c - 48)) 0 s"

definition parse_decimal :: "js_string \<Rightarrow> nat option" where
  "parse_decimal s =
     (if s \<noteq> [] \<and> list_all is_decimal_char s then Some (decimal_value s) else None)"

subsection \<open>Joining and splitting at a separator\<close>

text \<open>\<^verbatim>\<open>Array.prototype.join(sep)\<close> on strings.\<close>

fun js_join :: "js_string \<Rightarrow> js_string list \<Rightarrow> js_string" where
  "js_join sep [] = []"
| "js_join sep [x] = x"
| "js_join sep (x # y # xs) = x @ sep @ js_join sep (y # xs)"

text \<open>\<^verbatim>\<open>String(u8)\<close> for a \<^verbatim>\<open>Uint8Array\<close> \<open>u8\<close>: the comma-joined decimal values.\<close>

definition u8array_to_string :: "bytes \<Rightarrow> js_string" where
  "u8array_to_string bs = js_join '','' (map (\<lambda>b. nat_to_decimal (unat b)) bs)"

text \<open>\<^verbatim>\<open>String.prototype.split(c)\<close> with a one-character separator.\<close>

fun split_on :: "char \<Rightarrow> js_string \<Rightarrow> js_string list" where
  "split_on c [] = [[]]"
| "split_on c (x # xs) =
     (if x = c then [] # split_on c xs
      else (let r = split_on c xs in (x # hd r) # tl r))"

definition parse_u8array_string :: "js_string \<Rightarrow> bytes option" where
  "parse_u8array_string s =
     (if s = [] then Some []
      else those (map (\<lambda>w. case parse_decimal w of
                              Some n \<Rightarrow> if n < 256 then Some (word_of_nat n) else None
                            | None \<Rightarrow> None) (split_on (CHR '','') s)))"

subsection \<open>Decimal strings\<close>

lemma decimal_digit_char [simp]:
  "d < 10 \<Longrightarrow> is_decimal_char (decimal_digit d)"
  by (simp add: decimal_digit_def is_decimal_char_def)

lemma decimal_digit_value [simp]:
  "d < 10 \<Longrightarrow> (of_char (decimal_digit d) :: nat) - 48 = d"
  by (simp add: decimal_digit_def)

lemma nat_to_decimal_unfold:
  "nat_to_decimal n =
     (if n < 10 then [decimal_digit n]
      else nat_to_decimal (n div 10) @ [decimal_digit (n mod 10)])"
  by (rule nat_to_decimal.simps)

lemma nat_to_decimal_digits: "list_all is_decimal_char (nat_to_decimal n)"
proof (induction n rule: nat_to_decimal.induct)
  case (1 n)
  then show ?case by (subst nat_to_decimal_unfold) simp
qed

lemma nat_to_decimal_nonempty [simp]: "nat_to_decimal n \<noteq> []"
  by (subst nat_to_decimal_unfold) simp

lemma decimal_value_snoc:
  "decimal_value (s @ [c]) = 10 * decimal_value s + (of_char c - 48)"
  by (simp add: decimal_value_def)

lemma decimal_value_nat_to_decimal: "decimal_value (nat_to_decimal n) = n"
proof (induction n rule: nat_to_decimal.induct)
  case (1 n)
  show ?case
  proof (cases "n < 10")
    case True
    then show ?thesis
      by (subst nat_to_decimal_unfold) (simp add: decimal_value_def)
  next
    case False
    with "1" have "decimal_value (nat_to_decimal (n div 10)) = n div 10" by simp
    with False show ?thesis
      by (subst nat_to_decimal_unfold) (simp add: decimal_value_snoc)
  qed
qed

lemma parse_decimal_nat_to_decimal [roundtrip_simps]:
  "parse_decimal (nat_to_decimal n) = Some n"
  by (simp add: parse_decimal_def nat_to_decimal_digits decimal_value_nat_to_decimal)

lemma comma_not_decimal [simp]: "\<not> is_decimal_char (CHR '','')"
  by (simp add: is_decimal_char_def)

lemma comma_notin_nat_to_decimal [simp]: "CHR '','' \<notin> set (nat_to_decimal n)"
  using nat_to_decimal_digits [of n] by (auto simp: list_all_iff)

subsection \<open>Join and split\<close>

lemma split_on_nonempty [simp]: "split_on c s \<noteq> []"
  by (cases s) (auto simp: Let_def)

lemma split_on_append_sep:
  "c \<notin> set x \<Longrightarrow> split_on c (x @ c # s) = x # split_on c s"
  by (induction x) (auto simp: Let_def)

lemma split_on_no_sep: "c \<notin> set x \<Longrightarrow> split_on c x = [x]"
  by (induction x) (auto simp: Let_def)

lemma split_on_js_join [roundtrip_simps]:
  assumes "xss \<noteq> []" and "\<forall>x \<in> set xss. c \<notin> set x"
  shows "split_on c (js_join [c] xss) = xss"
  using assms
proof (induction "[c]" xss rule: js_join.induct)
  case (3 x y xs)
  then show ?case by (simp add: split_on_append_sep)
qed (auto simp: split_on_no_sep)

lemma js_join_Nil_iff: "js_join sep xss = [] \<longleftrightarrow> (\<forall>x \<in> set xss. x = []) \<and> (sep = [] \<or> length xss \<le> 1)"
  by (induction sep xss rule: js_join.induct) auto

lemma set_js_join:
  "set (js_join sep xss) = \<Union> (set ` set xss) \<union> (if 2 \<le> length xss then set sep else {})"
  by (induction sep xss rule: js_join.induct) auto

subsection \<open>The string of a \<^verbatim>\<open>Uint8Array\<close>\<close>

lemma u8array_to_string_Nil_iff: "u8array_to_string bs = [] \<longleftrightarrow> bs = []"
  by (auto simp: u8array_to_string_def js_join_Nil_iff)

lemma parse_u8array_string_roundtrip [roundtrip_simps]:
  "parse_u8array_string (u8array_to_string bs) = Some bs"
proof (cases "bs = []")
  case True
  then show ?thesis by (simp add: u8array_to_string_def parse_u8array_string_def)
next
  case False
  have split: "split_on (CHR '','') (u8array_to_string bs) = map (\<lambda>b. nat_to_decimal (unat b)) bs"
    unfolding u8array_to_string_def using False
    by (intro split_on_js_join) auto
  have "those (map (\<lambda>w. case parse_decimal w of
                        Some n \<Rightarrow> if n < 256 then Some (word_of_nat n :: byte) else None
                      | None \<Rightarrow> None) (map (\<lambda>b. nat_to_decimal (unat b)) bs)) = Some bs"
    by (induction bs) (auto simp: parse_decimal_nat_to_decimal)
  with False split show ?thesis
    by (simp add: parse_u8array_string_def u8array_to_string_Nil_iff)
qed

lemma comma_in_u8array_to_string:
  "2 \<le> length bs \<Longrightarrow> CHR '','' \<in> set (u8array_to_string bs)"
  by (simp add: u8array_to_string_def set_js_join)

end
