(* ===== verification/UrlSearchParams.thy ===== *)
theory UrlSearchParams
  imports JsString Hex
begin

text \<open>
  The \<^verbatim>\<open>URLSearchParams\<close> object that \<^verbatim>\<open>generateWalletConnectURI\<close> builds
  (\<^verbatim>\<open>new URLSearchParams()\<close>, two \<^verbatim>\<open>append\<close> calls, \<^verbatim>\<open>toString()\<close>), modelled
  from the WHATWG URL standard: the object is its list of name-value pairs in insertion
  order; \<^verbatim>\<open>toString\<close> is the \<^verbatim>\<open>application/x-www-form-urlencoded\<close> serializer
  (bytes other than ASCII letters, digits and \<^verbatim>\<open>*-._\<close> are written \<^verbatim>\<open>%XX\<close>
  with upper-case digits, a space is written \<^verbatim>\<open>+\<close>). The matching parser (split at
  \<^verbatim>\<open>&\<close>, drop empty pieces, cut at the first \<^verbatim>\<open>=\<close>, turn \<^verbatim>\<open>+\<close> into a
  space, percent-decode) is what a consumer of the URI runs on its query; the URL
  parser's query is the text after the first \<^verbatim>\<open>?\<close> up to a \<^verbatim>\<open>#\<close>.
\<close>

type_synonym search_params = "(js_string \<times> js_string) list"

definition usp_new :: search_params where
  "usp_new = []"

definition usp_append :: "search_params \<Rightarrow> js_string \<Rightarrow> js_string \<Rightarrow> search_params" where
  "usp_append ps name value = ps @ [(name, value)]"

definition usp_get :: "search_params \<Rightarrow> js_string \<Rightarrow> js_string option" where
  "usp_get ps name = map_option snd (find (\<lambda>(n, _). n = name) ps)"

subsection \<open>Serializer\<close>

definition hex_digit_upper :: "nat \<Rightarrow> char" where
  "hex_digit_upper d = (if d < 10 then char_of (48 + d) else char_of (55 + d))"

definition form_urlencoded_safe :: "char \<Rightarrow> bool" where
  "form_urlencoded_safe c \<longleftrightarrow>
     (let n = (of_char c :: nat) in
      (48 \<le> n \<and> n \<le> 57) \<or> (65 \<le> n \<and> n \<le> 90) \<or> (97 \<le> n \<and> n \<le> 122)
      \<or> n = 42 \<or> n = 45 \<or> n = 46 \<or> n = 95)"

definition percent_encode_byte :: "char \<Rightarrow> js_string" where
  "percent_encode_byte c =
     [CHR ''%'', hex_digit_upper (of_char c div 16), hex_digit_upper (of_char c mod 16)]"

definition form_urlencode_char :: "char \<Rightarrow> js_string" where
  "form_urlencode_char c =
     (if form_urlencoded_safe c then [c]
      else if c = CHR '' '' then ''+''
      else percent_encode_byte c)"

definition form_urlencode :: "js_string \<Rightarrow> js_string" where
  "form_urlencode s = concat (map form_urlencode_char s)"

definition usp_to_string :: "search_params \<Rightarrow> js_string" where
  "usp_to_string ps =
     js_join ''&'' (map (\<lambda>(n, v). form_urlencode n @ ''='' @ form_urlencode v) ps)"

subsection \<open>Parser\<close>

fun percent_decode :: "js_string \<Rightarrow> js_string" where
  "percent_decode [] = []"
| "percent_decode (c # cs) =
     (if c = CHR ''%'' then
        (case cs of
           h1 # h2 # rest \<Rightarrow>
             (case (ascii_to_base16 h1, ascii_to_base16 h2) of
                (Some a, Some b) \<Rightarrow> char_of (a * 16 + b) # percent_decode rest
              | _ \<Rightarrow> c # percent_decode cs)
         | _ \<Rightarrow> c # percent_decode cs)
      else c # percent_decode cs)"

definition form_urldecode :: "js_string \<Rightarrow> js_string" where
  "form_urldecode s = percent_decode (map (\<lambda>c. if c = CHR ''+'' then CHR '' '' else c) s)"

definition form_parse_sequence :: "js_string \<Rightarrow> js_string \<times> js_string" where
  "form_parse_sequence seq =
     (if CHR ''='' \<in> set seq
      then (form_urldecode (takeWhile (\<lambda>c. c \<noteq> CHR ''='') seq),
            form_urldecode (tl (dropWhile (\<lambda>c. c \<noteq> CHR ''='') seq)))
      else (form_urldecode seq, []))"

definition form_parse :: "js_string \<Rightarrow> search_params" where
  "form_parse s = map form_parse_sequence (filter (\<lambda>seq. seq \<noteq> []) (split_on (CHR ''&'') s))"

definition url_query :: "js_string \<Rightarrow> js_string option" where
  "url_query u =
     (if CHR ''?'' \<in> set u
      then Some (takeWhile (\<lambda>c. c \<noteq> CHR ''#'') (tl (dropWhile (\<lambda>c. c \<noteq> CHR ''?'') u)))
      else None)"

subsection \<open>Percent-decoding inverts the serializer\<close>

lemma hex_digit_upper_base16 [simp]: "d < 16 \<Longrightarrow> ascii_to_base16 (hex_digit_upper d) = Some d"
  by (auto simp: hex_digit_upper_def ascii_to_base16_def Let_def)

lemma hex_digit_upper_range:
  "d < 16 \<Longrightarrow> (of_char (hex_digit_upper d) :: nat) \<in> {48..57} \<union> {65..70}"
  by (simp add: hex_digit_upper_def)

lemma of_char_div_16 [simp]: "(of_char c :: nat) div 16 < 16"
  using of_char_less_256 [of c] by (simp add: div_less_iff_less_mult)

lemma hex_range_not_special:
  "(of_char x :: nat) \<in> {48..57} \<union> {65..70} \<Longrightarrow>
     x \<notin> {CHR ''&'', CHR ''='', CHR ''#'', CHR ''+''}"
  by auto

lemma percent_encode_byte_specials:
  "CHR ''&'' \<notin> set (percent_encode_byte c)" "CHR ''='' \<notin> set (percent_encode_byte c)"
  "CHR ''#'' \<notin> set (percent_encode_byte c)" "CHR ''+'' \<notin> set (percent_encode_byte c)"
proof -
  have "hex_digit_upper (of_char c div 16) \<notin> {CHR ''&'', CHR ''='', CHR ''#'', CHR ''+''}"
       "hex_digit_upper (of_char c mod 16) \<notin> {CHR ''&'', CHR ''='', CHR ''#'', CHR ''+''}"
    by (rule hex_range_not_special, rule hex_digit_upper_range, simp)+
  then show "CHR ''&'' \<notin> set (percent_encode_byte c)" "CHR ''='' \<notin> set (percent_encode_byte c)"
    "CHR ''#'' \<notin> set (percent_encode_byte c)" "CHR ''+'' \<notin> set (percent_encode_byte c)"
    by (auto simp: percent_encode_byte_def)
qed

lemma safe_not_special [simp]:
  "form_urlencoded_safe c \<Longrightarrow> c \<noteq> CHR ''%''"
  "form_urlencoded_safe c \<Longrightarrow> c \<noteq> CHR ''&''"
  "form_urlencoded_safe c \<Longrightarrow> c \<noteq> CHR ''=''"
  "form_urlencoded_safe c \<Longrightarrow> c \<noteq> CHR ''+''"
  "form_urlencoded_safe c \<Longrightarrow> c \<noteq> CHR '' ''"
  "form_urlencoded_safe c \<Longrightarrow> c \<noteq> CHR ''#''"
  by (auto simp: form_urlencoded_safe_def Let_def)

lemma form_urlencode_char_specials:
  "CHR ''&'' \<notin> set (form_urlencode_char c)"
  "CHR ''='' \<notin> set (form_urlencode_char c)"
  "CHR ''#'' \<notin> set (form_urlencode_char c)"
  by (auto simp: form_urlencode_char_def percent_encode_byte_specials form_urlencoded_safe_def)

lemma form_urlencode_specials [simp]:
  "CHR ''&'' \<notin> set (form_urlencode s)"
  "CHR ''='' \<notin> set (form_urlencode s)"
  "CHR ''#'' \<notin> set (form_urlencode s)"
  by (auto simp: form_urlencode_def form_urlencode_char_specials)

lemma form_urlencode_safe_id: "list_all form_urlencoded_safe s \<Longrightarrow> form_urlencode s = s"
  by (induction s) (simp_all add: form_urlencode_def form_urlencode_char_def)

lemma form_urlencode_param_names [simp]:
  "form_urlencode ''relay'' = ''relay''" "form_urlencode ''secret'' = ''secret''"
  by (simp_all add: form_urlencode_safe_id form_urlencoded_safe_def)

text \<open>After \<open>+\<close> has become a space again, each encoded byte decodes to itself.\<close>

definition plus_to_space :: "js_string \<Rightarrow> js_string" where
  "plus_to_space s = map (\<lambda>c. if c = CHR ''+'' then CHR '' '' else c) s"

lemma plus_to_space_encode_char:
  "plus_to_space (form_urlencode_char c) =
     (if form_urlencoded_safe c \<or> c = CHR '' '' then [c] else percent_encode_byte c)"
proof -
  have "plus_to_space (percent_encode_byte c) = percent_encode_byte c"
    unfolding plus_to_space_def using percent_encode_byte_specials(4) [of c]
    by (intro map_idI) auto
  then show ?thesis
    by (auto simp: plus_to_space_def form_urlencode_char_def)
qed

lemma percent_decode_encoded_char:
  "percent_decode (plus_to_space (form_urlencode_char c) @ rest) = c # percent_decode rest"
proof -
  have pct: "percent_decode (percent_encode_byte c @ rest) = c # percent_decode rest"
  proof -
    have "(of_char c :: nat) div 16 * 16 + of_char c mod 16 = of_char c" by simp
    then show ?thesis by (simp add: percent_encode_byte_def)
  qed
  show ?thesis
    by (auto simp: plus_to_space_encode_char pct)
qed

lemma form_urldecode_form_urlencode [roundtrip_simps]:
  "form_urldecode (form_urlencode s) = s"
proof -
  have "percent_decode (concat (map (\<lambda>c. plus_to_space (form_urlencode_char c)) s)) = s"
    by (induction s) (simp_all add: percent_decode_encoded_char)
  moreover have "plus_to_space (form_urlencode s)
                   = concat (map (\<lambda>c. plus_to_space (form_urlencode_char c)) s)"
    by (simp add: plus_to_space_def form_urlencode_def map_concat comp_def)
  ultimately show ?thesis
    by (simp add: form_urldecode_def plus_to_space_def)
qed

subsection \<open>Parsing inverts \<^verbatim>\<open>toString\<close>\<close>

lemma form_parse_sequence_pair:
  "form_parse_sequence (form_urlencode n @ CHR ''='' # form_urlencode v) = (n, v)"
proof -
  have "takeWhile (\<lambda>c. c \<noteq> CHR ''='') (form_urlencode n @ CHR ''='' # form_urlencode v) = form_urlencode n"
    by (subst takeWhile_append2) auto
  moreover have "dropWhile (\<lambda>c. c \<noteq> CHR ''='') (form_urlencode n @ CHR ''='' # form_urlencode v)
                   = CHR ''='' # form_urlencode v"
    by (subst dropWhile_append2) auto
  ultimately show ?thesis
    by (simp add: form_parse_sequence_def form_urldecode_form_urlencode)
qed

lemma form_parse_usp_to_string [roundtrip_simps]: "form_parse (usp_to_string ps) = ps"
proof (cases "ps = []")
  case True
  then show ?thesis
    by (simp add: form_parse_def usp_to_string_def)
next
  case False
  let ?seqs = "map (\<lambda>(n, v). form_urlencode n @ ''='' @ form_urlencode v) ps"
  have "split_on (CHR ''&'') (js_join [CHR ''&''] ?seqs) = ?seqs"
    using False by (intro split_on_js_join) auto
  moreover have "filter (\<lambda>seq. seq \<noteq> []) ?seqs = ?seqs"
    by (auto simp: filter_id_conv)
  moreover have "map form_parse_sequence ?seqs = ps"
    by (induction ps) (auto simp: form_parse_sequence_pair)
  ultimately show ?thesis
    by (simp add: form_parse_def usp_to_string_def)
qed

lemma hash_notin_usp_to_string [simp]: "CHR ''#'' \<notin> set (usp_to_string ps)"
  by (auto simp: usp_to_string_def set_js_join split: if_splits)

lemma url_query_append:
  assumes "CHR ''?'' \<notin> set prefix" and "CHR ''#'' \<notin> set q"
  shows "url_query (prefix @ ''?'' @ q) = Some q"
proof -
  have "dropWhile (\<lambda>c. c \<noteq> CHR ''?'') (prefix @ ''?'' @ q) = ''?'' @ q"
    using assms(1) by (subst dropWhile_append2) auto
  moreover have "takeWhile (\<lambda>c. c \<noteq> CHR ''#'') q = q"
    using assms(2) by (simp add: takeWhile_eq_all_conv) blast
  ultimately show ?thesis
    by (simp add: url_query_def)
qed

end
