(* ===== verification/NostrKeyGen.thy ===== *)
theory NostrKeyGen
  imports Secp256k1 Nip19 UrlSearchParams
begin

text \<open>
  The component \<^verbatim>\<open>NostrKeyAndWalletConnectDemo\<close> of \<^verbatim>\<open>src/NostrKeyGen.js\<close>:
  its React state (the \<^verbatim>\<open>useState\<close> hooks, lines 118--124) as a record, its event
  handlers (\<^verbatim>\<open>generateClientKeys\<close>, \<^verbatim>\<open>generateWalletConnectURI\<close>,
  \<^verbatim>\<open>copyToClipboard\<close>, the timer it schedules, the show/hide toggle and the relay
  input) as state transformers, and the controls the JSX renders as the events that are
  possible in a state. The environment appears as explicit values: the random source the
  key library draws from (with a counter of the draws made), the result of the clipboard
  write, the system clipboard's contents, the number of pending \<^verbatim>\<open>setTimeout\<close>
  callbacks, and the list of \<^verbatim>\<open>alert\<close> and \<^verbatim>\<open>console.error\<close> calls made so far.
  An exception inside a \<^verbatim>\<open>try\<close> block is an \<open>Inl\<close> result of the library call,
  and the \<^verbatim>\<open>catch\<close> branch is a logged error with no other change of state.
\<close>

record client_keys =
  ck_sk :: bytes
  ck_pk :: js_string
  ck_npub :: js_string
  ck_nsec :: js_string

datatype effect = Alert js_string | ConsoleError js_string

record ui_state =
  client_keys :: "client_keys option"
  show_private :: bool
  relay :: js_string
  wallet_connect_uri :: js_string
  copy_message :: js_string
  clipboard :: js_string
  pending_timers :: nat
  rng_draws :: nat
  effects :: "effect list"

definition initial_state :: ui_state where
  "initial_state =
     \<lparr>client_keys = None, show_private = False, relay = [], wallet_connect_uri = [],
      copy_message = [], clipboard = [], pending_timers = 0, rng_draws = 0, effects = []\<rparr>"

definition log_effect :: "effect \<Rightarrow> ui_state \<Rightarrow> ui_state" where
  "log_effect eff s = s\<lparr>effects := effects s @ [eff]\<rparr>"

subsection \<open>\<^verbatim>\<open>generateClientKeys\<close>\<close>

datatype derive_error = DeriveKeyError key_error | DeriveNip19Error nip19_error

text \<open>The body of the \<^verbatim>\<open>try\<close> block after \<^verbatim>\<open>generateSecretKey()\<close>: lines 131--134.\<close>

definition derive_client_keys :: "bytes \<Rightarrow> derive_error + client_keys" where
  "derive_client_keys sk =
     (case get_public_key sk of
        Inl e \<Rightarrow> Inl (DeriveKeyError e)
      | Inr pk \<Rightarrow>
          (case npub_encode pk of
             Inl e \<Rightarrow> Inl (DeriveNip19Error e)
           | Inr npub \<Rightarrow>
               (case nsec_encode sk of
                  Inl e \<Rightarrow> Inl (DeriveNip19Error e)
                | Inr nsec \<Rightarrow> Inr \<lparr>ck_sk = sk, ck_pk = pk, ck_npub = npub, ck_nsec = nsec\<rparr>)))"

definition generate_client_keys :: "random_source \<Rightarrow> ui_state \<Rightarrow> ui_state" where
  "generate_client_keys src s =
     (let s' = s\<lparr>rng_draws := Suc (rng_draws s)\<rparr> in
      case generate_secret_key src (rng_draws s) of
        Inl e \<Rightarrow> log_effect (ConsoleError ''Error generating client keys:'') s'
      | Inr sk \<Rightarrow>
          (case derive_client_keys sk of
             Inl e \<Rightarrow> log_effect (ConsoleError ''Error generating client keys:'') s'
           | Inr keys \<Rightarrow> s'\<lparr>client_keys := Some keys, wallet_connect_uri := []\<rparr>))"

subsection \<open>\<^verbatim>\<open>generateWalletConnectURI\<close>\<close>

text \<open>Lines 165--169: the URI text built from the service public key, the relay and the
  client secret (a \<^verbatim>\<open>Uint8Array\<close>, which \<^verbatim>\<open>append\<close> converts to a string).\<close>

definition build_wallet_connect_uri :: "js_string \<Rightarrow> js_string \<Rightarrow> bytes \<Rightarrow> js_string" where
  "build_wallet_connect_uri buho_pk rly client_secret =
     (let uri = ''nostr+walletconnect://'' @ buho_pk;
          params = usp_append (usp_append usp_new ''relay'' rly) ''secret''
                     (u8array_to_string client_secret)
      in uri @ ''?'' @ usp_to_string params)"

definition generate_wallet_connect_uri :: "random_source \<Rightarrow> ui_state \<Rightarrow> ui_state" where
  "generate_wallet_connect_uri src s =
     (case client_keys s of
        None \<Rightarrow> log_effect (Alert ''Please generate your client Nostr keys first!'') s
      | Some keys \<Rightarrow>
          if js_trim (relay s) = [] then log_effect (Alert ''Relay URL is required!'') s
          else (let s' = s\<lparr>rng_draws := Suc (rng_draws s)\<rparr> in
                case generate_secret_key src (rng_draws s) of
                  Inl e \<Rightarrow> log_effect (ConsoleError ''Error generating Wallet Connect URI:'') s'
                | Inr buho_sk \<Rightarrow>
                    (case get_public_key buho_sk of
                       Inl e \<Rightarrow> log_effect (ConsoleError ''Error generating Wallet Connect URI:'') s'
                     | Inr buho_pk \<Rightarrow>
                         s'\<lparr>wallet_connect_uri :=
                               build_wallet_connect_uri buho_pk (relay s) (ck_sk keys)\<rparr>)))"

subsection \<open>\<^verbatim>\<open>copyToClipboard\<close> and its timer\<close>

definition copy_to_clipboard :: "js_string \<Rightarrow> bool \<Rightarrow> ui_state \<Rightarrow> ui_state" where
  "copy_to_clipboard text ok s =
     (let s' = (if ok then s\<lparr>clipboard := text, copy_message := ''Copied to clipboard!''\<rparr>
                else (log_effect (ConsoleError ''Copy failed'') s)\<lparr>copy_message := ''Copy failed!''\<rparr>)
      in s'\<lparr>pending_timers := Suc (pending_timers s')\<rparr>)"

definition copy_timer_fires :: "ui_state \<Rightarrow> ui_state" where
  "copy_timer_fires s = s\<lparr>copy_message := [], pending_timers := pending_timers s - 1\<rparr>"

subsection \<open>Rendering: what is shown, and which controls exist\<close>

text \<open>The mask shown instead of a hidden secret: 36 bullets (U+2022, three UTF-8 bytes each).\<close>

definition mask_text :: js_string where
  "mask_text = concat (replicate 36 [CHR 0xE2, CHR 0x80, CHR 0xA2])"

text \<open>React renders the \<^verbatim>\<open>Uint8Array\<close> \<^verbatim>\<open>clientKeys.sk\<close> as an iterable child: the
  decimal text of each element, with no separator.\<close>

definition react_text_of_u8array :: "bytes \<Rightarrow> js_string" where
  "react_text_of_u8array bs = concat (map (\<lambda>b. nat_to_decimal (unat b)) bs)"

definition rendered_key_texts :: "ui_state \<Rightarrow> js_string list" where
  "rendered_key_texts s =
     (case client_keys s of
        None \<Rightarrow> []
      | Some keys \<Rightarrow>
          [ck_pk keys, ck_npub keys,
           if show_private s then react_text_of_u8array (ck_sk keys) else mask_text,
           if show_private s then ck_nsec keys else mask_text])"

datatype copy_target = CopyPk | CopyNpub | CopySk | CopyNsec | CopyUri

text \<open>The text a copy button passes to \<^verbatim>\<open>copyToClipboard\<close>, or \<open>None\<close> when the button is
  not rendered. \<^verbatim>\<open>writeText\<close> converts the \<^verbatim>\<open>Uint8Array\<close> secret to a string.\<close>

definition copy_text :: "ui_state \<Rightarrow> copy_target \<Rightarrow> js_string option" where
  "copy_text s t =
     (case t of
        CopyUri \<Rightarrow> if wallet_connect_uri s \<noteq> [] then Some (wallet_connect_uri s) else None
      | _ \<Rightarrow>
          (case client_keys s of
             None \<Rightarrow> None
           | Some keys \<Rightarrow>
               Some (case t of
                       CopyPk \<Rightarrow> ck_pk keys
                     | CopyNpub \<Rightarrow> ck_npub keys
                     | CopySk \<Rightarrow> u8array_to_string (ck_sk keys)
                     | _ \<Rightarrow> ck_nsec keys)))"

datatype ui_event =
    ClickGenerateKeys
  | ClickToggleShow
  | ChangeRelay js_string
  | ClickGenerateUri
  | ClickCopy copy_target bool
  | CopyTimerFires

definition ui_step :: "random_source \<Rightarrow> ui_state \<Rightarrow> ui_event \<Rightarrow> ui_state option" where
  "ui_step src s e =
     (case e of
        ClickGenerateKeys \<Rightarrow> Some (generate_client_keys src s)
      | ClickToggleShow \<Rightarrow>
          if client_keys s \<noteq> None then Some (s\<lparr>show_private := \<not> show_private s\<rparr>) else None
      | ChangeRelay v \<Rightarrow> Some (s\<lparr>relay := v\<rparr>)
      | ClickGenerateUri \<Rightarrow> Some (generate_wallet_connect_uri src s)
      | ClickCopy t ok \<Rightarrow> map_option (\<lambda>text. copy_to_clipboard text ok s) (copy_text s t)
      | CopyTimerFires \<Rightarrow> if 0 < pending_timers s then Some (copy_timer_fires s) else None)"

fun ui_run :: "random_source \<Rightarrow> ui_state \<Rightarrow> ui_event list \<Rightarrow> ui_state option" where
  "ui_run src s [] = Some s"
| "ui_run src s (e # es) = (case ui_step src s e of None \<Rightarrow> None | Some t \<Rightarrow> ui_run src t es)"

inductive reachable :: "random_source \<Rightarrow> ui_state \<Rightarrow> bool" for src where
  init: "reachable src initial_state"
| step: "reachable src s \<Longrightarrow> ui_step src s e = Some t \<Longrightarrow> reachable src t"

subsection \<open>Invariant of the reachable states\<close>

text \<open>
  The stored client keys are always a consistent pair with their encodings, and a
  non-empty URI was always built from the secret of the client keys currently stored,
  with a service public key in lowercase hex and a relay that passed the guard.
\<close>

definition keys_consistent :: "client_keys \<Rightarrow> bool" where
  "keys_consistent k \<longleftrightarrow>
     length (ck_sk k) = 32 \<and> 1 \<le> be_to_nat (ck_sk k) \<and> be_to_nat (ck_sk k) < secp256k1_n
     \<and> get_public_key (ck_sk k) = Inr (ck_pk k)
     \<and> npub_encode (ck_pk k) = Inr (ck_npub k)
     \<and> nsec_encode (ck_sk k) = Inr (ck_nsec k)"

definition uri_from_keys :: "js_string \<Rightarrow> client_keys \<Rightarrow> bool" where
  "uri_from_keys u k \<longleftrightarrow>
     (\<exists>bpk rly. length bpk = 64 \<and> list_all is_lower_hex_char bpk \<and> js_trim rly \<noteq> []
               \<and> u = build_wallet_connect_uri bpk rly (ck_sk k))"

definition ui_invariant :: "ui_state \<Rightarrow> bool" where
  "ui_invariant s \<longleftrightarrow>
     (\<forall>k. client_keys s = Some k \<longrightarrow> keys_consistent k)
     \<and> (wallet_connect_uri s \<noteq> [] \<longrightarrow> (\<exists>k. client_keys s = Some k \<and> uri_from_keys (wallet_connect_uri s) k))"

lemma get_public_key_hex_text:
  assumes "get_public_key sk = Inr pk"
  shows "length pk = 64 \<and> list_all is_lower_hex_char pk"
  using get_public_key_shape [OF assms] bytes_to_hex_lower by auto

lemma derive_client_keys_Inr:
  assumes "derive_client_keys sk = Inr k"
  shows "ck_sk k = sk \<and> get_public_key sk = Inr (ck_pk k) \<and> npub_encode (ck_pk k) = Inr (ck_npub k)
         \<and> nsec_encode sk = Inr (ck_nsec k)"
  using assms by (auto simp: derive_client_keys_def split: sum.splits)

lemma generate_client_keys_cases:
  "(\<exists>effs. generate_client_keys src s = s\<lparr>rng_draws := Suc (rng_draws s), effects := effs\<rparr>)
   \<or> (\<exists>sk k. generate_secret_key src (rng_draws s) = Inr sk \<and> derive_client_keys sk = Inr k
        \<and> generate_client_keys src s = s\<lparr>rng_draws := Suc (rng_draws s), client_keys := Some k, wallet_connect_uri := []\<rparr>)"
proof -
  have "generate_client_keys src s
          = s\<lparr>rng_draws := Suc (rng_draws s), effects := effects (generate_client_keys src s)\<rparr>
   \<or> (\<exists>sk k. generate_secret_key src (rng_draws s) = Inr sk \<and> derive_client_keys sk = Inr k
        \<and> generate_client_keys src s = s\<lparr>rng_draws := Suc (rng_draws s), client_keys := Some k, wallet_connect_uri := []\<rparr>)"
    by (auto simp: generate_client_keys_def Let_def log_effect_def split: sum.splits)
  then show ?thesis
    by blast
qed

lemma generate_wallet_connect_uri_cases:
  "(\<exists>effs. generate_wallet_connect_uri src s = s\<lparr>effects := effs\<rparr>)
   \<or> (\<exists>effs. generate_wallet_connect_uri src s = s\<lparr>rng_draws := Suc (rng_draws s), effects := effs\<rparr>)
   \<or> (\<exists>k bsk bpk. client_keys s = Some k \<and> js_trim (relay s) \<noteq> []
        \<and> generate_secret_key src (rng_draws s) = Inr bsk \<and> get_public_key bsk = Inr bpk
        \<and> generate_wallet_connect_uri src s =
             s\<lparr>rng_draws := Suc (rng_draws s),
               wallet_connect_uri := build_wallet_connect_uri bpk (relay s) (ck_sk k)\<rparr>)"
proof -
  have "generate_wallet_connect_uri src s = s\<lparr>effects := effects (generate_wallet_connect_uri src s)\<rparr>
   \<or> generate_wallet_connect_uri src s
       = s\<lparr>rng_draws := Suc (rng_draws s), effects := effects (generate_wallet_connect_uri src s)\<rparr>
   \<or> (\<exists>k bsk bpk. client_keys s = Some k \<and> js_trim (relay s) \<noteq> []
        \<and> generate_secret_key src (rng_draws s) = Inr bsk \<and> get_public_key bsk = Inr bpk
        \<and> generate_wallet_connect_uri src s =
             s\<lparr>rng_draws := Suc (rng_draws s),
               wallet_connect_uri := build_wallet_connect_uri bpk (relay s) (ck_sk k)\<rparr>)"
    by (auto simp: generate_wallet_connect_uri_def Let_def log_effect_def split: option.splits sum.splits)
  then show ?thesis
    by blast
qed

lemma ui_invariant_initial: "ui_invariant initial_state"
  by (simp add: ui_invariant_def initial_state_def)

lemma ui_invariant_log_effect [simp]: "ui_invariant (log_effect eff s) = ui_invariant s"
  by (simp add: ui_invariant_def log_effect_def)

lemma ui_invariant_generate_client_keys:
  assumes "ui_invariant s"
  shows "ui_invariant (generate_client_keys src s)"
  using generate_client_keys_cases [of src s]
proof
  assume "\<exists>effs. generate_client_keys src s = s\<lparr>rng_draws := Suc (rng_draws s), effects := effs\<rparr>"
  with assms show ?thesis by (auto simp: ui_invariant_def)
next
  assume "\<exists>sk k. generate_secret_key src (rng_draws s) = Inr sk \<and> derive_client_keys sk = Inr k
        \<and> generate_client_keys src s = s\<lparr>rng_draws := Suc (rng_draws s), client_keys := Some k, wallet_connect_uri := []\<rparr>"
  then obtain sk k where gen: "generate_secret_key src (rng_draws s) = Inr sk"
    and der: "derive_client_keys sk = Inr k"
    and res: "generate_client_keys src s = s\<lparr>rng_draws := Suc (rng_draws s), client_keys := Some k, wallet_connect_uri := []\<rparr>"
    by blast
  have "keys_consistent k"
    using generate_secret_key_valid [OF gen] derive_client_keys_Inr [OF der]
    by (simp add: keys_consistent_def)
  then show ?thesis
    by (simp add: res ui_invariant_def)
qed

lemma ui_invariant_generate_wallet_connect_uri:
  assumes inv: "ui_invariant s"
  shows "ui_invariant (generate_wallet_connect_uri src s)"
proof -
  consider (keep) effs where "generate_wallet_connect_uri src s = s\<lparr>effects := effs\<rparr>"
    | (err) effs where "generate_wallet_connect_uri src s = s\<lparr>rng_draws := Suc (rng_draws s), effects := effs\<rparr>"
    | (ok) k bsk bpk where "client_keys s = Some k" "js_trim (relay s) \<noteq> []"
        "generate_secret_key src (rng_draws s) = Inr bsk" "get_public_key bsk = Inr bpk"
        "generate_wallet_connect_uri src s =
             s\<lparr>rng_draws := Suc (rng_draws s),
               wallet_connect_uri := build_wallet_connect_uri bpk (relay s) (ck_sk k)\<rparr>"
    using generate_wallet_connect_uri_cases [of src s] by blast
  then show ?thesis
  proof cases
    case ok
    have "uri_from_keys (build_wallet_connect_uri bpk (relay s) (ck_sk k)) k"
      using get_public_key_hex_text [OF ok(4)] ok(2) by (auto simp: uri_from_keys_def)
    with inv ok show ?thesis by (simp add: ui_invariant_def)
  qed (use inv in \<open>simp_all add: ui_invariant_def\<close>)
qed

lemma copy_to_clipboard_frame [simp]:
  "client_keys (copy_to_clipboard x ok s) = client_keys s"
  "wallet_connect_uri (copy_to_clipboard x ok s) = wallet_connect_uri s"
  "rng_draws (copy_to_clipboard x ok s) = rng_draws s"
  "relay (copy_to_clipboard x ok s) = relay s"
  "show_private (copy_to_clipboard x ok s) = show_private s"
  by (simp_all add: copy_to_clipboard_def Let_def log_effect_def)

lemma ui_invariant_step:
  assumes "ui_invariant s" and "ui_step src s e = Some t"
  shows "ui_invariant t"
proof (cases e)
  case ClickGenerateKeys
  with assms show ?thesis by (auto simp: ui_step_def intro: ui_invariant_generate_client_keys)
next
  case ClickGenerateUri
  with assms show ?thesis by (auto simp: ui_step_def intro: ui_invariant_generate_wallet_connect_uri)
next
  case (ClickCopy tgt ok)
  with assms show ?thesis
    by (auto simp: ui_step_def ui_invariant_def)
qed (use assms in \<open>auto simp: ui_step_def ui_invariant_def copy_timer_fires_def split: if_splits\<close>)

lemma reachable_ui_invariant: "reachable src s \<Longrightarrow> ui_invariant s"
proof (induction rule: reachable.induct)
  case init
  show ?case by (rule ui_invariant_initial)
next
  case (step s e t)
  then show ?case by (blast intro: ui_invariant_step)
qed

subsection \<open>The URI's query\<close>

lemma qmark_not_lower_hex: "list_all is_lower_hex_char t \<Longrightarrow> CHR ''?'' \<notin> set t"
  by (auto simp: list_all_iff is_lower_hex_char_def)

lemma build_wallet_connect_uri_unfold:
  "build_wallet_connect_uri bpk rly sk =
     ''nostr+walletconnect://'' @ bpk @ ''?relay='' @ form_urlencode rly @ ''&secret=''
       @ form_urlencode (u8array_to_string sk)"
  by (simp add: build_wallet_connect_uri_def usp_to_string_def usp_append_def usp_new_def)

lemma build_wallet_connect_uri_query:
  assumes "CHR ''?'' \<notin> set bpk"
  shows "url_query (build_wallet_connect_uri bpk rly sk)
           = Some (usp_to_string [(''relay'', rly), (''secret'', u8array_to_string sk)])
         \<and> form_parse (usp_to_string [(''relay'', rly), (''secret'', u8array_to_string sk)])
           = [(''relay'', rly), (''secret'', u8array_to_string sk)]"
proof
  let ?q = "usp_to_string [(''relay'', rly), (''secret'', u8array_to_string sk)]"
  have eq: "build_wallet_connect_uri bpk rly sk = (''nostr+walletconnect://'' @ bpk) @ ''?'' @ ?q"
    by (simp add: build_wallet_connect_uri_def usp_append_def usp_new_def)
  have p: "CHR ''?'' \<notin> set (''nostr+walletconnect://'' @ bpk)"
    using assms by simp
  have h: "CHR ''#'' \<notin> set ?q"
    by (rule hash_notin_usp_to_string)
  show "url_query (build_wallet_connect_uri bpk rly sk) = Some ?q"
    unfolding eq by (rule url_query_append [OF p h])
  show "form_parse ?q = [(''relay'', rly), (''secret'', u8array_to_string sk)]"
    by (rule form_parse_usp_to_string)
qed

lemma u8array_string_not_hex:
  assumes "2 \<le> length bs"
  shows "CHR '','' \<in> set (u8array_to_string bs) \<and> u8array_to_string bs \<noteq> bytes_to_hex bs"
proof -
  have "CHR '','' \<notin> set (bytes_to_hex bs)"
    using bytes_to_hex_lower [of bs] by (auto simp: list_all_iff is_lower_hex_char_def)
  then show ?thesis
    using comma_in_u8array_to_string [OF assms] by auto
qed

subsection \<open>Keys can be generated\<close>

lemma derive_client_keys_succeeds:
  assumes "get_public_key sk = Inr pk" and "length sk \<le> 3000"
  shows "\<exists>k. derive_client_keys sk = Inr k"
proof -
  obtain x where pk: "pk = bytes_to_hex (nat_to_bytes_be 32 (nat x))"
    using get_public_key_shape [OF assms(1)] by blast
  obtain npub where npub: "npub_encode pk = Inr npub"
    using npub_encode_hex_succeeds [of "nat_to_bytes_be 32 (nat x)"] pk by auto
  obtain nsec where nsec: "nsec_encode sk = Inr nsec"
    using nsec_encode_succeeds [OF assms(2)] by blast
  show ?thesis
    using assms(1) npub nsec by (simp add: derive_client_keys_def)
qed

lemma zero_source_generates_keys:
  assumes "\<forall>i. src i = Some (\<lambda>_. 0)"
  shows "\<exists>k. generate_client_keys src s = s\<lparr>rng_draws := Suc (rng_draws s), client_keys := Some k,
                                               wallet_connect_uri := []\<rparr>"
proof -
  have gen: "generate_secret_key src (rng_draws s) = Inr (nat_to_bytes_be 32 1)"
    using assms by (simp add: generate_secret_key_zero_source)
  obtain k where "derive_client_keys (nat_to_bytes_be 32 1) = Inr k"
    using derive_client_keys_succeeds [OF get_public_key_one] by auto
  with gen show ?thesis
    by (auto simp: generate_client_keys_def Let_def)
qed

lemma zero_source_generates_uri:
  assumes "\<forall>i. src i = Some (\<lambda>_. 0)" and "client_keys s = Some k" and "js_trim (relay s) \<noteq> []"
  shows "generate_wallet_connect_uri src s =
           s\<lparr>rng_draws := Suc (rng_draws s),
             wallet_connect_uri := build_wallet_connect_uri
                (bytes_to_hex (nat_to_bytes_be 32 (nat secp256k1_gx))) (relay s) (ck_sk k)\<rparr>"
  using assms by (simp add: generate_wallet_connect_uri_def Let_def generate_secret_key_zero_source
      get_public_key_one [simplified])

subsection \<open>Runs of events\<close>

lemma ui_run_append:
  "ui_run src s (xs @ ys) = (case ui_run src s xs of None \<Rightarrow> None | Some t \<Rightarrow> ui_run src t ys)"
  by (induction xs arbitrary: s) (auto split: option.splits)

lemma ui_run_reachable: "reachable src s \<Longrightarrow> ui_run src s es = Some t \<Longrightarrow> reachable src t"
  by (induction es arbitrary: s) (auto split: option.splits intro: reachable.step)

lemma reachable_ui_run: "reachable src s \<Longrightarrow> \<exists>es. ui_run src initial_state es = Some s"
proof (induction rule: reachable.induct)
  case init
  show ?case by (rule exI [of _ "[]"]) simp
next
  case (step s e t)
  then obtain es where "ui_run src initial_state es = Some s" by blast
  with step.hyps(2) have "ui_run src initial_state (es @ [e]) = Some t"
    by (simp add: ui_run_append)
  then show ?case by blast
qed

subsection \<open>What the invariant gives about reachable states\<close>

lemma reachable_keys_consistent:
  "reachable src s \<Longrightarrow> client_keys s = Some k \<Longrightarrow> keys_consistent k"
  using reachable_ui_invariant by (auto simp: ui_invariant_def)

lemma uri_from_keys_query:
  assumes "uri_from_keys u k"
  shows "\<exists>q rly. url_query u = Some q \<and> js_trim rly \<noteq> []
                 \<and> form_parse q = [(''relay'', rly), (''secret'', u8array_to_string (ck_sk k))]"
proof -
  obtain bpk rly where bpk: "list_all is_lower_hex_char bpk" and rly: "js_trim rly \<noteq> []"
    and u: "u = build_wallet_connect_uri bpk rly (ck_sk k)"
    using assms by (auto simp: uri_from_keys_def)
  show ?thesis
    using build_wallet_connect_uri_query [OF qmark_not_lower_hex [OF bpk], of rly "ck_sk k"] u rly
    by blast
qed

lemma keys_consistent_pk_hex:
  assumes "keys_consistent k"
  shows "\<exists>bs. hex_to_bytes (ck_pk k) = Inr bs \<and> bytes_to_hex bs = ck_pk k"
  using assms get_public_key_shape [of "ck_sk k" "ck_pk k"]
  by (auto simp: keys_consistent_def hex_to_bytes_bytes_to_hex)

lemma keys_consistent_decodes:
  assumes "keys_consistent k"
  shows "nip19_decode (ck_nsec k) = Inr (DecodedNsec (ck_sk k))
         \<and> nip19_decode (ck_npub k) = Inr (DecodedNpub (ck_pk k))"
proof -
  obtain bs where bs: "hex_to_bytes (ck_pk k) = Inr bs" "bytes_to_hex bs = ck_pk k"
    using keys_consistent_pk_hex [OF assms] by blast
  have "npub_encode (ck_pk k) = Inr (ck_npub k)" "nsec_encode (ck_sk k) = Inr (ck_nsec k)"
    using assms by (simp_all add: keys_consistent_def)
  then show ?thesis
    using npub_decode_of_encode [OF _ bs(1)] nsec_decode_of_encode bs(2) by simp
qed

lemma keys_consistent_prefixes:
  "keys_consistent k \<Longrightarrow> take 5 (ck_npub k) = ''npub1'' \<and> take 5 (ck_nsec k) = ''nsec1''"
  unfolding keys_consistent_def using npub_encode_prefix nsec_encode_prefix by blast

lemma nsec_not_lower_hex:
  assumes "take 5 x = ''nsec1''"
  shows "\<not> list_all is_lower_hex_char x"
proof
  assume "list_all is_lower_hex_char x"
  moreover have "x = CHR ''n'' # drop 1 x"
    using assms by (cases x) auto
  ultimately have "is_lower_hex_char (CHR ''n'')"
    by (metis list.pred_inject(2))
  then show False
    by (simp add: is_lower_hex_char_def)
qed

lemma ui_step_uri_other_events:
  assumes "ui_step src s e = Some t" and "e \<noteq> ClickGenerateUri"
  shows "wallet_connect_uri t = wallet_connect_uri s \<or> wallet_connect_uri t = []"
proof (cases e)
  case ClickGenerateKeys
  then show ?thesis
    using assms(1) generate_client_keys_cases [of src s] by (auto simp: ui_step_def log_effect_def)
qed (use assms in \<open>auto simp: ui_step_def copy_timer_fires_def split: if_splits\<close>)

lemma mask_text_prefix: "take 5 mask_text \<noteq> ''nsec1''"
proof -
  have "replicate 36 [CHR 0xE2, CHR 0x80, CHR 0xA2]
          = [CHR 0xE2, CHR 0x80, CHR 0xA2] # replicate 35 [CHR 0xE2, CHR 0x80, CHR 0xA2]"
    by (simp add: replicate_Suc [symmetric] del: replicate_Suc)
  then show ?thesis
    by (simp add: mask_text_def)
qed

lemma hidden_texts_exclude_nsec:
  assumes "keys_consistent k"
  shows "ck_nsec k \<notin> set [ck_pk k, ck_npub k, mask_text, mask_text]"
proof -
  have pre: "take 5 (ck_npub k) = ''npub1''" "take 5 (ck_nsec k) = ''nsec1''"
    using keys_consistent_prefixes [OF assms] by simp_all
  have "list_all is_lower_hex_char (ck_pk k)"
    using assms get_public_key_hex_text [of "ck_sk k" "ck_pk k"] by (simp add: keys_consistent_def)
  then have "ck_nsec k \<noteq> ck_pk k"
    using nsec_not_lower_hex [OF pre(2)] by auto
  moreover have "ck_nsec k \<noteq> ck_npub k"
    using pre by (auto dest: arg_cong [where f = "take 5"])
  moreover have "ck_nsec k \<noteq> mask_text"
    using pre(2) mask_text_prefix by auto
  ultimately show ?thesis by simp
qed

end
