(* ===== verification/Fixtures.thy ===== *)
theory Fixtures
  imports NostrKeyGen
begin

text \<open>
  Concrete inputs for the witnesses: a random source whose every draw is 48 zero bytes
  (so \<^verbatim>\<open>generateSecretKey\<close> returns the scalar 1 and \<^verbatim>\<open>getPublicKey\<close> the
  generator's x-coordinate, which the kernel checks without field inversions), a state
  with client keys and a relay, and the reachable states after generating keys and after
  generating a URI with that source.
\<close>

definition zero_source :: random_source where
  "zero_source = (\<lambda>_. Some (\<lambda>_. 0))"

definition generator_pk :: js_string where
  "generator_pk = bytes_to_hex (nat_to_bytes_be 32 (nat secp256k1_gx))"

definition sample_keys :: client_keys where
  "sample_keys = \<lparr>ck_sk = replicate 32 7, ck_pk = [], ck_npub = [], ck_nsec = []\<rparr>"

definition sample_state :: ui_state where
  "sample_state = initial_state\<lparr>client_keys := Some sample_keys, relay := ''wss://relay.example.com''\<rparr>"

definition keyed_state :: "client_keys \<Rightarrow> ui_state" where
  "keyed_state k = initial_state\<lparr>client_keys := Some k, rng_draws := 1\<rparr>"

definition uri_state :: "client_keys \<Rightarrow> ui_state" where
  "uri_state k = (keyed_state k)\<lparr>relay := ''wss://relay.example.com'', rng_draws := 2,
       wallet_connect_uri := build_wallet_connect_uri generator_pk ''wss://relay.example.com'' (ck_sk k)\<rparr>"

lemma zero_source_const: "\<forall>i. zero_source i = Some (\<lambda>_. 0)"
  by (simp add: zero_source_def)

lemma generator_pk_text: "length generator_pk = 64 \<and> list_all is_lower_hex_char generator_pk"
  unfolding generator_pk_def by (rule get_public_key_hex_text [OF get_public_key_one])

lemma sample_relay_not_blank: "js_trim ''wss://relay.example.com'' \<noteq> []"
  by (simp add: js_trim_empty_iff js_whitespace_def)

lemma zero_source_keyed_state:
  "\<exists>k. ui_step zero_source initial_state ClickGenerateKeys = Some (keyed_state k)
       \<and> reachable zero_source (keyed_state k) \<and> ck_sk k = nat_to_bytes_be 32 1"
proof -
  have gen: "generate_secret_key zero_source 0 = Inr (nat_to_bytes_be 32 1)"
    using zero_source_const by (simp add: generate_secret_key_zero_source)
  obtain k where k: "derive_client_keys (nat_to_bytes_be 32 1) = Inr k"
    using derive_client_keys_succeeds [OF get_public_key_one] by auto
  have st: "ui_step zero_source initial_state ClickGenerateKeys = Some (keyed_state k)"
    using gen k by (simp add: ui_step_def generate_client_keys_def keyed_state_def initial_state_def)
  have "reachable zero_source (keyed_state k)"
    by (rule reachable.step [OF reachable.init st])
  moreover have "ck_sk k = nat_to_bytes_be 32 1"
    using derive_client_keys_Inr [OF k] by simp
  ultimately show ?thesis
    using st by blast
qed

lemma zero_source_uri_state:
  "\<exists>k. reachable zero_source (uri_state k) \<and> client_keys (uri_state k) = Some k
       \<and> ck_sk k = nat_to_bytes_be 32 1"
proof -
  obtain k where r: "reachable zero_source (keyed_state k)" and sk: "ck_sk k = nat_to_bytes_be 32 1"
    using zero_source_keyed_state by blast
  let ?s1 = "(keyed_state k)\<lparr>relay := ''wss://relay.example.com''\<rparr>"
  have r1: "reachable zero_source ?s1"
    by (rule reachable.step [OF r, of "ChangeRelay ''wss://relay.example.com''"]) (simp add: ui_step_def)
  have "generate_wallet_connect_uri zero_source ?s1 = uri_state k"
    using zero_source_generates_uri [OF zero_source_const, of ?s1 k] sample_relay_not_blank
    by (simp add: uri_state_def keyed_state_def initial_state_def generator_pk_def)
  then have "ui_step zero_source ?s1 ClickGenerateUri = Some (uri_state k)"
    by (simp add: ui_step_def)
  then have "reachable zero_source (uri_state k)"
    by (rule reachable.step [OF r1])
  moreover have "client_keys (uri_state k) = Some k"
    by (simp add: uri_state_def keyed_state_def)
  ultimately show ?thesis
    using sk by blast
qed

end
