(* ===== verification/View.thy ===== *)
theory View
  imports NostrKeyGen
begin

text \<open>
  The element tree the component's JSX returns (\<^verbatim>\<open>src/NostrKeyGen.js\<close>, lines
  189--326), without styles: headings, labels, the key texts, the buttons with the control
  each one's \<^verbatim>\<open>onClick\<close> runs, the relay input, the URI box and the copy message.
  The explanatory paragraphs (lines 194--202, 264--271, 301--321) are constant prose and
  appear as \<open>InfoText\<close>. The theory lists the controls the tree renders in each state (a Copy
  button's text \<open>copy_text\<close> exists exactly where the button is rendered), shows that
  its key texts are
  \<open>rendered_key_texts\<close>, and that the copy message of a key copy is not shown while no
  URI exists.
\<close>

datatype control =
    CtlGenerateKeys
  | CtlToggleShow
  | CtlCopy copy_target
  | CtlRelayInput
  | CtlGenerateUri

datatype view_elem =
    Heading js_string
  | InfoText
  | FieldLabel js_string
  | KeyText js_string
  | Button js_string control
  | TextInput js_string js_string
  | UriBox js_string
  | Message js_string

text \<open>Lines 203--258: the key section, with the keys or with the single generate button.\<close>

definition render_keys :: "ui_state \<Rightarrow> view_elem list" where
  "render_keys s =
     (case client_keys s of
        Some keys \<Rightarrow>
          [FieldLabel ''Client Public Key (Hex):'', KeyText (ck_pk keys), Button ''Copy'' (CtlCopy CopyPk),
           FieldLabel ''Client Public Key (NIP-19):'', KeyText (ck_npub keys), Button ''Copy'' (CtlCopy CopyNpub),
           FieldLabel ''Client Private Key (Hex):'',
           KeyText (if show_private s then react_text_of_u8array (ck_sk keys) else mask_text),
           Button (if show_private s then ''Hide'' else ''Show'') CtlToggleShow,
           Button ''Copy'' (CtlCopy CopySk),
           FieldLabel ''Client Private Key (NIP-19):'',
           KeyText (if show_private s then ck_nsec keys else mask_text),
           Button ''Copy'' (CtlCopy CopyNsec),
           Button ''Regenerate Client Keys'' CtlGenerateKeys]
      | None \<Rightarrow> [Button ''Generate Your Client Nostr Keys'' CtlGenerateKeys])"

text \<open>Lines 287--323: the URI block, rendered only when \<^verbatim>\<open>walletConnectURI\<close> is not
  empty; the copy message is inside it (line 296).\<close>

definition render_uri :: "ui_state \<Rightarrow> view_elem list" where
  "render_uri s =
     (if wallet_connect_uri s \<noteq> [] then
        [Heading ''Generated URI'', UriBox (wallet_connect_uri s), Button ''Copy URI'' (CtlCopy CopyUri)]
        @ (if copy_message s \<noteq> [] then [Message (copy_message s)] else [])
        @ [InfoText]
      else [])"

definition render :: "ui_state \<Rightarrow> view_elem list" where
  "render s =
     [Heading ''Client Nostr Key Generator'', InfoText] @ render_keys s
     @ [Heading ''Buho Wallet Connect URI Generator'', InfoText, FieldLabel ''Relay URL (required):'',
        TextInput ''wss://relay.example.com'' (relay s), Button ''Generate URI'' CtlGenerateUri]
     @ render_uri s"

fun elem_control :: "view_elem \<Rightarrow> control option" where
  "elem_control (Button _ c) = Some c"
| "elem_control (TextInput _ _) = Some CtlRelayInput"
| "elem_control _ = None"

definition rendered_controls :: "ui_state \<Rightarrow> control list" where
  "rendered_controls s = List.map_filter elem_control (render s)"

fun elem_key_text :: "view_elem \<Rightarrow> js_string option" where
  "elem_key_text (KeyText t) = Some t"
| "elem_key_text _ = None"

text \<open>The control a user event comes from; the timer callback comes from no control.\<close>

fun control_of :: "ui_event \<Rightarrow> control option" where
  "control_of ClickGenerateKeys = Some CtlGenerateKeys"
| "control_of ClickToggleShow = Some CtlToggleShow"
| "control_of (ChangeRelay _) = Some CtlRelayInput"
| "control_of ClickGenerateUri = Some CtlGenerateUri"
| "control_of (ClickCopy t _) = Some (CtlCopy t)"
| "control_of CopyTimerFires = None"

subsection \<open>The rendered controls and texts\<close>

lemma rendered_controls_set:
  "set (rendered_controls s) =
     {CtlGenerateKeys, CtlRelayInput, CtlGenerateUri}
     \<union> (if client_keys s \<noteq> None
        then {CtlToggleShow, CtlCopy CopyPk, CtlCopy CopyNpub, CtlCopy CopySk, CtlCopy CopyNsec} else {})
     \<union> (if wallet_connect_uri s \<noteq> [] then {CtlCopy CopyUri} else {})"
  by (auto simp: rendered_controls_def render_def render_keys_def render_uri_def map_filter_simps
      split: option.splits)

lemma copy_text_enabled: "copy_text s t \<noteq> None \<longleftrightarrow> CtlCopy t \<in> set (rendered_controls s)"
  by (cases t) (auto simp: copy_text_def rendered_controls_set split: option.splits)

lemma render_key_texts: "List.map_filter elem_key_text (render s) = rendered_key_texts s"
  by (simp add: render_def render_keys_def render_uri_def rendered_key_texts_def map_filter_simps
      split: option.splits)

lemma message_not_rendered_without_uri:
  "wallet_connect_uri s = [] \<Longrightarrow> Message m \<notin> set (render s)"
  by (auto simp: render_def render_keys_def render_uri_def split: option.splits)

lemma message_rendered_with_uri:
  "wallet_connect_uri s \<noteq> [] \<Longrightarrow> copy_message s \<noteq> [] \<Longrightarrow> Message (copy_message s) \<in> set (render s)"
  by (simp add: render_def render_uri_def)

subsection \<open>Properties of the view\<close>

text \<open>
  C19: copying a key while no connection URI exists sets the message
  \<^verbatim>\<open>Copied to clipboard!\<close>, but the view renders no message: the message element sits
  inside the URI block, so the copy feedback of the key buttons is invisible.
\<close>

theorem copy_feedback_hidden_without_uri:
  assumes "client_keys s = Some k" and "wallet_connect_uri s = []" and "tgt \<noteq> CopyUri"
  shows "\<exists>t. ui_step src s (ClickCopy tgt True) = Some t \<and> copy_message t = ''Copied to clipboard!''
             \<and> (\<forall>m. Message m \<notin> set (render t))"
proof -
  obtain x where x: "copy_text s tgt = Some x"
    using assms(1,3) by (cases tgt) (simp_all add: copy_text_def)
  let ?t = "copy_to_clipboard x True s"
  have "ui_step src s (ClickCopy tgt True) = Some ?t"
    using x by (simp add: ui_step_def)
  moreover have "copy_message ?t = ''Copied to clipboard!''"
    by (simp add: copy_to_clipboard_def Let_def)
  moreover have "\<forall>m. Message m \<notin> set (render ?t)"
    using assms(2) message_not_rendered_without_uri [of ?t] by simp
  ultimately show ?thesis
    by blast
qed

theorem copy_feedback_hidden_without_uri_witness:
  "\<exists>t. ui_step (\<lambda>_. None) (initial_state\<lparr>client_keys := Some \<lparr>ck_sk = [], ck_pk = [], ck_npub = [], ck_nsec = []\<rparr>\<rparr>)
         (ClickCopy CopyPk True) = Some t
       \<and> copy_message t = ''Copied to clipboard!'' \<and> (\<forall>m. Message m \<notin> set (render t))"
  by (rule copy_feedback_hidden_without_uri) (simp_all add: initial_state_def)

end
