(* ===== verification/Refinement.thy ===== *)
theory Refinement
  imports Fixtures
begin

text \<open>
  An abstract specification of what the component promises, after the spec's key store
  and connection-URI capability: the abstract state is the stored client secret and the
  connection the URI grants (service public key, relay, client secret). Generating keys
  stores a valid secret and revokes the connection; generating a URI grants a
  connection for the stored secret with a 64-digit hex service key and a relay that is
  not blank; every other event changes nothing. The concrete state is mapped to the
  abstract one by \<open>abs_of\<close>, which reads the connection back from the URI text the
  way a wallet parses it (\<open>uri_decode\<close>: scheme, authority up to \<^verbatim>\<open>?\<close>, the
  form-urlencoded query, the \<^verbatim>\<open>secret\<close> value as \<^verbatim>\<open>String(Uint8Array)\<close> text).
  The refinement lemma shows that every step of \<open>ui_step\<close> is an abstract step of the
  image states under an event map, so every reachable state maps to a reachable abstract
  state and inherits the abstract invariant.
\<close>

record abs_state =
  a_keys :: "bytes option"
  a_uri :: "(js_string \<times> js_string \<times> bytes) option"

datatype abs_event = AGenKeys bytes | AGenUri js_string js_string | ASkip

definition valid_secret :: "bytes \<Rightarrow> bool" where
  "valid_secret sk \<longleftrightarrow> length sk = 32 \<and> 1 \<le> be_to_nat sk \<and> be_to_nat sk < secp256k1_n"

definition abs_init :: abs_state where
  "abs_init = \<lparr>a_keys = None, a_uri = None\<rparr>"

inductive abs_step :: "abs_state \<Rightarrow> abs_event \<Rightarrow> abs_state \<Rightarrow> bool" where
  skip: "abs_step a ASkip a"
| gen_keys: "valid_secret sk \<Longrightarrow> abs_step a (AGenKeys sk) (a\<lparr>a_keys := Some sk, a_uri := None\<rparr>)"
| gen_uri: "a_keys a = Some sk \<Longrightarrow> js_trim r \<noteq> [] \<Longrightarrow> length pk = 64 \<Longrightarrow> list_all is_lower_hex_char pk
            \<Longrightarrow> abs_step a (AGenUri pk r) (a\<lparr>a_uri := Some (pk, r, sk)\<rparr>)"

inductive abs_reachable :: "abs_state \<Rightarrow> bool" where
  init: "abs_reachable abs_init"
| step: "abs_reachable a \<Longrightarrow> abs_step a ev b \<Longrightarrow> abs_reachable b"

definition nwc_scheme :: js_string where
  "nwc_scheme = ''nostr+walletconnect://''"

definition uri_decode :: "js_string \<Rightarrow> (js_string \<times> js_string \<times> bytes) option" where
  "uri_decode u =
     (if take 22 u \<noteq> nwc_scheme then None
      else case url_query u of
        None \<Rightarrow> None
      | Some q \<Rightarrow>
          (case form_parse q of
             [(n1, r), (n2, x)] \<Rightarrow>
               if n1 = ''relay'' \<and> n2 = ''secret''
               then map_option (\<lambda>sk. (takeWhile (\<lambda>c. c \<noteq> CHR ''?'') (drop 22 u), r, sk))
                      (parse_u8array_string x)
               else None
           | _ \<Rightarrow> None))"

definition abs_of :: "ui_state \<Rightarrow> abs_state" where
  "abs_of s = \<lparr>a_keys = map_option ck_sk (client_keys s), a_uri = uri_decode (wallet_connect_uri s)\<rparr>"

definition abs_event_of :: "ui_event \<Rightarrow> abs_state \<Rightarrow> abs_state \<Rightarrow> abs_event" where
  "abs_event_of e a a' =
     (if a' = a then ASkip
      else case e of
        ClickGenerateKeys \<Rightarrow> (case a_keys a' of Some sk \<Rightarrow> AGenKeys sk | None \<Rightarrow> ASkip)
      | ClickGenerateUri \<Rightarrow> (case a_uri a' of Some (pk, r, _) \<Rightarrow> AGenUri pk r | None \<Rightarrow> ASkip)
      | _ \<Rightarrow> ASkip)"

subsection \<open>Reading the URI back\<close>

lemma uri_decode_Nil [simp]: "uri_decode [] = None"
  by (simp add: uri_decode_def nwc_scheme_def)

lemma uri_decode_build:
  assumes "CHR ''?'' \<notin> set bpk"
  shows "uri_decode (build_wallet_connect_uri bpk rly sk) = Some (bpk, rly, sk)"
proof -
  let ?q = "usp_to_string [(''relay'', rly), (''secret'', u8array_to_string sk)]"
  have eq: "build_wallet_connect_uri bpk rly sk = nwc_scheme @ bpk @ ''?'' @ ?q"
    by (simp add: build_wallet_connect_uri_def usp_append_def usp_new_def nwc_scheme_def)
  have len: "length nwc_scheme = 22"
    by (simp add: nwc_scheme_def)
  have tw: "takeWhile (\<lambda>c. c \<noteq> CHR ''?'') (bpk @ CHR ''?'' # ?q) = bpk"
    using assms by (subst takeWhile_append2) auto
  show ?thesis
    using build_wallet_connect_uri_query [OF assms, of rly sk]
    unfolding uri_decode_def eq
    by (simp add: len tw parse_u8array_string_roundtrip)
qed

lemma abs_of_initial: "abs_of initial_state = abs_init"
  by (simp add: abs_of_def initial_state_def abs_init_def)

lemma abs_of_frame:
  "client_keys t = client_keys s \<Longrightarrow> wallet_connect_uri t = wallet_connect_uri s \<Longrightarrow> abs_of t = abs_of s"
  by (simp add: abs_of_def)

lemma abs_step_same: "abs_step a (abs_event_of e a a) a"
  by (simp add: abs_event_of_def abs_step.skip)

lemma abs_step_stutter: "abs_of t = abs_of s \<Longrightarrow> abs_step (abs_of s) (abs_event_of e (abs_of s) (abs_of t)) (abs_of t)"
  by (simp add: abs_step_same)

subsection \<open>Each handler is an abstract step\<close>

lemma generate_client_keys_abs_step:
  "abs_step (abs_of s) (abs_event_of ClickGenerateKeys (abs_of s) (abs_of (generate_client_keys src s)))
     (abs_of (generate_client_keys src s))"
proof -
  consider (err) effs where "generate_client_keys src s = s\<lparr>rng_draws := Suc (rng_draws s), effects := effs\<rparr>"
    | (ok) sk k where "generate_secret_key src (rng_draws s) = Inr sk" "derive_client_keys sk = Inr k"
        "generate_client_keys src s = s\<lparr>rng_draws := Suc (rng_draws s), client_keys := Some k, wallet_connect_uri := []\<rparr>"
    using generate_client_keys_cases [of src s] by blast
  then show ?thesis
  proof cases
    case err
    then show ?thesis
      by (intro abs_step_stutter) (simp add: abs_of_def)
  next
    case ok
    have v: "valid_secret (ck_sk k)"
      using generate_secret_key_valid [OF ok(1)] derive_client_keys_Inr [OF ok(2)] by (simp add: valid_secret_def)
    have a': "abs_of (generate_client_keys src s) = (abs_of s)\<lparr>a_keys := Some (ck_sk k), a_uri := None\<rparr>"
      using ok(3) by (simp add: abs_of_def)
    show ?thesis
    proof (cases "abs_of (generate_client_keys src s) = abs_of s")
      case True
      then show ?thesis by (rule abs_step_stutter)
    next
      case False
      then have ev: "abs_event_of ClickGenerateKeys (abs_of s) (abs_of (generate_client_keys src s)) = AGenKeys (ck_sk k)"
        using a' by (simp add: abs_event_of_def)
      show ?thesis
        by (subst ev, subst a') (rule abs_step.gen_keys [OF v])
    qed
  qed
qed

lemma generate_wallet_connect_uri_abs_step:
  "abs_step (abs_of s) (abs_event_of ClickGenerateUri (abs_of s) (abs_of (generate_wallet_connect_uri src s)))
     (abs_of (generate_wallet_connect_uri src s))"
proof -
  consider (same) "abs_of (generate_wallet_connect_uri src s) = abs_of s"
    | (ok) k bsk bpk where "client_keys s = Some k" "js_trim (relay s) \<noteq> []"
        "get_public_key bsk = Inr bpk"
        "generate_wallet_connect_uri src s =
             s\<lparr>rng_draws := Suc (rng_draws s),
               wallet_connect_uri := build_wallet_connect_uri bpk (relay s) (ck_sk k)\<rparr>"
    using generate_wallet_connect_uri_cases [of src s] by (auto simp: abs_of_def log_effect_def)
  then show ?thesis
  proof cases
    case same
    then show ?thesis by (rule abs_step_stutter)
  next
    case ok
    have hex: "length bpk = 64" "list_all is_lower_hex_char bpk"
      using get_public_key_hex_text [OF ok(3)] by simp_all
    have a': "abs_of (generate_wallet_connect_uri src s) = (abs_of s)\<lparr>a_uri := Some (bpk, relay s, ck_sk k)\<rparr>"
      using ok(4) uri_decode_build [OF qmark_not_lower_hex [OF hex(2)]] by (simp add: abs_of_def)
    have keys: "a_keys (abs_of s) = Some (ck_sk k)"
      using ok(1) by (simp add: abs_of_def)
    show ?thesis
    proof (cases "abs_of (generate_wallet_connect_uri src s) = abs_of s")
      case True
      then show ?thesis by (rule abs_step_stutter)
    next
      case False
      then have ev: "abs_event_of ClickGenerateUri (abs_of s) (abs_of (generate_wallet_connect_uri src s))
                       = AGenUri bpk (relay s)"
        using a' by (simp add: abs_event_of_def)
      show ?thesis
        by (subst ev, subst a') (rule abs_step.gen_uri [OF keys ok(2) hex])
    qed
  qed
qed

lemma abs_reachable_uri:
  "abs_reachable a \<Longrightarrow> a_uri a = Some (pk, r, sk) \<Longrightarrow> a_keys a = Some sk \<and> js_trim r \<noteq> []"
proof (induction arbitrary: pk r sk rule: abs_reachable.induct)
  case init
  then show ?case by (simp add: abs_init_def)
next
  case (step a ev b)
  from step.hyps(2) step.prems step.IH show ?case
    by (cases rule: abs_step.cases) auto
qed

lemma ui_step_abs_frame:
  assumes "ui_step src s e = Some t" and "e \<noteq> ClickGenerateKeys" and "e \<noteq> ClickGenerateUri"
  shows "abs_of t = abs_of s"
  using assms
  by (cases e) (auto simp: ui_step_def copy_timer_fires_def abs_of_def split: if_splits)

lemma ui_step_abs_step:
  assumes "ui_step src s e = Some t"
  shows "abs_step (abs_of s) (abs_event_of e (abs_of s) (abs_of t)) (abs_of t)"
proof (cases "e = ClickGenerateKeys \<or> e = ClickGenerateUri")
  case True
  with assms show ?thesis
    using generate_client_keys_abs_step generate_wallet_connect_uri_abs_step
    by (auto simp: ui_step_def)
next
  case False
  with assms show ?thesis
    by (intro abs_step_stutter ui_step_abs_frame) auto
qed

lemma reachable_abs_reachable: "reachable src s \<Longrightarrow> abs_reachable (abs_of s)"
proof (induction rule: reachable.induct)
  case init
  show ?case by (simp add: abs_of_initial abs_reachable.init)
next
  case (step s e t)
  then show ?case
    using ui_step_abs_step [OF step.hyps(2)] by (blast intro: abs_reachable.step)
qed

subsection \<open>Refinement\<close>

text \<open>
  C20: \<open>abs_of\<close> is a refinement mapping from the component to the abstract
  specification: the initial state maps to the abstract initial state, and every step
  of \<open>ui_step\<close> maps to an abstract step (generating keys stores a valid secret and
  revokes the connection, generating a URI grants a connection for the stored secret,
  everything else stutters), under the event map \<open>abs_event_of\<close>.
\<close>

theorem ui_step_refines_abs_spec:
  "abs_of initial_state = abs_init
   \<and> (ui_step src s e = Some t \<longrightarrow> abs_step (abs_of s) (abs_event_of e (abs_of s) (abs_of t)) (abs_of t))"
  using abs_of_initial ui_step_abs_step by blast

theorem ui_step_refines_abs_spec_witness:
  "abs_of initial_state = abs_init
   \<and> ui_step (\<lambda>_. None) initial_state (ChangeRelay ''wss://r'') = Some (initial_state\<lparr>relay := ''wss://r''\<rparr>)
   \<and> abs_step (abs_of initial_state)
       (abs_event_of (ChangeRelay ''wss://r'') (abs_of initial_state) (abs_of (initial_state\<lparr>relay := ''wss://r''\<rparr>)))
       (abs_of (initial_state\<lparr>relay := ''wss://r''\<rparr>))"
proof -
  have st: "ui_step (\<lambda>_. None) initial_state (ChangeRelay ''wss://r'') = Some (initial_state\<lparr>relay := ''wss://r''\<rparr>)"
    by (simp add: ui_step_def)
  show ?thesis
    using ui_step_refines_abs_spec [of "\<lambda>_. None" initial_state "ChangeRelay ''wss://r''"] st by blast
qed

end
