(* ===== verification/UriShape.thy ===== *)
theory UriShape
  imports Fixtures
begin

text \<open>
  Bounds and the character set of what the component produces. Each event consumes at
  most one random draw, and only the two generate buttons consume one. The URI that
  \<^verbatim>\<open>generateWalletConnectURI\<close> stores has a length fixed up to the relay's encoding:
  the scheme (22 characters), the 64-digit service key, \<^verbatim>\<open>?relay=\<close> and
  \<^verbatim>\<open>&secret=\<close> (15), the encoded relay (one to three characters per relay character)
  and the encoded secret, whose 32 decimal numbers of one to three digits are joined by
  \<^verbatim>\<open>%2C\<close> (125 to 189 characters). All its characters are printable ASCII and it has
  no fragment.
\<close>

definition url_char :: "char \<Rightarrow> bool" where
  "url_char c \<longleftrightarrow> 33 \<le> (of_char c :: nat) \<and> (of_char c :: nat) \<le> 126"

fun draws_of :: "ui_event \<Rightarrow> nat" where
  "draws_of ClickGenerateKeys = 1"
| "draws_of ClickGenerateUri = 1"
| "draws_of _ = 0"

subsection \<open>Random draws per event\<close>

lemma rng_draws_generate_client_keys: "rng_draws (generate_client_keys src s) = Suc (rng_draws s)"
  by (simp add: generate_client_keys_def Let_def log_effect_def split: sum.splits)

lemma rng_draws_generate_wallet_connect_uri:
  "rng_draws s \<le> rng_draws (generate_wallet_connect_uri src s)
   \<and> rng_draws (generate_wallet_connect_uri src s) \<le> Suc (rng_draws s)"
  by (simp add: generate_wallet_connect_uri_def Let_def log_effect_def split: option.splits sum.splits)

lemma ui_step_rng_draws:
  assumes "ui_step src s e = Some t"
  shows "rng_draws s \<le> rng_draws t \<and> rng_draws t \<le> rng_draws s + draws_of e"
  using assms rng_draws_generate_client_keys rng_draws_generate_wallet_connect_uri
  by (cases e) (auto simp: ui_step_def copy_timer_fires_def split: if_splits)

subsection \<open>Lengths of the encoded parts\<close>

lemma length_nat_to_decimal_step:
  "length (nat_to_decimal n) = (if n < 10 then 1 else Suc (length (nat_to_decimal (n div 10))))"
  by (subst nat_to_decimal_unfold) simp

lemma length_nat_to_decimal_byte:
  assumes "n < 256"
  shows "1 \<le> length (nat_to_decimal n) \<and> length (nat_to_decimal n) \<le> 3"
proof -
  have "n div 10 div 10 < 10"
    using assms by simp
  then show ?thesis
    by (simp add: length_nat_to_decimal_step [of n] length_nat_to_decimal_step [of "n div 10"]
        length_nat_to_decimal_step [of "n div 10 div 10"])
qed

lemma form_urlencode_Nil [simp]: "form_urlencode [] = []"
  by (simp add: form_urlencode_def)

lemma form_urlencode_append [simp]: "form_urlencode (xs @ ys) = form_urlencode xs @ form_urlencode ys"
  by (simp add: form_urlencode_def)

lemma form_urlencode_Cons: "form_urlencode (c # xs) = form_urlencode_char c @ form_urlencode xs"
  by (simp add: form_urlencode_def)

lemma length_form_urlencode_char: "1 \<le> length (form_urlencode_char c) \<and> length (form_urlencode_char c) \<le> 3"
  by (simp add: form_urlencode_char_def percent_encode_byte_def)

lemma length_form_urlencode:
  "length xs \<le> length (form_urlencode xs) \<and> length (form_urlencode xs) \<le> 3 * length xs"
proof (induction xs)
  case Nil
  show ?case by (simp add: form_urlencode_def)
next
  case (Cons c xs)
  then show ?case
    using length_form_urlencode_char [of c] by (simp add: form_urlencode_Cons)
qed

lemma decimal_char_safe: "is_decimal_char c \<Longrightarrow> form_urlencoded_safe c"
  by (simp add: is_decimal_char_def form_urlencoded_safe_def)

lemma form_urlencode_decimal [simp]: "form_urlencode (nat_to_decimal n) = nat_to_decimal n"
  using nat_to_decimal_digits [of n]
  by (intro form_urlencode_safe_id) (simp add: list_all_iff decimal_char_safe)

lemma length_form_urlencode_comma_Cons [simp]:
  "length (form_urlencode (CHR '','' # xs)) = 3 + length (form_urlencode xs)"
  by (simp add: form_urlencode_Cons form_urlencode_char_def form_urlencoded_safe_def percent_encode_byte_def)

lemma length_form_urlencode_join_decimals:
  "ds \<noteq> [] \<Longrightarrow>
   length (form_urlencode (js_join '','' (map nat_to_decimal ds)))
     = sum_list (map (\<lambda>n. length (nat_to_decimal n)) ds) + 3 * (length ds - 1)"
proof (induction ds rule: induct_list012)
  case (3 x y zs)
  then show ?case by simp
qed simp_all

lemma sum_list_bounds:
  assumes "\<forall>x \<in> set xs. a \<le> f x \<and> f x \<le> (b :: nat)"
  shows "a * length xs \<le> sum_list (map f xs) \<and> sum_list (map f xs) \<le> b * length xs"
  using assms by (induction xs) auto

lemma length_secret_param:
  assumes "length sk = 32"
  shows "125 \<le> length (form_urlencode (u8array_to_string sk))
         \<and> length (form_urlencode (u8array_to_string sk)) \<le> 189"
proof -
  let ?ns = "map unat sk"
  have u: "u8array_to_string sk = js_join '','' (map nat_to_decimal ?ns)"
    by (simp add: u8array_to_string_def comp_def)
  have ne: "?ns \<noteq> []" and len: "length ?ns = 32"
    using assms by auto
  have "\<forall>n \<in> set ?ns. 1 \<le> length (nat_to_decimal n) \<and> length (nat_to_decimal n) \<le> 3"
    using length_nat_to_decimal_byte unat_byte_less by auto
  from sum_list_bounds [OF this] len
  have "32 \<le> sum_list (map (\<lambda>n. length (nat_to_decimal n)) ?ns)
        \<and> sum_list (map (\<lambda>n. length (nat_to_decimal n)) ?ns) \<le> 96"
    by simp
  then show ?thesis
    unfolding u length_form_urlencode_join_decimals [OF ne] len by simp
qed

lemma length_build_wallet_connect_uri:
  "length (build_wallet_connect_uri bpk rly sk)
     = 37 + length bpk + length (form_urlencode rly) + length (form_urlencode (u8array_to_string sk))"
  by (simp add: build_wallet_connect_uri_unfold)

subsection \<open>Characters of the URI\<close>

lemma url_char_form_urlencode_char: "list_all url_char (form_urlencode_char c)"
proof -
  have "d < 16 \<Longrightarrow> url_char (hex_digit_upper d)" for d
    using hex_digit_upper_range [of d] by (auto simp: url_char_def)
  then show ?thesis
    by (auto simp: form_urlencode_char_def form_urlencoded_safe_def percent_encode_byte_def
        url_char_def Let_def)
qed

lemma url_char_form_urlencode: "list_all url_char (form_urlencode xs)"
  using url_char_form_urlencode_char by (induction xs) (simp_all add: form_urlencode_Cons)

lemma url_char_lower_hex: "list_all is_lower_hex_char t \<Longrightarrow> list_all url_char t"
  by (auto simp: list_all_iff is_lower_hex_char_def url_char_def)

lemma url_char_build_wallet_connect_uri:
  assumes "list_all is_lower_hex_char bpk"
  shows "list_all url_char (build_wallet_connect_uri bpk rly sk)"
  using url_char_lower_hex [OF assms] url_char_form_urlencode [of rly]
    url_char_form_urlencode [of "u8array_to_string sk"]
  by (simp add: build_wallet_connect_uri_unfold url_char_def)

lemma hash_notin_build_wallet_connect_uri:
  assumes "list_all is_lower_hex_char bpk"
  shows "CHR ''#'' \<notin> set (build_wallet_connect_uri bpk rly sk)"
proof -
  have "CHR ''#'' \<notin> set bpk"
    using assms by (auto simp: list_all_iff is_lower_hex_char_def)
  then show ?thesis
    by (simp add: build_wallet_connect_uri_unfold)
qed

lemma reachable_uri_parts:
  assumes "reachable src s" and "wallet_connect_uri s \<noteq> []"
  obtains k bpk rly where "client_keys s = Some k" and "length (ck_sk k) = 32"
    and "length bpk = 64" and "list_all is_lower_hex_char bpk" and "js_trim rly \<noteq> []"
    and "wallet_connect_uri s = build_wallet_connect_uri bpk rly (ck_sk k)"
proof -
  obtain k where k: "client_keys s = Some k" and u: "uri_from_keys (wallet_connect_uri s) k"
    using reachable_ui_invariant [OF assms(1)] assms(2) by (auto simp: ui_invariant_def)
  have "length (ck_sk k) = 32"
    using reachable_keys_consistent [OF assms(1) k] by (simp add: keys_consistent_def)
  with k u that show ?thesis
    by (auto simp: uri_from_keys_def)
qed

subsection \<open>Properties\<close>

text \<open>
  C21: along any run of events, the counter of random draws never decreases and grows by
  at most one per click on \<^verbatim>\<open>Generate\<close> or \<^verbatim>\<open>Generate URI\<close>; no other event
  draws randomness.
\<close>

theorem ui_run_rng_draws_bounds:
  assumes "ui_run src s es = Some t"
  shows "rng_draws s \<le> rng_draws t \<and> rng_draws t \<le> rng_draws s + sum_list (map draws_of es)"
  using assms
proof (induction es arbitrary: s)
  case Nil
  then show ?case by simp
next
  case (Cons e es)
  then obtain s' where s': "ui_step src s e = Some s'" and run: "ui_run src s' es = Some t"
    by (auto split: option.splits)
  show ?case
    using ui_step_rng_draws [OF s'] Cons.IH [OF run] by simp
qed

theorem ui_run_rng_draws_bounds_witness:
  "\<exists>t. ui_run (\<lambda>_. None) initial_state [ClickGenerateKeys, ChangeRelay ''wss://r'', ClickGenerateUri] = Some t
       \<and> rng_draws initial_state \<le> rng_draws t
       \<and> rng_draws t \<le> rng_draws initial_state
                        + sum_list (map draws_of [ClickGenerateKeys, ChangeRelay ''wss://r'', ClickGenerateUri])"
proof -
  obtain t where t: "ui_run (\<lambda>_. None) initial_state [ClickGenerateKeys, ChangeRelay ''wss://r'', ClickGenerateUri]
                       = Some t"
    by (simp add: ui_step_def)
  show ?thesis
    using t ui_run_rng_draws_bounds [OF t] by blast
qed

text \<open>
  C22: a non-empty URI of a reachable state parses back to its relay and secret
  parameters, and its length is 226 characters plus one to three per character of that
  relay: at least \<open>226 + |relay|\<close> and at most \<open>290 + 3|relay|\<close> (the 64-digit
  service key, the fixed text, and the percent-encoded decimal secret of 125 to 189
  characters).
\<close>

theorem reachable_uri_length_bounds:
  assumes "reachable src s" and "wallet_connect_uri s \<noteq> []"
  shows "\<exists>q rly sec. url_query (wallet_connect_uri s) = Some q
           \<and> form_parse q = [(''relay'', rly), (''secret'', sec)] \<and> js_trim rly \<noteq> []
           \<and> 226 + length rly \<le> length (wallet_connect_uri s)
           \<and> length (wallet_connect_uri s) \<le> 290 + 3 * length rly"
proof -
  obtain k bpk rly where parts: "client_keys s = Some k" "length (ck_sk k) = 32" "length bpk = 64"
    "list_all is_lower_hex_char bpk" "js_trim rly \<noteq> []"
    "wallet_connect_uri s = build_wallet_connect_uri bpk rly (ck_sk k)"
    by (rule reachable_uri_parts [OF assms])
  have "CHR ''?'' \<notin> set bpk"
    using parts(4) by (rule qmark_not_lower_hex)
  then have q: "url_query (wallet_connect_uri s)
      = Some (usp_to_string [(''relay'', rly), (''secret'', u8array_to_string (ck_sk k))])
    \<and> form_parse (usp_to_string [(''relay'', rly), (''secret'', u8array_to_string (ck_sk k))])
      = [(''relay'', rly), (''secret'', u8array_to_string (ck_sk k))]"
    using parts(6) build_wallet_connect_uri_query by simp
  have "226 + length rly \<le> length (wallet_connect_uri s)
        \<and> length (wallet_connect_uri s) \<le> 290 + 3 * length rly"
    using parts length_secret_param [of "ck_sk k"] length_form_urlencode [of rly]
    by (auto simp: length_build_wallet_connect_uri)
  then show ?thesis
    using q parts(5) by blast
qed

theorem reachable_uri_length_bounds_witness:
  "\<exists>s. reachable zero_source s \<and> wallet_connect_uri s \<noteq> []
       \<and> (\<exists>q rly sec. url_query (wallet_connect_uri s) = Some q
           \<and> form_parse q = [(''relay'', rly), (''secret'', sec)] \<and> js_trim rly \<noteq> []
           \<and> 226 + length rly \<le> length (wallet_connect_uri s)
           \<and> length (wallet_connect_uri s) \<le> 290 + 3 * length rly)"
proof -
  obtain k where r: "reachable zero_source (uri_state k)"
    using zero_source_uri_state by blast
  have ne: "wallet_connect_uri (uri_state k) \<noteq> []"
    by (simp add: uri_state_def build_wallet_connect_uri_unfold)
  show ?thesis
    using r ne reachable_uri_length_bounds [OF r ne] by blast
qed

text \<open>
  C23: in every reachable state the URI consists of printable ASCII characters only (no
  space, no control or non-ASCII byte: the relay's are percent-encoded) and contains no
  \<^verbatim>\<open>#\<close>, so a URL parser sees no fragment.
\<close>

theorem reachable_uri_printable:
  assumes "reachable src s"
  shows "list_all url_char (wallet_connect_uri s) \<and> CHR ''#'' \<notin> set (wallet_connect_uri s)"
proof (cases "wallet_connect_uri s = []")
  case False
  obtain k bpk rly where parts: "client_keys s = Some k" "length (ck_sk k) = 32" "length bpk = 64"
    "list_all is_lower_hex_char bpk" "js_trim rly \<noteq> []"
    "wallet_connect_uri s = build_wallet_connect_uri bpk rly (ck_sk k)"
    by (rule reachable_uri_parts [OF assms False])
  then show ?thesis
    using url_char_build_wallet_connect_uri hash_notin_build_wallet_connect_uri by simp
qed simp

theorem reachable_uri_printable_witness:
  "\<exists>s. reachable zero_source s \<and> wallet_connect_uri s \<noteq> []
       \<and> list_all url_char (wallet_connect_uri s) \<and> CHR ''#'' \<notin> set (wallet_connect_uri s)"
proof -
  obtain k where r: "reachable zero_source (uri_state k)"
    using zero_source_uri_state by blast
  have ne: "wallet_connect_uri (uri_state k) \<noteq> []"
    by (simp add: uri_state_def build_wallet_connect_uri_unfold)
  show ?thesis
    using r ne reachable_uri_printable [OF r] by blast
qed

end
