(* ===== verification/Timers.thy ===== *)
theory Timers
  imports Fixtures
begin

text \<open>
  The copy message and the \<^verbatim>\<open>setTimeout\<close> callbacks of \<^verbatim>\<open>copyToClipboard\<close>
  (lines 178--187). Every copy schedules one callback; every callback clears the message.
  In every reachable state a visible message has a pending callback, so running the
  pending callbacks always clears it: the message cannot stay on screen. The model counts
  pending callbacks and lets any of them fire; the order among them does not matter here,
  since each one only clears the message.
\<close>

definition message_has_timer :: "ui_state \<Rightarrow> bool" where
  "message_has_timer s \<longleftrightarrow> (copy_message s \<noteq> [] \<longrightarrow> 0 < pending_timers s)"

lemma copy_message_generate_client_keys [simp]:
  "copy_message (generate_client_keys src s) = copy_message s"
  "pending_timers (generate_client_keys src s) = pending_timers s"
  by (simp_all add: generate_client_keys_def Let_def log_effect_def split: sum.splits)

lemma copy_message_generate_wallet_connect_uri [simp]:
  "copy_message (generate_wallet_connect_uri src s) = copy_message s"
  "pending_timers (generate_wallet_connect_uri src s) = pending_timers s"
  by (simp_all add: generate_wallet_connect_uri_def Let_def log_effect_def split: option.splits sum.splits)

lemma message_has_timer_step:
  assumes "message_has_timer s" and "ui_step src s e = Some t"
  shows "message_has_timer t"
  using assms
  by (cases e) (auto simp: ui_step_def message_has_timer_def copy_to_clipboard_def Let_def
      copy_timer_fires_def log_effect_def split: if_splits)

lemma reachable_message_has_timer: "reachable src s \<Longrightarrow> message_has_timer s"
proof (induction rule: reachable.induct)
  case init
  show ?case by (simp add: message_has_timer_def initial_state_def)
next
  case (step s e t)
  show ?case by (rule message_has_timer_step [OF step.IH step.hyps(2)])
qed

lemma ui_run_timers:
  assumes "pending_timers s = n"
  shows "\<exists>t. ui_run src s (replicate n CopyTimerFires) = Some t \<and> pending_timers t = 0
             \<and> (0 < n \<longrightarrow> copy_message t = [])
             \<and> client_keys t = client_keys s \<and> wallet_connect_uri t = wallet_connect_uri s
             \<and> clipboard t = clipboard s"
  using assms
proof (induction n arbitrary: s)
  case 0
  then show ?case by simp
next
  case (Suc n)
  let ?s' = "copy_timer_fires s"
  have step: "ui_step src s CopyTimerFires = Some ?s'"
    using Suc.prems by (simp add: ui_step_def)
  have "pending_timers ?s' = n"
    using Suc.prems by (simp add: copy_timer_fires_def)
  then obtain t where t: "ui_run src ?s' (replicate n CopyTimerFires) = Some t" "pending_timers t = 0"
    "0 < n \<longrightarrow> copy_message t = []" "client_keys t = client_keys ?s'"
    "wallet_connect_uri t = wallet_connect_uri ?s'" "clipboard t = clipboard ?s'"
    using Suc.IH by blast
  have "copy_message t = []"
  proof (cases n)
    case 0
    then show ?thesis
      using t(1) by (auto simp: copy_timer_fires_def)
  qed (use t(3) in simp)
  then show ?case
    using step t by (simp add: copy_timer_fires_def)
qed

text \<open>
  C25: from every reachable state, the pending timer callbacks can all run, and after
  them the copy message is cleared and no callback is pending; the keys, the URI and the
  clipboard are untouched.
\<close>

theorem copy_message_eventually_cleared:
  assumes "reachable src s"
  shows "\<exists>t. ui_run src s (replicate (pending_timers s) CopyTimerFires) = Some t
             \<and> copy_message t = [] \<and> pending_timers t = 0
             \<and> client_keys t = client_keys s \<and> wallet_connect_uri t = wallet_connect_uri s
             \<and> clipboard t = clipboard s"
proof (cases "pending_timers s")
  case 0
  then have "copy_message s = []"
    using reachable_message_has_timer [OF assms] by (simp add: message_has_timer_def)
  with 0 show ?thesis by simp
next
  case (Suc m)
  then show ?thesis
    using ui_run_timers [of s "pending_timers s" src] by auto
qed

theorem copy_message_eventually_cleared_witness:
  "\<exists>s. reachable zero_source s \<and> copy_message s = ''Copied to clipboard!'' \<and> pending_timers s = 1
       \<and> (\<exists>t. ui_run zero_source s (replicate (pending_timers s) CopyTimerFires) = Some t
             \<and> copy_message t = [] \<and> pending_timers t = 0
             \<and> client_keys t = client_keys s \<and> wallet_connect_uri t = wallet_connect_uri s
             \<and> clipboard t = clipboard s)"
proof -
  obtain k where r: "reachable zero_source (keyed_state k)"
    using zero_source_keyed_state by blast
  let ?s = "copy_to_clipboard (ck_pk k) True (keyed_state k)"
  have "ui_step zero_source (keyed_state k) (ClickCopy CopyPk True) = Some ?s"
    by (simp add: ui_step_def copy_text_def keyed_state_def)
  then have r': "reachable zero_source ?s"
    by (rule reachable.step [OF r])
  have m: "copy_message ?s = ''Copied to clipboard!''" "pending_timers ?s = 1"
    by (simp_all add: copy_to_clipboard_def Let_def keyed_state_def initial_state_def)
  show ?thesis
    using r' m copy_message_eventually_cleared [OF r'] by blast
qed

end
