(* ===== verification/Radix2.thy ===== *)
theory Radix2
  imports Bech32
begin

text \<open>
  The regrouping loop \<^verbatim>\<open>convertRadix2\<close> of the key library's base-encoding
  dependency, as the library writes it: a carry word and a bit position, both JavaScript
  numbers used as 32-bit integers (\<^verbatim>\<open>carry << from\<close>, \<^verbatim>\<open>| n\<close>,
  \<^verbatim>\<open>carry >> (pos - to)\<close>, \<^verbatim>\<open>& mask\<close>, \<^verbatim>\<open>&= 2 ** pos - 1\<close>, with the shift
  count taken modulo 32). The carry is a \<open>32 word\<close>; shifts are \<open>push_bit\<close> and
  \<open>drop_bit\<close>, the latter logical, which agrees with JavaScript's arithmetic
  \<^verbatim>\<open>>>\<close> because the carry stays below \<open>2 ^ (from + to)\<close>. The inner
  \<^verbatim>\<open>for (; pos >= to; pos -= to)\<close> loop is \<open>emit_words\<close>, a \<open>function\<close> whose
  termination measure is \<open>pos\<close>; the outer loop over the data is \<open>radix2_feed\<close>;
  \<open>convert_radix2_loop\<close> adds the width checks, the \<^verbatim>\<open>radix2carry\<close> overflow
  check and the final padding branches. After the inner loop \<open>pos < to \<le> 32\<close>, so the
  library's lookup of \<^verbatim>\<open>powers[pos]\<close> never fails and is left out.

  The theory proves that for widths with \<open>from + to \<le> 32\<close> (the library uses 8 and
  5, and 5 and 8) the loop computes exactly the bit-string regrouping
  \<open>convert_radix2\<close> of \<open>Bech32\<close>, errors included, and that it returns a result on
  every valid input: no overflow guard fires, every input bit is kept, and the carry
  stays below \<open>2 ^ pos\<close>.
\<close>

definition radix2carry :: "nat \<Rightarrow> nat \<Rightarrow> nat" where
  "radix2carry from to = from + (to - gcd from to)"

function emit_words :: "nat \<Rightarrow> 32 word \<Rightarrow> nat \<Rightarrow> nat list \<Rightarrow> nat \<times> nat list" where
  "emit_words to carry pos res =
     (if 0 < to \<and> to \<le> pos
      then emit_words to carry (pos - to) (res @ [unat (drop_bit ((pos - to) mod 32) carry AND mask to)])
      else (pos, res))"
  by pat_completeness auto
termination
  by (relation "measure (\<lambda>(to, carry, pos, res). pos)") auto

declare emit_words.simps [simp del]

fun radix2_feed ::
  "nat \<Rightarrow> nat \<Rightarrow> nat list \<Rightarrow> 32 word \<Rightarrow> nat \<Rightarrow> nat list \<Rightarrow> bech32_error + (32 word \<times> nat \<times> nat list)" where
  "radix2_feed from to [] carry pos res = Inr (carry, pos, res)"
| "radix2_feed from to (n # ns) carry pos res =
     (if 2 ^ from \<le> n then Inl InvalidWord
      else (let carry1 = push_bit (from mod 32) carry OR word_of_nat n in
            if 32 < pos + from then Inl CarryOverflow
            else (case emit_words to carry1 (pos + from) res of
                    (pos2, res2) \<Rightarrow> radix2_feed from to ns (carry1 AND (2 ^ pos2 - 1)) pos2 res2)))"

definition convert_radix2_loop :: "nat \<Rightarrow> nat \<Rightarrow> bool \<Rightarrow> nat list \<Rightarrow> bech32_error + nat list" where
  "convert_radix2_loop from to padding data =
     (if from = 0 \<or> 32 < from \<or> to = 0 \<or> 32 < to then Inl WrongRadix
      else if 32 < radix2carry from to then Inl CarryOverflow
      else (case radix2_feed from to data 0 0 [] of
              Inl e \<Rightarrow> Inl e
            | Inr (carry, pos, res) \<Rightarrow>
                (let last = push_bit ((to - pos) mod 32) carry AND mask to in
                 if \<not> padding \<and> from \<le> pos then Inl ExcessPadding
                 else if \<not> padding \<and> last \<noteq> 0 then Inl NonZeroPadding
                 else if padding \<and> 0 < pos then Inr (res @ [unat last])
                 else Inr res)))"


subsection \<open>Word arithmetic of the carry\<close>

lemma push_bit_or_small:
  fixes c :: "32 word"
  assumes "n < 2 ^ k"
  shows "push_bit k c OR word_of_nat n = push_bit k c + word_of_nat n"
proof (rule disjunctive_add [symmetric])
  fix i
  have "n = take_bit k n"
    using assms by (simp add: take_bit_nat_eq_self)
  then have "bit n i \<Longrightarrow> i < k"
    by (metis bit_take_bit_iff)
  then show "\<not> bit (push_bit k c) i \<or> \<not> bit (word_of_nat n :: 32 word) i"
    by (auto simp: bit_push_bit_iff bit_of_nat_iff)
qed

lemma unat_carry_in:
  fixes c :: "32 word"
  assumes "n < 2 ^ k" and "unat c < 2 ^ p" and "p + k \<le> 32"
  shows "unat (push_bit k c OR word_of_nat n) = unat c * 2 ^ k + n"
proof -
  have "unat c * 2 ^ k + n < 2 ^ p * 2 ^ k"
  proof -
    have "unat c * 2 ^ k + n < unat c * 2 ^ k + 2 ^ k" using assms(1) by simp
    also have "\<dots> = (unat c + 1) * 2 ^ k" by simp
    also have "\<dots> \<le> 2 ^ p * 2 ^ k" using assms(2) by (intro mult_right_mono) auto
    finally show ?thesis .
  qed
  also have "(2::nat) ^ p * 2 ^ k \<le> 2 ^ 32"
    using power_increasing [OF assms(3), of "2::nat"] by (simp add: power_add)
  finally have lt: "unat c * 2 ^ k + n < 2 ^ 32" .
  then have "unat c * 2 ^ k < 2 ^ 32" and "n < 2 ^ 32" by simp_all
  have pc: "unat (push_bit k c) = unat c * 2 ^ k"
    using \<open>unat c * 2 ^ k < 2 ^ 32\<close>
    by (simp add: unsigned_push_bit_eq take_bit_eq_mod [where 'a = nat] push_bit_eq_mult [where 'a = nat])
  have pn: "unat (word_of_nat n :: 32 word) = n"
    using \<open>n < 2 ^ 32\<close> by (simp add: unat_of_nat)
  show ?thesis
    using lt unat_add_lem [of "push_bit k c" "word_of_nat n :: 32 word"]
    by (simp add: push_bit_or_small [OF assms(1)] pc pn)
qed

lemma unat_emit: "unat (drop_bit d c AND mask t :: 32 word) = unat c div 2 ^ d mod 2 ^ t"
  by (simp add: unat_drop_bit_eq unsigned_take_bit_eq take_bit_eq_mod [where 'a = nat]
      drop_bit_eq_div [where 'a = nat] flip: take_bit_eq_mask)

lemma unat_low_bits: "p \<le> 32 \<Longrightarrow> unat (c AND (2 ^ p - 1) :: 32 word) = unat c mod 2 ^ p"
  by (simp add: unsigned_take_bit_eq take_bit_eq_mod [where 'a = nat] flip: mask_eq_exp_minus_1 take_bit_eq_mask)

lemma unat_last:
  fixes c :: "32 word"
  assumes "d < 32" and "t \<le> 32"
  shows "unat (push_bit d c AND mask t) = unat c * 2 ^ d mod 2 ^ t"
proof -
  have "unat (push_bit d c AND mask t) = unat c * 2 ^ d mod 2 ^ 32 mod 2 ^ t"
    by (simp add: unsigned_take_bit_eq unsigned_push_bit_eq take_bit_eq_mod [where 'a = nat]
        push_bit_eq_mult [where 'a = nat] flip: take_bit_eq_mask)
  also have "\<dots> = unat c * 2 ^ d mod 2 ^ t"
    using mod_mod_cancel [OF le_imp_power_dvd [OF assms(2)], of "unat c * 2 ^ d" "2::nat"] by simp
  finally show ?thesis .
qed

subsection \<open>Bit strings of the carry\<close>

lemma bits_of_add: "bits_of (a + b) x = bits_of a (x div 2 ^ b) @ bits_of b x"
  by (induction b arbitrary: x) (simp_all add: div_mult2_eq)

lemma bits_of_mod: "bits_of w (x mod 2 ^ w) = bits_of w x"
  by (metis bits_of_nat_of_bits length_bits_of nat_of_bits_bits_of)

lemma nat_of_bits_append_False: "nat_of_bits (bs @ replicate k False) = nat_of_bits bs * 2 ^ k"
proof (induction k)
  case (Suc k)
  have "bs @ replicate (Suc k) False = (bs @ replicate k False) @ [False]"
    by (simp flip: replicate_append_same)
  then show ?case
    by (simp only: nat_of_bits_snoc Suc.IH) simp
qed simp

subsection \<open>The inner loop emits whole groups\<close>

lemma emit_words_inv:
  "0 < to \<Longrightarrow> pos < 32 \<Longrightarrow> emit_words to carry pos res = (pos', res') \<Longrightarrow>
   pos' = pos mod to
   \<and> concat (map (bits_of to) res') @ bits_of pos' (unat carry)
       = concat (map (bits_of to) res) @ bits_of pos (unat carry)
   \<and> (\<forall>w \<in> set res'. w \<in> set res \<or> w < 2 ^ to)"
proof (induction to carry pos res rule: emit_words.induct)
  case (1 to carry pos res)
  show ?case
  proof (cases "to \<le> pos")
    case False
    with "1.prems" show ?thesis
      by (subst (asm) emit_words.simps) auto
  next
    case True
    let ?w = "unat (drop_bit ((pos - to) mod 32) carry AND mask to)"
    have w: "?w = unat carry div 2 ^ (pos - to) mod 2 ^ to"
      using "1.prems"(2) by (simp add: unat_emit)
    have rec: "emit_words to carry (pos - to) (res @ [?w]) = (pos', res')"
      using "1.prems" True by (subst (asm) emit_words.simps) simp
    have lt: "pos - to < 32"
      using "1.prems"(2) by simp
    have ih: "pos' = (pos - to) mod to
      \<and> concat (map (bits_of to) res') @ bits_of pos' (unat carry)
          = concat (map (bits_of to) (res @ [?w])) @ bits_of (pos - to) (unat carry)
      \<and> (\<forall>w \<in> set res'. w \<in> set (res @ [?w]) \<or> w < 2 ^ to)"
      using "1.IH" [OF _ "1.prems"(1) lt rec] "1.prems"(1) True by blast
    have split: "bits_of pos (unat carry)
                   = bits_of to (unat carry div 2 ^ (pos - to)) @ bits_of (pos - to) (unat carry)"
      using bits_of_add [of to "pos - to" "unat carry"] True by simp
    have "bits_of to ?w = bits_of to (unat carry div 2 ^ (pos - to))"
      unfolding w by (rule bits_of_mod)
    moreover have "?w < 2 ^ to"
      unfolding w by simp
    ultimately show ?thesis
      using ih split True by (auto simp: le_mod_geq)
  qed
qed

subsection \<open>The outer loop keeps every input bit\<close>

lemma radix2_feed_inv:
  assumes "0 < to" and "from + to \<le> 32" and "pos < to" and "unat carry < 2 ^ pos"
    and "\<forall>w \<in> set res. w < 2 ^ to"
  shows "(radix2_feed from to data carry pos res = Inl InvalidWord \<and> (\<exists>n \<in> set data. 2 ^ from \<le> n))
         \<or> ((\<forall>n \<in> set data. n < 2 ^ from)
            \<and> (\<exists>c' p' r'. radix2_feed from to data carry pos res = Inr (c', p', r')
                 \<and> p' < to \<and> unat c' < 2 ^ p' \<and> (\<forall>w \<in> set r'. w < 2 ^ to)
                 \<and> concat (map (bits_of to) r') @ bits_of p' (unat c')
                     = concat (map (bits_of to) res) @ bits_of pos (unat carry)
                         @ concat (map (bits_of from) data)))"
  using assms
proof (induction data arbitrary: carry pos res)
  case Nil
  then show ?case by simp
next
  case (Cons n ns)
  show ?case
  proof (cases "2 ^ from \<le> n")
    case True
    then show ?thesis by simp
  next
    case False
    then have n: "n < 2 ^ from" by simp
    let ?c1 = "push_bit (from mod 32) carry OR word_of_nat n"
    have fm: "from mod 32 = from"
      using Cons.prems(1,2) by simp
    have c1: "unat ?c1 = unat carry * 2 ^ from + n"
      unfolding fm using Cons.prems by (intro unat_carry_in [OF n]) auto
    obtain pos2 res2 where em: "emit_words to ?c1 (pos + from) res = (pos2, res2)"
      by (cases "emit_words to ?c1 (pos + from) res") auto
    have inv: "pos2 = (pos + from) mod to
      \<and> concat (map (bits_of to) res2) @ bits_of pos2 (unat ?c1)
          = concat (map (bits_of to) res) @ bits_of (pos + from) (unat ?c1)
      \<and> (\<forall>w \<in> set res2. w \<in> set res \<or> w < 2 ^ to)"
    proof -
      have "pos + from < 32"
        using Cons.prems(2,3) by simp
      then show ?thesis
        using emit_words_inv [OF Cons.prems(1) _ em] by blast
    qed
    let ?c2 = "?c1 AND (2 ^ pos2 - 1)"
    have p2: "pos2 < to"
      using inv Cons.prems(1) by simp
    have c2: "unat ?c2 = unat ?c1 mod 2 ^ pos2"
      using p2 Cons.prems(1,2) by (intro unat_low_bits) simp
    have b2: "bits_of pos2 (unat ?c2) = bits_of pos2 (unat ?c1)"
      unfolding c2 by (rule bits_of_mod)
    have b1: "bits_of (pos + from) (unat ?c1) = bits_of pos (unat carry) @ bits_of from n"
    proof -
      have "unat ?c1 div 2 ^ from = unat carry" and "unat ?c1 mod 2 ^ from = n"
        using c1 n by simp_all
      then show ?thesis
        using bits_of_add [of pos "from" "unat ?c1"] bits_of_mod [of "from" "unat ?c1"] by simp
    qed
    have step: "radix2_feed from to (n # ns) carry pos res = radix2_feed from to ns ?c2 pos2 res2"
      using False Cons.prems(2,3) em by (simp add: Let_def)
    have r2: "\<forall>w \<in> set res2. w < 2 ^ to"
      using inv Cons.prems(5) by blast
    have "unat ?c2 < 2 ^ pos2"
      unfolding c2 by simp
    from Cons.IH [OF Cons.prems(1,2) p2 this r2]
    show ?thesis
      unfolding step using inv b1 b2 n by auto
  qed
qed

subsection \<open>The carry loop computes the reference regrouping\<close>

lemma convert_radix2_of_groups:
  assumes valid: "\<forall>n \<in> set data. n < 2 ^ from"
    and bits: "concat (map (bits_of to) r) @ bits_of p x = concat (map (bits_of from) data)"
    and p: "p < to" and x: "x < 2 ^ p" and r: "\<forall>w \<in> set r. w < 2 ^ to"
  shows "convert_radix2 from to padding data =
           (if padding then Inr (r @ (if p = 0 then [] else [x * 2 ^ (to - p)]))
            else if from \<le> p then Inl ExcessPadding
            else if x \<noteq> 0 then Inl NonZeroPadding
            else Inr r)"
proof -
  let ?B = "concat (map (bits_of from) data)"
  let ?R = "concat (map (bits_of to) r)"
  have lenR: "length ?R = to * length r"
    using length_concat_const [of "map (bits_of to) r" to] by simp
  have full: "length ?B div to * to = length ?R"
  proof -
    have "length ?B = length ?R + p"
      using bits [symmetric] by simp
    then show ?thesis
      using p lenR by simp
  qed
  have tk: "take (length ?B div to * to) ?B = ?R" and dr: "drop (length ?B div to * to) ?B = bits_of p x"
    unfolding full by (simp_all flip: bits)
  have ch: "chunks to ?R = map (bits_of to) r"
    using p by (intro chunks_concat) auto
  have nats: "map nat_of_bits (map (bits_of to) r) = r"
    using r by (simp add: nat_of_bits_bits_of map_idI)
  have nb: "nat_of_bits (bits_of p x) = x"
    using x by (simp add: nat_of_bits_bits_of)
  have pad: "nat_of_bits (bits_of p x @ replicate (to - p) False) = x * 2 ^ (to - p)"
    using nb by (simp add: nat_of_bits_append_False)
  have bad: "\<not> (\<exists>n \<in> set data. 2 ^ from \<le> n)"
    using valid by (auto simp: not_le)
  have empty: "bits_of p x = [] \<longleftrightarrow> p = 0"
    by (metis length_0_conv length_bits_of)
  show ?thesis
    unfolding convert_radix2_def Let_def
    using bad tk dr ch nats nb pad empty by simp
qed

theorem convert_radix2_loop_eq:
  assumes "0 < from" and "0 < to" and "from + to \<le> 32"
  shows "convert_radix2_loop from to padding data = convert_radix2 from to padding data"
proof -
  have guards: "\<not> (from = 0 \<or> 32 < from \<or> to = 0 \<or> 32 < to)" "\<not> 32 < radix2carry from to"
    using assms by (auto simp: radix2carry_def)
  have inv: "(radix2_feed from to data 0 0 [] = Inl InvalidWord \<and> (\<exists>n \<in> set data. 2 ^ from \<le> n))
         \<or> ((\<forall>n \<in> set data. n < 2 ^ from)
            \<and> (\<exists>c' p' r'. radix2_feed from to data 0 0 [] = Inr (c', p', r')
                 \<and> p' < to \<and> unat c' < 2 ^ p' \<and> (\<forall>w \<in> set r'. w < 2 ^ to)
                 \<and> concat (map (bits_of to) r') @ bits_of p' (unat c') = concat (map (bits_of from) data)))"
    using radix2_feed_inv [of to "from" 0 0 "[]" data] assms by simp
  then consider (bad) "radix2_feed from to data 0 0 [] = Inl InvalidWord" "\<exists>n \<in> set data. 2 ^ from \<le> n"
    | (ok) c p r where "\<forall>n \<in> set data. n < 2 ^ from" "radix2_feed from to data 0 0 [] = Inr (c, p, r)"
        "p < to" "unat c < 2 ^ p" "\<forall>w \<in> set r. w < 2 ^ to"
        "concat (map (bits_of to) r) @ bits_of p (unat c) = concat (map (bits_of from) data)"
    by blast
  then show ?thesis
  proof cases
    case bad
    then show ?thesis
      using guards by (simp add: convert_radix2_loop_def convert_radix2_def)
  next
    case ok
    have small: "unat c * 2 ^ (to - p) < 2 ^ to"
    proof -
      have "unat c * 2 ^ (to - p) < 2 ^ p * 2 ^ (to - p)"
        using ok(4) by simp
      also have "\<dots> = 2 ^ to"
        using ok(3) by (simp flip: power_add)
      finally show ?thesis .
    qed
    have last: "unat (push_bit ((to - p) mod 32) c AND mask to) = unat c * 2 ^ (to - p)"
      using unat_last [of "to - p" to c] ok(3) assms small by simp
    have last0: "(push_bit ((to - p) mod 32) c AND mask to = 0) \<longleftrightarrow> unat c = 0"
      by (metis last unat_eq_zero mult_eq_0_iff power_not_zero zero_neq_numeral)
    show ?thesis
      using convert_radix2_of_groups [OF ok(1) ok(6) ok(3) ok(4) ok(5), of padding] ok(2) guards last last0
      by (simp add: convert_radix2_loop_def Let_def)
  qed
qed

subsection \<open>Results of the loop\<close>

lemma convert_radix2_loop_returns:
  assumes "0 < from" and "0 < to" and "from + to \<le> 32" and "\<forall>n \<in> set data. n < 2 ^ from"
  shows "\<exists>ws. convert_radix2_loop from to True data = Inr ws"
  using convert_radix2_pad_Inr [OF assms(4), of to] convert_radix2_loop_eq [OF assms(1-3)] by simp

lemma to_words_loop: "to_words bs = convert_radix2_loop 8 5 True (map unat bs)"
  by (simp add: to_words_def convert_radix2_loop_eq)

lemma to_words_unpad_loop:
  assumes "to_words bs = Inr ws"
  shows "convert_radix2_loop 5 8 False ws = Inr (map unat bs)"
proof -
  obtain pad where pad: "pad < 5"
    and bits: "concat (map (bits_of 5) ws) = concat (map (bits_of 8) (map unat bs)) @ replicate pad False"
    and small: "\<forall>w \<in> set ws. w < 2 ^ 5"
    using convert_radix2_pad_bits [of 8 5 "map unat bs" ws] assms by (auto simp: to_words_def)
  have "convert_radix2 5 8 False ws = Inr (map unat bs)"
    using pad bits small by (intro convert_radix2_unpad) auto
  then show ?thesis
    by (simp add: convert_radix2_loop_eq)
qed

end
