(* ===== verification/Styles.thy ===== *)
theory Styles
  imports View
begin

text \<open>
  The inline style objects of \<^verbatim>\<open>src/NostrKeyGen.js\<close> (lines 5--113) and the
  \<^verbatim>\<open>style\<close> attribute of every element of the JSX (lines 189--326). A style object is
  an association list of CSS properties in the order of its literal (\<open>css\<close>); the
  object spread \<^verbatim>\<open>{ ...headerStyle, fontSize: ... }\<close> of line 289 is \<open>css_spread\<close>,
  which overwrites a property in place and appends a new one, as JavaScript does. Each
  element of \<open>View.render\<close> is paired with the styles of the element itself and of
  every element around it, innermost first (\<open>styled_render\<close>); the computed value of
  a property is read with CSS inheritance (\<open>css_computed\<close>): the innermost style that
  sets it, looking outwards only for inherited properties. The theory shows that the styled
  tree has exactly the elements of \<open>render\<close>, how spread and inheritance read, that no
  style object sets a property twice, and that every key text and the URI are shown in a
  monospace font that breaks anywhere, whether the secret is masked or not.
\<close>

datatype css_value = CssStr js_string | CssNum int

type_synonym css = "(js_string \<times> css_value) list"

text \<open>Assignment of one property to an object, and the object spread
  \<^verbatim>\<open>{ ...a, k1: v1, ... }\<close>: the properties of \<open>b\<close> are assigned in order.\<close>

fun css_set :: "css \<Rightarrow> js_string \<Rightarrow> css_value \<Rightarrow> css" where
  "css_set [] k v = [(k, v)]"
| "css_set ((k', v') # ps) k v = (if k' = k then (k, v) # ps else (k', v') # css_set ps k v)"

definition css_spread :: "css \<Rightarrow> css \<Rightarrow> css" where
  "css_spread a b = foldl (\<lambda>st (k, v). css_set st k v) a b"

text \<open>The properties among those the file uses that CSS inherits from the parent.\<close>

definition css_inherits :: "js_string \<Rightarrow> bool" where
  "css_inherits k \<longleftrightarrow> k \<in> set [''color'', ''fontFamily'', ''fontSize'', ''fontWeight'', ''lineHeight'',
                               ''textAlign'', ''wordBreak'', ''cursor'']"

fun css_computed :: "css list \<Rightarrow> js_string \<Rightarrow> css_value option" where
  "css_computed [] k = None"
| "css_computed (st # sts) k =
     (case map_of st k of
        Some v \<Rightarrow> Some v
      | None \<Rightarrow> if css_inherits k then css_computed sts k else None)"

subsection \<open>The style objects, lines 5--113\<close>

definition container_style :: css where
  "container_style =
     [(''display'', CssStr ''flex''), (''flexDirection'', CssStr ''column''),
      (''alignItems'', CssStr ''center''), (''minHeight'', CssStr ''100vh''),
      (''background'', CssStr ''linear-gradient(135deg, #141414, #2c2c2c)''),
      (''padding'', CssStr ''20px'')]"

definition card_style :: css where
  "card_style =
     [(''width'', CssStr ''100%''), (''maxWidth'', CssStr ''700px''), (''padding'', CssStr ''30px''),
      (''backgroundColor'', CssStr ''#1f1f1f''), (''borderRadius'', CssStr ''15px''),
      (''boxShadow'', CssStr ''0 12px 30px rgba(0,0,0,0.5)''), (''color'', CssStr ''#e0e0e0''),
      (''fontFamily'', CssStr (CHR 0x27 # ''Segoe UI'' @ CHR 0x27 # '', Tahoma, Geneva, Verdana, sans-serif'')),
      (''marginBottom'', CssStr ''30px'')]"

definition header_style :: css where
  "header_style =
     [(''textAlign'', CssStr ''center''), (''color'', CssStr ''#4dabf7''),
      (''marginBottom'', CssStr ''15px''), (''fontSize'', CssStr ''1.8rem'')]"

definition info_style :: css where
  "info_style =
     [(''backgroundColor'', CssStr ''#272727''), (''padding'', CssStr ''20px''),
      (''borderRadius'', CssStr ''10px''), (''marginBottom'', CssStr ''25px''),
      (''fontSize'', CssStr ''0.95rem''), (''lineHeight'', CssStr ''1.6'')]"

definition label_style :: css where
  "label_style =
     [(''fontWeight'', CssStr ''bold''), (''marginBottom'', CssStr ''5px''),
      (''display'', CssStr ''block''), (''fontSize'', CssStr ''0.95rem'')]"

definition input_style :: css where
  "input_style =
     [(''width'', CssStr ''100%''), (''padding'', CssStr ''12px''), (''marginBottom'', CssStr ''20px''),
      (''borderRadius'', CssStr ''6px''), (''border'', CssStr ''1px solid #444''),
      (''backgroundColor'', CssStr ''#2c2c2c''), (''color'', CssStr ''#e0e0e0''),
      (''fontSize'', CssStr ''0.95rem'')]"

definition button_style :: "js_string \<Rightarrow> css" where
  "button_style bg_color =
     [(''backgroundColor'', CssStr bg_color), (''color'', CssStr ''#fff''),
      (''padding'', CssStr ''10px 20px''), (''borderRadius'', CssStr ''5px''),
      (''border'', CssStr ''none''), (''cursor'', CssStr ''pointer''), (''fontSize'', CssStr ''0.95rem''),
      (''marginRight'', CssStr ''10px''), (''marginBottom'', CssStr ''10px'')]"

definition key_box_style :: css where
  "key_box_style =
     [(''display'', CssStr ''flex''), (''alignItems'', CssStr ''center''),
      (''backgroundColor'', CssStr ''#333''), (''padding'', CssStr ''12px''),
      (''borderRadius'', CssStr ''6px''), (''marginBottom'', CssStr ''15px''),
      (''wordBreak'', CssStr ''break-all''), (''fontFamily'', CssStr ''monospace'')]"

definition hex_key_text_style :: css where
  "hex_key_text_style =
     [(''flexGrow'', CssNum 1), (''color'', CssStr ''#ffeb3b''), (''fontSize'', CssStr ''1.1rem'')]"

definition nip_key_text_style :: css where
  "nip_key_text_style =
     [(''flexGrow'', CssNum 1), (''color'', CssStr ''#4caf50''), (''fontSize'', CssStr ''1rem'')]"

definition uri_box_style :: css where
  "uri_box_style =
     [(''padding'', CssStr ''15px''), (''backgroundColor'', CssStr ''#333''),
      (''borderRadius'', CssStr ''6px''), (''wordBreak'', CssStr ''break-all''),
      (''fontFamily'', CssStr ''monospace''), (''fontSize'', CssStr ''1rem''),
      (''marginTop'', CssStr ''15px'')]"

definition details_box_style :: css where
  "details_box_style =
     [(''backgroundColor'', CssStr ''#2c2c2c''), (''padding'', CssStr ''15px''),
      (''borderRadius'', CssStr ''6px''), (''fontSize'', CssStr ''0.9rem''),
      (''lineHeight'', CssStr ''1.5''), (''marginTop'', CssStr ''20px''), (''color'', CssStr ''#c0c0c0'')]"

subsection \<open>The styled element tree, lines 189--326\<close>

text \<open>Each element with its own style first and then the styles of the elements around
  it, out to the container; a \<^verbatim>\<open><div>\<close> without a style attribute contributes the
  empty style.\<close>

definition styled_keys :: "ui_state \<Rightarrow> (css list \<times> view_elem) list" where
  "styled_keys s =
     (let grp = [[(''marginBottom'', CssStr ''25px'')], card_style, container_style];
          blue = button_style ''#4dabf7'' in
      case client_keys s of
        Some keys \<Rightarrow>
          [(label_style # grp, FieldLabel ''Client Public Key (Hex):''),
           (hex_key_text_style # key_box_style # grp, KeyText (ck_pk keys)),
           (blue # key_box_style # grp, Button ''Copy'' (CtlCopy CopyPk)),
           (label_style # grp, FieldLabel ''Client Public Key (NIP-19):''),
           (nip_key_text_style # key_box_style # grp, KeyText (ck_npub keys)),
           (blue # key_box_style # grp, Button ''Copy'' (CtlCopy CopyNpub)),
           (label_style # grp, FieldLabel ''Client Private Key (Hex):''),
           (hex_key_text_style # key_box_style # grp,
            KeyText (if show_private s then react_text_of_u8array (ck_sk keys) else mask_text)),
           (blue # key_box_style # grp, Button (if show_private s then ''Hide'' else ''Show'') CtlToggleShow),
           (blue # key_box_style # grp, Button ''Copy'' (CtlCopy CopySk)),
           (label_style # grp, FieldLabel ''Client Private Key (NIP-19):''),
           (nip_key_text_style # key_box_style # grp, KeyText (if show_private s then ck_nsec keys else mask_text)),
           (blue # key_box_style # grp, Button ''Copy'' (CtlCopy CopyNsec)),
           ([blue, card_style, container_style], Button ''Regenerate Client Keys'' CtlGenerateKeys)]
      | None \<Rightarrow>
          [([blue, [(''textAlign'', CssStr ''center''), (''marginTop'', CssStr ''20px'')], card_style, container_style],
            Button ''Generate Your Client Nostr Keys'' CtlGenerateKeys)])"

definition styled_uri :: "ui_state \<Rightarrow> (css list \<times> view_elem) list" where
  "styled_uri s =
     (let card = [card_style, container_style] in
      if wallet_connect_uri s \<noteq> [] then
        [(css_spread header_style [(''fontSize'', CssStr ''1.4rem''), (''marginTop'', CssStr ''25px'')] # card,
          Heading ''Generated URI''),
         (uri_box_style # card, UriBox (wallet_connect_uri s)),
         (button_style ''#4dabf7'' # card, Button ''Copy URI'' (CtlCopy CopyUri))]
        @ (if copy_message s \<noteq> []
           then [([(''marginLeft'', CssStr ''10px''), (''color'', CssStr ''#4caf50'')] # card, Message (copy_message s))]
           else [])
        @ [(details_box_style # card, InfoText)]
      else [])"

definition styled_render :: "ui_state \<Rightarrow> (css list \<times> view_elem) list" where
  "styled_render s =
     (let card = [card_style, container_style] in
      [(header_style # card, Heading ''Client Nostr Key Generator''), (info_style # card, InfoText)]
      @ styled_keys s
      @ [(header_style # card, Heading ''Buho Wallet Connect URI Generator''), (info_style # card, InfoText),
         (label_style # [] # card, FieldLabel ''Relay URL (required):''),
         (input_style # [] # card, TextInput ''wss://relay.example.com'' (relay s)),
         (button_style ''#4dabf7'' # [] # card, Button ''Generate URI'' CtlGenerateUri)]
      @ styled_uri s)"

text \<open>The elements whose text is a key or the URI.\<close>

fun shows_key_or_uri :: "view_elem \<Rightarrow> bool" where
  "shows_key_or_uri (KeyText _) = True"
| "shows_key_or_uri (UriBox _) = True"
| "shows_key_or_uri _ = False"

subsection \<open>Object spread and inheritance\<close>

lemma map_of_css_set [simp]: "map_of (css_set st k v) = (map_of st)(k \<mapsto> v)"
  by (induction st k v rule: css_set.induct) (auto simp: fun_eq_iff)

lemma keys_css_set:
  "map fst (css_set st k v) = (if k \<in> set (map fst st) then map fst st else map fst st @ [k])"
  by (induction st k v rule: css_set.induct) auto

lemma distinct_css_set: "distinct (map fst st) \<Longrightarrow> distinct (map fst (css_set st k v))"
  by (simp add: keys_css_set)

text \<open>A spread reads as the later object where it sets a property and as the earlier one
  elsewhere, and keeps the property names distinct.\<close>

lemma map_of_css_spread: "map_of (css_spread a b) = map_of a ++ map_of (rev b)"
proof (induction b arbitrary: a)
  case Nil
  then show ?case by (simp add: css_spread_def)
next
  case (Cons p b)
  obtain k v where p: "p = (k, v)"
    by (cases p)
  have "css_spread a (p # b) = css_spread (css_set a k v) b"
    by (simp add: css_spread_def p)
  then show ?case
    by (simp add: Cons.IH p) (simp only: fun_upd_def)
qed

lemma distinct_css_spread: "distinct (map fst a) \<Longrightarrow> distinct (map fst (css_spread a b))"
proof (induction b arbitrary: a)
  case (Cons p b)
  then show ?case
    by (cases p) (simp add: css_spread_def distinct_css_set)
qed (simp add: css_spread_def)

lemma css_computed_own: "map_of st k = Some v \<Longrightarrow> css_computed (st # sts) k = Some v"
  by simp

lemma css_computed_inherited:
  "map_of st k = None \<Longrightarrow> css_inherits k \<Longrightarrow> css_computed (st # sts) k = css_computed sts k"
  by simp

lemmas style_defs = container_style_def card_style_def header_style_def info_style_def
  label_style_def input_style_def button_style_def key_box_style_def hex_key_text_style_def
  nip_key_text_style_def uri_box_style_def details_box_style_def

subsection \<open>The styled tree\<close>

lemma styled_render_elements: "map snd (styled_render s) = render s"
  by (simp add: styled_render_def styled_keys_def styled_uri_def render_def render_keys_def
      render_uri_def Let_def split: option.splits)

lemma generated_uri_heading_style:
  "css_spread header_style [(''fontSize'', CssStr ''1.4rem''), (''marginTop'', CssStr ''25px'')] =
     [(''textAlign'', CssStr ''center''), (''color'', CssStr ''#4dabf7''),
      (''marginBottom'', CssStr ''15px''), (''fontSize'', CssStr ''1.4rem''), (''marginTop'', CssStr ''25px'')]"
  by (simp add: css_spread_def header_style_def)

text \<open>No style object of the file, and no style of the styled tree, sets a property twice.\<close>

lemma styled_render_distinct_keys:
  "(ss, e) \<in> set (styled_render s) \<Longrightarrow> st \<in> set ss \<Longrightarrow> distinct (map fst st)"
  by (auto simp: styled_render_def styled_keys_def styled_uri_def css_spread_def
      style_defs Let_def split: option.splits if_splits)

lemma uri_box_computed:
  "css_computed (uri_box_style # r) ''fontFamily'' = Some (CssStr ''monospace'')"
  "css_computed (uri_box_style # r) ''wordBreak'' = Some (CssStr ''break-all'')"
  by (simp_all add: uri_box_style_def)

lemma styled_key_or_uri_elems:
  assumes "(ss, e) \<in> set (styled_render s)" and "shows_key_or_uri e"
  shows "\<exists>st r. st \<in> {hex_key_text_style, nip_key_text_style} \<and> ss = st # key_box_style # r
           \<or> ss = uri_box_style # r"
  using assms by (auto simp: styled_render_def styled_keys_def styled_uri_def Let_def
      split: option.splits if_splits)

subsection \<open>Properties of the styles\<close>

text \<open>
  C26: in every state, every element that shows a key (the public keys, and the secret keys
  whether revealed or masked) or the connection URI is computed with the font family
  \<^verbatim>\<open>monospace\<close> and \<^verbatim>\<open>wordBreak: break-all\<close>: the span inherits both from its key box,
  overriding the card's proportional font, so the 64-digit keys and the long URI wrap
  inside their boxes.
\<close>

theorem key_and_uri_texts_monospace:
  "\<forall>(ss, e) \<in> set (styled_render s). shows_key_or_uri e \<longrightarrow>
     css_computed ss ''fontFamily'' = Some (CssStr ''monospace'')
     \<and> css_computed ss ''wordBreak'' = Some (CssStr ''break-all'')"
proof (intro ballI, clarify)
  fix ss e
  assume "(ss, e) \<in> set (styled_render s)" and "shows_key_or_uri e"
  then obtain st r where "st \<in> {hex_key_text_style, nip_key_text_style} \<and> ss = st # key_box_style # r
      \<or> ss = uri_box_style # r"
    using styled_key_or_uri_elems by blast
  then show "css_computed ss ''fontFamily'' = Some (CssStr ''monospace'')
     \<and> css_computed ss ''wordBreak'' = Some (CssStr ''break-all'')"
    using uri_box_computed
    by (auto simp: hex_key_text_style_def nip_key_text_style_def key_box_style_def css_inherits_def)
qed

theorem key_and_uri_texts_monospace_witness:
  "\<exists>ss. (ss, KeyText mask_text) \<in> set (styled_render (initial_state\<lparr>client_keys := Some \<lparr>ck_sk = [], ck_pk = [], ck_npub = [], ck_nsec = []\<rparr>,
        wallet_connect_uri := ''u''\<rparr>))
     \<and> css_computed ss ''fontFamily'' = Some (CssStr ''monospace'')
     \<and> css_computed ss ''wordBreak'' = Some (CssStr ''break-all'')"
proof -
  let ?s = "initial_state\<lparr>client_keys := Some \<lparr>ck_sk = [], ck_pk = [], ck_npub = [], ck_nsec = []\<rparr>,
        wallet_connect_uri := ''u''\<rparr>"
  obtain ss where m: "(ss, KeyText mask_text) \<in> set (styled_render ?s)"
    by (simp add: styled_render_def styled_keys_def initial_state_def Let_def) blast
  have "shows_key_or_uri (KeyText mask_text)"
    by simp
  then show ?thesis
    using m key_and_uri_texts_monospace [of ?s] by blast
qed

end
