(* ===== verification/AsyncCopy.thy ===== *)
theory AsyncCopy
  imports Timers
begin

text \<open>
  The asynchronous gap inside \<^verbatim>\<open>copyToClipboard\<close> (\<^verbatim>\<open>src/NostrKeyGen.js\<close>,
  lines 178--187). The handler is \<^verbatim>\<open>async\<close>: a click evaluates the text to copy from
  the rendered state and starts \<^verbatim>\<open>navigator.clipboard.writeText(text)\<close>; only when that
  promise settles does the rest of the handler run (the message, or the console error and
  the failure message, and the \<^verbatim>\<open>setTimeout\<close>). Between the two, any other event of the
  component may run, and several writes may be pending at once. The state is the
  component's \<open>ui_state\<close> together with the list of pending writes, each holding the text
  captured at its click (\<open>async_state\<close>); \<open>AClickCopy\<close> starts a write and
  \<open>ASettle i ok\<close> settles the \<open>i\<close>-th pending one, in any order. Every other event is the
  step of \<open>NostrKeyGen.ui_step\<close>.

  The theory shows that a write settles with
  the text of its click whatever ran in between (so the clipboard can receive a URI that
  regenerating the keys has already removed), and that from every reachable state all
  pending writes can settle and all timers fire, leaving no message and the last write's
  text in the clipboard, and that the invariants of the atomic model hold in every
  reachable state.
\<close>

record async_state =
  ui :: ui_state
  writes :: "js_string list"

definition async_init :: async_state where
  "async_init = \<lparr>ui = initial_state, writes = []\<rparr>"

datatype async_event =
    AUi ui_event
  | AClickCopy copy_target
  | ASettle nat bool

text \<open>A click on a Copy button (lines 209--293) calls \<^verbatim>\<open>copyToClipboard\<close> with the
  text of the current render and suspends at the \<^verbatim>\<open>await\<close> of line 180; settling write
  \<open>i\<close> runs lines 181--186, which are \<open>copy_to_clipboard\<close>. In this model a click
  event is \<open>AClickCopy\<close>, never the atomic \<open>ClickCopy\<close>.\<close>

fun async_step :: "random_source \<Rightarrow> async_state \<Rightarrow> async_event \<Rightarrow> async_state option" where
  "async_step src a (AUi (ClickCopy t ok)) = None"
| "async_step src a (AUi e) = map_option (\<lambda>s. a\<lparr>ui := s\<rparr>) (ui_step src (ui a) e)"
| "async_step src a (AClickCopy t) =
     map_option (\<lambda>text. a\<lparr>writes := writes a @ [text]\<rparr>) (copy_text (ui a) t)"
| "async_step src a (ASettle i ok) =
     (if i < length (writes a)
      then Some \<lparr>ui = copy_to_clipboard (writes a ! i) ok (ui a),
                 writes = take i (writes a) @ drop (Suc i) (writes a)\<rparr>
      else None)"

fun async_run :: "random_source \<Rightarrow> async_state \<Rightarrow> async_event list \<Rightarrow> async_state option" where
  "async_run src a [] = Some a"
| "async_run src a (e # es) = (case async_step src a e of None \<Rightarrow> None | Some b \<Rightarrow> async_run src b es)"

inductive async_reachable :: "random_source \<Rightarrow> async_state \<Rightarrow> bool" for src where
  init: "async_reachable src async_init"
| step: "async_reachable src a \<Longrightarrow> async_step src a e = Some b \<Longrightarrow> async_reachable src b"

fun is_copy_click :: "ui_event \<Rightarrow> bool" where
  "is_copy_click (ClickCopy _ _) = True"
| "is_copy_click _ = False"

subsection \<open>Runs\<close>

lemma async_run_append:
  "async_run src a (xs @ ys) = (case async_run src a xs of None \<Rightarrow> None | Some b \<Rightarrow> async_run src b ys)"
  by (induction xs arbitrary: a) (auto split: option.splits)

lemma async_run_reachable:
  "async_reachable src a \<Longrightarrow> async_run src a es = Some b \<Longrightarrow> async_reachable src b"
proof (induction es arbitrary: a)
  case (Cons e es)
  then obtain a' where "async_step src a e = Some a'" "async_run src a' es = Some b"
    by (auto split: option.splits)
  then show ?case
    using Cons.IH async_reachable.step [OF Cons.prems(1)] by blast
qed simp

lemma async_step_ui:
  "\<not> is_copy_click e \<Longrightarrow> async_step src a (AUi e) = map_option (\<lambda>s. a\<lparr>ui := s\<rparr>) (ui_step src (ui a) e)"
  by (cases e) simp_all

text \<open>Runs of component events act on the \<open>ui_state\<close> as the atomic runs do and leave
  the pending writes alone.\<close>

lemma async_run_ui_events:
  "\<forall>e \<in> set es. \<not> is_copy_click e \<Longrightarrow>
     async_run src a (map AUi es) = map_option (\<lambda>s. a\<lparr>ui := s\<rparr>) (ui_run src (ui a) es)"
proof (induction es arbitrary: a)
  case (Cons e es)
  then show ?case
    by (auto simp: async_step_ui split: option.splits)
qed simp

subsection \<open>The invariant of the asynchronous states\<close>

lemma async_step_message_has_timer:
  assumes "message_has_timer (ui a)" and "async_step src a e = Some b"
  shows "message_has_timer (ui b)"
proof (cases e)
  case (AUi ev)
  then show ?thesis
    using assms message_has_timer_step [OF assms(1)]
    by (cases "is_copy_click ev") (auto simp: async_step_ui elim: is_copy_click.elims)
next
  case (AClickCopy t)
  then show ?thesis
    using assms by auto
next
  case (ASettle i ok)
  then show ?thesis
    using assms by (auto simp: message_has_timer_def copy_to_clipboard_def Let_def split: if_splits)
qed

lemma async_reachable_message_has_timer: "async_reachable src a \<Longrightarrow> message_has_timer (ui a)"
proof (induction rule: async_reachable.induct)
  case init
  show ?case
    using reachable_message_has_timer [OF reachable.init] by (simp add: async_init_def)
next
  case (step a e b)
  then show ?case
    using async_step_message_has_timer by blast
qed

subsection \<open>Settling the pending writes\<close>

text \<open>Settling the oldest pending write, as many times as there are writes, empties the
  list; each settle schedules one timer, and the last write's text ends in the clipboard.\<close>

lemma async_settle_all:
  assumes "length (writes a) = n"
  shows "\<exists>b. async_run src a (replicate n (ASettle 0 True)) = Some b \<and> writes b = []
             \<and> pending_timers (ui b) = pending_timers (ui a) + n
             \<and> clipboard (ui b) = (if n = 0 then clipboard (ui a) else last (writes a))
             \<and> message_has_timer (ui b) = (message_has_timer (ui a) \<or> 0 < n)"
  using assms
proof (induction n arbitrary: a)
  case 0
  then show ?case by simp
next
  case (Suc n)
  obtain x ws where w: "writes a = x # ws"
    using Suc.prems by (cases "writes a") auto
  let ?a' = "\<lparr>ui = copy_to_clipboard x True (ui a), writes = ws\<rparr>"
  have st: "async_step src a (ASettle 0 True) = Some ?a'"
    using w by simp
  obtain b where b: "async_run src ?a' (replicate n (ASettle 0 True)) = Some b" "writes b = []"
    "pending_timers (ui b) = pending_timers (ui ?a') + n"
    "clipboard (ui b) = (if n = 0 then clipboard (ui ?a') else last ws)"
    "message_has_timer (ui b) = (message_has_timer (ui ?a') \<or> 0 < n)"
    using Suc.IH [of ?a'] Suc.prems w by auto
  have "message_has_timer (ui ?a')"
    by (simp add: message_has_timer_def copy_to_clipboard_def Let_def)
  then show ?case
    using st b w Suc.prems by (auto simp: copy_to_clipboard_def Let_def)
qed

lemma ui_invariant_copy_to_clipboard [simp]:
  "ui_invariant (copy_to_clipboard x ok s) = ui_invariant s"
  by (simp add: ui_invariant_def copy_to_clipboard_def Let_def log_effect_def)

lemma async_step_ui_invariant:
  assumes "ui_invariant (ui a)" and "async_step src a e = Some b"
  shows "ui_invariant (ui b)"
proof (cases e)
  case (AUi ev)
  then show ?thesis
    using assms ui_invariant_step [OF assms(1)]
    by (cases "is_copy_click ev") (auto simp: async_step_ui elim: is_copy_click.elims)
qed (use assms in \<open>auto split: if_splits\<close>)

text \<open>A reachable asynchronous state with one write pending: keys generated with the
  zero-byte source and the public key's Copy button clicked.\<close>

lemma async_reachable_pending_pk:
  "\<exists>k. async_reachable zero_source \<lparr>ui = keyed_state k, writes = [ck_pk k]\<rparr>"
proof -
  obtain k where st: "ui_step zero_source initial_state ClickGenerateKeys = Some (keyed_state k)"
    using zero_source_keyed_state by blast
  have r1: "async_reachable zero_source \<lparr>ui = keyed_state k, writes = []\<rparr>"
    using async_reachable.step [OF async_reachable.init, where e = "AUi ClickGenerateKeys"] st
    by (simp add: async_init_def)
  have "async_step zero_source \<lparr>ui = keyed_state k, writes = []\<rparr> (AClickCopy CopyPk)
          = Some \<lparr>ui = keyed_state k, writes = [ck_pk k]\<rparr>"
    by (simp add: copy_text_def keyed_state_def)
  then show ?thesis
    using async_reachable.step [OF r1] by blast
qed

subsection \<open>Properties of the asynchronous copy\<close>

text \<open>
  C27: a clipboard write settles with the text evaluated at its click, whatever component
  events ran in between: after copying the URI and regenerating the keys, which clears the
  URI, the write still puts the old URI, with the old client secret, in the clipboard and
  reports success.
\<close>

theorem settle_uses_clicked_text:
  assumes "copy_text (ui a) t = Some x" and "\<forall>u \<in> set us. \<not> is_copy_click u"
    and "async_run src a (AClickCopy t # map AUi us) = Some b"
  shows "\<exists>b'. async_step src b (ASettle (length (writes a)) True) = Some b'
              \<and> clipboard (ui b') = x \<and> copy_message (ui b') = ''Copied to clipboard!''
              \<and> writes b' = writes a"
proof -
  let ?a1 = "a\<lparr>writes := writes a @ [x]\<rparr>"
  have "async_run src ?a1 (map AUi us) = Some b"
    using assms(1,3) by simp
  then obtain s where "b = ?a1\<lparr>ui := s\<rparr>"
    using async_run_ui_events [OF assms(2), of src ?a1] by auto
  then have w: "writes b = writes a @ [x]"
    by simp
  show ?thesis
    using w by (simp add: copy_to_clipboard_def Let_def nth_append)
qed

theorem settle_uses_clicked_text_witness:
  "\<exists>k b b'. async_run zero_source \<lparr>ui = uri_state k, writes = []\<rparr> [AClickCopy CopyUri, AUi ClickGenerateKeys] = Some b
      \<and> async_step zero_source b (ASettle 0 True) = Some b'
      \<and> clipboard (ui b') = wallet_connect_uri (uri_state k) \<and> wallet_connect_uri (ui b') = []
      \<and> clipboard (ui b') \<noteq> [] \<and> copy_message (ui b') = ''Copied to clipboard!''"
proof -
  fix k
  let ?a = "\<lparr>ui = uri_state k, writes = []\<rparr>"
  let ?u = "wallet_connect_uri (uri_state k)"
  have ne: "?u \<noteq> []"
    by (simp add: uri_state_def build_wallet_connect_uri_unfold)
  obtain k' where g: "generate_client_keys zero_source (uri_state k)
      = (uri_state k)\<lparr>rng_draws := Suc (rng_draws (uri_state k)), client_keys := Some k', wallet_connect_uri := []\<rparr>"
    using zero_source_generates_keys [OF zero_source_const] by blast
  let ?b = "\<lparr>ui = generate_client_keys zero_source (uri_state k), writes = [?u]\<rparr>"
  have ct: "copy_text (ui ?a) CopyUri = Some ?u"
    using ne by (simp add: copy_text_def)
  have run: "async_run zero_source ?a (AClickCopy CopyUri # map AUi [ClickGenerateKeys]) = Some ?b"
    using ct by (simp add: ui_step_def)
  obtain b' where b': "async_step zero_source ?b (ASettle (length (writes ?a)) True) = Some b'"
    "clipboard (ui b') = ?u" "copy_message (ui b') = ''Copied to clipboard!''"
    using settle_uses_clicked_text [OF ct _ run] by auto
  have uri: "wallet_connect_uri (ui b') = []"
    using b'(1) g by (auto simp: copy_to_clipboard_def Let_def)
  have run': "async_run zero_source ?a [AClickCopy CopyUri, AUi ClickGenerateKeys] = Some ?b"
    using run by simp
  have st': "async_step zero_source ?b (ASettle 0 True) = Some b'"
    using b'(1) by simp
  have "clipboard (ui b') \<noteq> []"
    using b'(2) ne by simp
  then show ?thesis
    using run' st' b'(2,3) uri by blast
qed

text \<open>
  C28: from every reachable state of the asynchronous model, all pending clipboard writes
  can settle and then all timer callbacks can fire; afterwards no write or timer is
  pending, no copy message is shown, and the clipboard holds the text of the last write
  (or its old contents if none was pending).
\<close>

theorem async_copy_eventually_quiet:
  assumes "async_reachable src a"
  shows "\<exists>b. async_run src a (replicate (length (writes a)) (ASettle 0 True)
                 @ replicate (pending_timers (ui a) + length (writes a)) (AUi CopyTimerFires)) = Some b
             \<and> writes b = [] \<and> pending_timers (ui b) = 0 \<and> copy_message (ui b) = []
             \<and> clipboard (ui b) = (if writes a = [] then clipboard (ui a) else last (writes a))"
proof -
  let ?n = "length (writes a)"
  let ?m = "pending_timers (ui a) + ?n"
  obtain b1 where b1: "async_run src a (replicate ?n (ASettle 0 True)) = Some b1" "writes b1 = []"
    "pending_timers (ui b1) = ?m"
    "clipboard (ui b1) = (if ?n = 0 then clipboard (ui a) else last (writes a))"
    "message_has_timer (ui b1) = (message_has_timer (ui a) \<or> 0 < ?n)"
    using async_settle_all [of a ?n src] by blast
  obtain t where t: "ui_run src (ui b1) (replicate ?m CopyTimerFires) = Some t" "pending_timers t = 0"
    "0 < ?m \<longrightarrow> copy_message t = []" "clipboard t = clipboard (ui b1)"
    using ui_run_timers [OF b1(3), where src = src] by (elim exE conjE) (rule that)
  have run: "async_run src b1 (map AUi (replicate ?m CopyTimerFires)) = Some (b1\<lparr>ui := t\<rparr>)"
    using async_run_ui_events [of "replicate ?m CopyTimerFires" src b1] t(1) by simp
  have msg: "copy_message t = []"
  proof (cases "0 < ?m")
    case False
    then have "t = ui b1"
      using t(1) by simp
    moreover have "message_has_timer (ui b1)"
      using b1(5) async_reachable_message_has_timer [OF assms] by simp
    ultimately show ?thesis
      using False b1(3) by (simp add: message_has_timer_def)
  qed (use t(3) in simp)
  have "async_run src a (replicate ?n (ASettle 0 True) @ replicate ?m (AUi CopyTimerFires))
          = Some (b1\<lparr>ui := t\<rparr>)"
    using b1(1) run by (simp add: async_run_append)
  moreover have "clipboard t = (if writes a = [] then clipboard (ui a) else last (writes a))"
    using t(4) b1(4) by simp
  ultimately show ?thesis
    using b1(2) t(2) msg by auto
qed

theorem async_copy_eventually_quiet_witness:
  "\<exists>(k :: client_keys) a. async_reachable zero_source a \<and> writes a = [ck_pk k]
      \<and> (\<exists>b. async_run zero_source a (replicate (length (writes a)) (ASettle 0 True)
            @ replicate (pending_timers (ui a) + length (writes a)) (AUi CopyTimerFires)) = Some b
      \<and> writes b = [] \<and> pending_timers (ui b) = 0 \<and> copy_message (ui b) = []
      \<and> clipboard (ui b) = (if writes a = [] then clipboard (ui a) else last (writes a)))"
proof -
  obtain k where r: "async_reachable zero_source \<lparr>ui = keyed_state k, writes = [ck_pk k]\<rparr>"
    using async_reachable_pending_pk by blast
  have "async_reachable zero_source \<lparr>ui = keyed_state k, writes = [ck_pk k]\<rparr>
      \<and> writes \<lparr>ui = keyed_state k, writes = [ck_pk k]\<rparr> = [ck_pk k]
      \<and> (\<exists>b. async_run zero_source \<lparr>ui = keyed_state k, writes = [ck_pk k]\<rparr>
            (replicate (length (writes \<lparr>ui = keyed_state k, writes = [ck_pk k]\<rparr>)) (ASettle 0 True)
            @ replicate (pending_timers (ui \<lparr>ui = keyed_state k, writes = [ck_pk k]\<rparr>)
                + length (writes \<lparr>ui = keyed_state k, writes = [ck_pk k]\<rparr>)) (AUi CopyTimerFires)) = Some b
      \<and> writes b = [] \<and> pending_timers (ui b) = 0 \<and> copy_message (ui b) = []
      \<and> clipboard (ui b) = (if writes \<lparr>ui = keyed_state k, writes = [ck_pk k]\<rparr> = []
            then clipboard (ui \<lparr>ui = keyed_state k, writes = [ck_pk k]\<rparr>)
            else last (writes \<lparr>ui = keyed_state k, writes = [ck_pk k]\<rparr>)))"
    using r async_copy_eventually_quiet [OF r] by (simp only: async_state.select_convs)
  then show ?thesis
    by blast
qed

text \<open>
  C29: the invariant of the atomic model (stored keys are a consistent pair with their
  encodings; a URI, when present, is built from a 64-digit service key, a non-blank relay
  and the stored secret) and the timer invariant of the copy message hold in every
  reachable state of the asynchronous model: pending writes interleaved with the other
  events break neither.
\<close>

theorem async_reachable_ui_invariant:
  assumes "async_reachable src a"
  shows "ui_invariant (ui a) \<and> message_has_timer (ui a)"
  using assms
proof (induction rule: async_reachable.induct)
  case init
  show ?case
    using ui_invariant_initial reachable_message_has_timer [OF reachable.init]
    by (simp add: async_init_def)
next
  case (step a e b)
  then show ?case
    using async_step_ui_invariant async_step_message_has_timer by blast
qed

theorem async_reachable_ui_invariant_witness:
  "\<exists>k. async_reachable zero_source \<lparr>ui = keyed_state k, writes = [ck_pk k]\<rparr>
      \<and> ui_invariant (keyed_state k) \<and> message_has_timer (keyed_state k)"
proof -
  obtain k where r: "async_reachable zero_source \<lparr>ui = keyed_state k, writes = [ck_pk k]\<rparr>"
    using async_reachable_pending_pk by blast
  show ?thesis
    using r async_reachable_ui_invariant [OF r] by auto
qed

end
