(* ===== verification/Spec2Isabelle.thy ===== *)
theory Spec2Isabelle
  imports Fixtures View Refinement UriShape Timers Radix2 Styles AsyncCopy
begin

text \<open>
  \<^bold>\<open>Verification development of \<^verbatim>\<open>src/NostrKeyGen.js\<close>.\<close>

  \<^bold>\<open>The program.\<close> One React component, \<^verbatim>\<open>NostrKeyAndWalletConnectDemo\<close>, keeps
  five pieces of state (\<^verbatim>\<open>clientKeys\<close>, \<^verbatim>\<open>showPrivate\<close>, \<^verbatim>\<open>relay\<close>,
  \<^verbatim>\<open>walletConnectURI\<close>, \<^verbatim>\<open>copyMessage\<close>) and has three handlers:
  \<^verbatim>\<open>generateClientKeys\<close> draws a secp256k1 secret key, derives its public key and
  the two NIP-19 texts (\<^verbatim>\<open>npub\<close>, \<^verbatim>\<open>nsec\<close>), stores them and clears the URI;
  \<^verbatim>\<open>generateWalletConnectURI\<close> checks that keys exist and that the relay is not blank,
  draws a fresh service key pair and builds
  \<^verbatim>\<open>nostr+walletconnect://<servicePK>?relay=<relay>&secret=<clientSecret>\<close> with
  \<^verbatim>\<open>URLSearchParams\<close>; \<^verbatim>\<open>copyToClipboard\<close> writes a text to the clipboard and
  schedules a timer that clears the message. The JSX renders the keys (the secret ones
  masked unless \<^verbatim>\<open>showPrivate\<close>), the controls, and the URI. Everything else in the
  file is styling: constant style objects and their use in the JSX.

  \<^bold>\<open>Theories.\<close>
  \<^item> \<open>Prelude\<close>: types (\<open>byte\<close>, \<open>bytes\<close>, \<open>js_string\<close>), \<open>chunks\<close>, list,
    character and byte lemmas, the collections \<open>codec_simps\<close> and \<open>roundtrip_simps\<close>.
  \<^item> \<open>JsString\<close>: \<^verbatim>\<open>String.prototype.trim\<close> (\<open>js_trim\<close>), decimal number text
    (\<open>nat_to_decimal\<close>), \<^verbatim>\<open>Array.prototype.join\<close> (\<open>js_join\<close>) and the string
    of a \<^verbatim>\<open>Uint8Array\<close> (\<open>u8array_to_string\<close>), with the inverse readings.
  \<^item> \<open>Hex\<close>: \<^verbatim>\<open>bytesToHex\<close> and \<^verbatim>\<open>hexToBytes\<close>.
  \<^item> \<open>UrlSearchParams\<close>: \<^verbatim>\<open>URLSearchParams\<close> (\<open>usp_append\<close>,
    \<open>usp_to_string\<close>), the form-urlencoded parser \<open>form_parse\<close> and \<open>url_query\<close>.
  \<^item> \<open>Secp256k1\<close>: \<^verbatim>\<open>generateSecretKey\<close> (\<open>generate_secret_key\<close>, via
    \<open>map_hash_to_field\<close>) and \<^verbatim>\<open>getPublicKey\<close> (\<open>get_public_key\<close>: scalar check,
    double-and-add \<open>ec_mul\<close> over \<open>GF(p)\<close>, x-only output in hex).
  \<^item> \<open>Bech32\<close> and \<open>Nip19\<close>: \<^verbatim>\<open>convertRadix2\<close>, the BCH checksum,
    \<^verbatim>\<open>bech32.encode\<close> and \<^verbatim>\<open>decode\<close>, and \<^verbatim>\<open>npubEncode\<close>,
    \<^verbatim>\<open>nsecEncode\<close>, \<^verbatim>\<open>nip19.decode\<close>. \<open>convert_radix2\<close> is the reference
    conversion on bit lists.
  \<^item> \<open>Radix2\<close>: the library's own \<^verbatim>\<open>convertRadix2\<close> loop on a 32-bit carry word
    (\<open>convert_radix2_loop\<close>, the outer loop \<open>radix2_feed\<close>, the inner emit loop
    \<open>emit_words\<close> with its termination measure, the \<^verbatim>\<open>radix2carry\<close> overflow guard), and
    its equality with \<open>convert_radix2\<close> whenever the two radixes fit the carry.
  \<^item> \<open>NostrKeyGen\<close>: the component: the record \<open>ui_state\<close> (the hooks plus the
    environment: clipboard, pending timers, random draws made, alerts and console errors),
    the handlers \<open>generate_client_keys\<close>, \<open>generate_wallet_connect_uri\<close> (with
    \<open>build_wallet_connect_uri\<close>), \<open>copy_to_clipboard\<close>, \<open>copy_timer_fires\<close>, the
    rendering \<open>rendered_key_texts\<close> and \<open>copy_text\<close>, the step function
    \<open>ui_step\<close> over \<open>ui_event\<close>s (an event whose control is not rendered has no step),
    runs \<open>ui_run\<close> and the inductive set \<open>reachable\<close>; the invariant
    \<open>ui_invariant\<close> and its preservation \<open>reachable_ui_invariant\<close>.
  \<^item> \<open>View\<close>: the element tree of the JSX (\<open>render\<close>, \<open>render_keys\<close>,
    \<open>render_uri\<close>) with the control each button runs (\<open>control\<close>, \<open>control_of\<close>),
    and where the copy message is shown.
  \<^item> \<open>Refinement\<close>: an abstract specification (stored secret, granted connection;
    \<open>abs_step\<close>, \<open>abs_reachable\<close>), the wallet's reading of a URI
    (\<open>uri_decode\<close>), the refinement mapping \<open>abs_of\<close> with the event map
    \<open>abs_event_of\<close>, and the step-by-step simulation proof.
  \<^item> \<open>Fixtures\<close>: the zero-byte random source and the reachable states the witnesses
    use.
  \<^item> \<open>UriShape\<close>: the random draws per event, the length of the URI against the relay
    it parses back to, and its character set.
  \<^item> \<open>Timers\<close>: the copy message and its timer callbacks.
  \<^item> \<open>Styles\<close>: the style objects of lines 5--113 (\<open>container_style\<close> \<dots>
    \<open>details_box_style\<close>), object spread (\<open>css_spread\<close>), CSS inheritance
    (\<open>css_computed\<close>) and the styled element tree \<open>styled_render\<close>, whose elements
    are those of \<open>render\<close>.
  \<^item> \<open>AsyncCopy\<close>: the \<^verbatim>\<open>await\<close> inside \<^verbatim>\<open>copyToClipboard\<close>: the state
    \<open>async_state\<close> adds the pending clipboard writes, each with the text captured at its
    click; \<open>async_step\<close> starts a write (\<open>AClickCopy\<close>), settles any pending one
    (\<open>ASettle\<close>, the rest of the handler, \<open>copy_to_clipboard\<close>) or runs any other
    event through \<open>ui_step\<close>.
  \<^item> this theory: the properties that span the component and the libraries.

  The key library (nostr-tools with its curve and encoding dependencies) and the browser
  APIs are not under \<^verbatim>\<open>src/\<close>; they are modelled from the spec and their documented
  algorithms, and were checked by evaluation against published values while developing
  (the BIP-173 strings \<^verbatim>\<open>a12uel5l\<close> and \<^verbatim>\<open>abcdef1qpzry9x8gf2tvdw0s3jn54khce6mua7lmqqqxw\<close>,
  the generator's public key and the \<^verbatim>\<open>nsec\<close> of the scalar 1).

  \<^bold>\<open>Environment and bounds.\<close> Randomness is an oracle \<open>random_source\<close>: draw \<open>k\<close>
  is unavailable or an infinite byte supply; the component counts its draws
  (\<open>rng_draws\<close>), so freshness of service keys is a statement about draw indices.
  Strings are UTF-8 byte lists; \<open>js_trim\<close> strips the single-byte white space only.
  NIP-19 encodings are shown to exist for keys up to 3000 bytes, which keeps the encoder
  inside the library's 5000-character limit; the program only encodes 32-byte keys.
  No loop needs fuel: every recursion is structural or decreases a measure (\<open>chunks\<close>,
  \<open>nat_to_decimal\<close>, \<open>pow_mod_p\<close>, \<open>ec_mul\<close>, and the position of the carry loop's
  inner loop \<open>emit_words\<close>, which falls by the output radix each round). The carry is a
  \<open>32 word\<close>: the guard \<^verbatim>\<open>radix2carry(from, to) > 32\<close> and the per-step check
  that the carry position stays within 32 bits are modelled as the error
  \<open>CarryOverflow\<close>, which the conversions 8-to-5 and 5-to-8 never reach. Witnesses use the random source
  that always yields zero bytes, which gives the scalar 1, whose public key is the
  generator's x-coordinate; evaluating larger scalar multiples or Bech32 checksums in the
  kernel takes minutes, so witnesses obtain such values from existence lemmas instead.

  \<^bold>\<open>What the lemmas show.\<close> The URI has exactly the documented shape and its query
  parses back to the relay and the client secret; every URI in a reachable state carries
  the secret of the keys currently stored; stored keys are always a consistent pair with
  their encodings; the guards of \<^verbatim>\<open>generateWalletConnectURI\<close> stop it with the right
  alert and no other change; every new URI uses the service key of a fresh random draw;
  generated secret keys are in \<open>[1, n-1]\<close> and accepted by \<^verbatim>\<open>getPublicKey\<close>;
  public keys are 64 lowercase hex digits; the hex, form-urlencoded, Bech32 and NIP-19
  codecs invert; the hidden \<^verbatim>\<open>nsec\<close> is not rendered; every step of the component
  is a step of the abstract key-store and connection specification; each event draws
  randomness at most once, and only the two generate buttons do; the URI parses back to
  its relay, its length is 226 characters plus one to three per character of that relay,
  and it is printable ASCII with no fragment; a visible copy message is always cleared by
  the pending timer callbacks; every key text and the URI are computed in a monospace
  font with \<^verbatim>\<open>wordBreak: break-all\<close> (\<open>Styles.key_and_uri_texts_monospace\<close>); a
  write settles with the text of its click whatever ran in between, the state invariants
  hold under these interleavings, and all pending writes and timers can always drain
  (\<open>AsyncCopy\<close>). The library's carry loop of \<^verbatim>\<open>convertRadix2\<close> terminates and
  equals the bit-list conversion (\<open>Radix2.convert_radix2_loop_eq\<close>), a lemma about the
  library rather than a property of the program.

  \<^bold>\<open>Findings.\<close> The client secret reaches the URI and the clipboard as
  \<^verbatim>\<open>String(Uint8Array)\<close>, a comma-separated list of decimal byte values, not the hex
  text that the spec and the component's own description promise
  (\<open>wallet_connect_secret_is_decimal\<close>, \<open>copy_secret_clipboard_decimal\<close>);
  \<^verbatim>\<open>nsecEncode\<close> has no length check (\<open>Nip19.nsec_encode_accepts_short_key\<close>);
  the relay guard rejects a blank relay but embeds the untrimmed text; an earlier copy's
  timer clears a later copy's message (\<open>copy_timer_clears_newer_message\<close>); the copy
  message is rendered only inside the URI block, so key copies give no visible feedback
  while no URI exists (\<open>View.copy_feedback_hidden_without_uri\<close>); a copy in flight
  puts its text in the clipboard even after regenerating the keys has removed it from the
  page (\<open>AsyncCopy.settle_uses_clicked_text\<close>); a wallet reading the
  \<^verbatim>\<open>secret\<close> parameter as hex, as the spec defines it, fails
  (\<open>reachable_uri_secret_not_hex\<close>).

  \<^bold>\<open>Not modelled.\<close> The explanatory prose of the JSX, which \<open>View\<close> keeps as
  \<open>InfoText\<close> elements; CSS layout beyond the computed values of properties; React's scheduling
  (each handler is one atomic step whose state updates apply together); the asynchronous
  gap inside \<^verbatim>\<open>copyToClipboard\<close> in \<open>NostrKeyGen\<close> and the theories built on it
  (the write's outcome is part of the click event there; \<open>AsyncCopy\<close> models the gap,
  with \<open>ui_step\<close> for every other event); the
  elliptic-curve group law (that \<open>d \<cdot> G\<close> is never the point at infinity for
  \<open>1 \<le> d < n\<close> is not proved, so that error branch stays in the model); the TLV
  prefixes of NIP-19. The program has no loops of its own, so no termination property
  of its code is stated; the library loop it calls terminates by its measure
  (\<open>Radix2\<close>). The order in which several pending
  timers fire is not modelled, since each callback only clears the message.

  \<^bold>\<open>Further work.\<close> The error-detection property of the Bech32 checksum for single
  substitutions; traces of several URI generations with pairwise distinct draw indices.
\<close>

subsection \<open>The connection URI\<close>

text \<open>
  C1: when the client keys exist, the relay is not blank and the service key pair is
  drawn, \<^verbatim>\<open>generateWalletConnectURI\<close> stores exactly
  \<^verbatim>\<open>nostr+walletconnect://<servicePK>?relay=<relay>&secret=<clientSecret>\<close>, both
  values form-urlencoded, \<^verbatim>\<open>relay\<close> first, and consumes one random draw.
\<close>

theorem wallet_connect_uri_format:
  assumes "client_keys s = Some k" and "js_trim (relay s) \<noteq> []"
    and "generate_secret_key src (rng_draws s) = Inr bsk" and "get_public_key bsk = Inr bpk"
  shows "wallet_connect_uri (generate_wallet_connect_uri src s)
           = ''nostr+walletconnect://'' @ bpk @ ''?relay='' @ form_urlencode (relay s)
               @ ''&secret='' @ form_urlencode (u8array_to_string (ck_sk k))
         \<and> rng_draws (generate_wallet_connect_uri src s) = Suc (rng_draws s)"
  using assms by (simp add: generate_wallet_connect_uri_def Let_def build_wallet_connect_uri_unfold)

theorem wallet_connect_uri_format_witness:
  "client_keys sample_state = Some sample_keys \<and> js_trim (relay sample_state) \<noteq> []
   \<and> generate_secret_key zero_source (rng_draws sample_state) = Inr (nat_to_bytes_be 32 1)
   \<and> get_public_key (nat_to_bytes_be 32 1) = Inr generator_pk
   \<and> wallet_connect_uri (generate_wallet_connect_uri zero_source sample_state)
        = ''nostr+walletconnect://'' @ generator_pk @ ''?relay='' @ form_urlencode ''wss://relay.example.com''
            @ ''&secret='' @ form_urlencode (u8array_to_string (replicate 32 7))"
proof -
  have h1: "client_keys sample_state = Some sample_keys" by (simp add: sample_state_def)
  have h2: "js_trim (relay sample_state) \<noteq> []"
    by (simp add: sample_state_def sample_relay_not_blank)
  have h3: "generate_secret_key zero_source (rng_draws sample_state) = Inr (nat_to_bytes_be 32 1)"
    using zero_source_const by (simp add: generate_secret_key_zero_source)
  have h4: "get_public_key (nat_to_bytes_be 32 1) = Inr generator_pk"
    unfolding generator_pk_def by (rule get_public_key_one)
  show ?thesis
    using h1 h2 h3 h4 wallet_connect_uri_format [OF h1 h2 h3 h4]
    by (simp add: sample_state_def sample_keys_def)
qed

text \<open>
  C2: the query of that URI, read back by a URL parser and the form-urlencoded parser,
  is exactly the two parameters \<^verbatim>\<open>relay\<close> and \<^verbatim>\<open>secret\<close> in this order, with
  the relay text unchanged and the client secret as the component passed it.
\<close>

theorem wallet_connect_uri_params_roundtrip:
  assumes "client_keys s = Some k" and "js_trim (relay s) \<noteq> []"
    and "generate_secret_key src (rng_draws s) = Inr bsk" and "get_public_key bsk = Inr bpk"
  shows "\<exists>q. url_query (wallet_connect_uri (generate_wallet_connect_uri src s)) = Some q
             \<and> form_parse q = [(''relay'', relay s), (''secret'', u8array_to_string (ck_sk k))]"
proof -
  have "CHR ''?'' \<notin> set bpk"
    using get_public_key_hex_text [OF assms(4)] by (simp add: qmark_not_lower_hex)
  then show ?thesis
    using assms build_wallet_connect_uri_query [of bpk "relay s" "ck_sk k"]
    by (simp add: generate_wallet_connect_uri_def Let_def)
qed

theorem wallet_connect_uri_params_roundtrip_witness:
  "\<exists>q. url_query (wallet_connect_uri (generate_wallet_connect_uri zero_source sample_state)) = Some q
       \<and> form_parse q = [(''relay'', ''wss://relay.example.com''), (''secret'', u8array_to_string (replicate 32 7))]"
proof -
  have h1: "client_keys sample_state = Some sample_keys" by (simp add: sample_state_def)
  have h2: "js_trim (relay sample_state) \<noteq> []"
    by (simp add: sample_state_def sample_relay_not_blank)
  have h3: "generate_secret_key zero_source (rng_draws sample_state) = Inr (nat_to_bytes_be 32 1)"
    using zero_source_const by (simp add: generate_secret_key_zero_source)
  have h4: "get_public_key (nat_to_bytes_be 32 1) = Inr generator_pk"
    unfolding generator_pk_def by (rule get_public_key_one)
  show ?thesis
    using wallet_connect_uri_params_roundtrip [OF h1 h2 h3 h4]
    by (simp add: sample_state_def sample_keys_def)
qed

text \<open>
  C8: the \<^verbatim>\<open>secret\<close> parameter of the URI is \<^verbatim>\<open>String(Uint8Array)\<close> of the client
  secret: the comma-separated decimal byte values. It determines the key (it parses back
  to the same bytes) but it is not the hex encoding of the key that the spec requires
  (\<^verbatim>\<open>secret=<hex-encoded-32-byte-client-secret-key>\<close>).
\<close>

theorem wallet_connect_secret_is_decimal:
  assumes "2 \<le> length sk" and "CHR ''?'' \<notin> set bpk"
  shows "\<exists>q. url_query (build_wallet_connect_uri bpk rly sk) = Some q
             \<and> usp_get (form_parse q) ''secret'' = Some (u8array_to_string sk)
             \<and> CHR '','' \<in> set (u8array_to_string sk)
             \<and> u8array_to_string sk \<noteq> bytes_to_hex sk
             \<and> parse_u8array_string (u8array_to_string sk) = Some sk"
  using build_wallet_connect_uri_query [OF assms(2), of rly sk] u8array_string_not_hex [OF assms(1)]
  by (simp add: usp_get_def parse_u8array_string_roundtrip)

theorem wallet_connect_secret_is_decimal_witness:
  "\<exists>q. url_query (build_wallet_connect_uri generator_pk ''wss://relay.example.com'' (replicate 32 7)) = Some q
       \<and> usp_get (form_parse q) ''secret'' = Some (u8array_to_string (replicate 32 7))
       \<and> CHR '','' \<in> set (u8array_to_string (replicate 32 7))
       \<and> u8array_to_string (replicate 32 7) \<noteq> bytes_to_hex (replicate 32 7)
       \<and> parse_u8array_string (u8array_to_string (replicate 32 7)) = Some (replicate 32 7)"
proof -
  have "CHR ''?'' \<notin> set generator_pk"
    using generator_pk_text by (simp add: qmark_not_lower_hex)
  moreover have "2 \<le> length (replicate 32 (7 :: byte))" by simp
  ultimately show ?thesis
    by (rule wallet_connect_secret_is_decimal [rotated])
qed

subsection \<open>Guards and error paths\<close>

text \<open>
  C5: without client keys, \<^verbatim>\<open>generateWalletConnectURI\<close> only raises the alert
  \<^verbatim>\<open>Please generate your client Nostr keys first!\<close>: no random draw, no URI change.
\<close>

theorem generate_uri_without_keys:
  assumes "client_keys s = None"
  shows "generate_wallet_connect_uri src s
           = log_effect (Alert ''Please generate your client Nostr keys first!'') s"
  using assms by (simp add: generate_wallet_connect_uri_def)

theorem generate_uri_without_keys_witness:
  "generate_wallet_connect_uri zero_source initial_state
     = log_effect (Alert ''Please generate your client Nostr keys first!'') initial_state"
  by (rule generate_uri_without_keys) (simp add: initial_state_def)

text \<open>
  C6: with client keys but a relay that is empty or only white space,
  \<^verbatim>\<open>generateWalletConnectURI\<close> only raises the alert \<^verbatim>\<open>Relay URL is required!\<close>.
\<close>

theorem generate_uri_blank_relay:
  assumes "client_keys s = Some k" and "js_trim (relay s) = []"
  shows "generate_wallet_connect_uri src s = log_effect (Alert ''Relay URL is required!'') s"
  using assms by (simp add: generate_wallet_connect_uri_def)

theorem generate_uri_blank_relay_witness:
  "generate_wallet_connect_uri zero_source (sample_state\<lparr>relay := '' \<newline> ''\<rparr>)
     = log_effect (Alert ''Relay URL is required!'') (sample_state\<lparr>relay := '' \<newline> ''\<rparr>)"
proof (rule generate_uri_blank_relay)
  show "client_keys (sample_state\<lparr>relay := '' \<newline> ''\<rparr>) = Some sample_keys"
    by (simp add: sample_state_def)
  show "js_trim (relay (sample_state\<lparr>relay := '' \<newline> ''\<rparr>)) = []"
    by (simp add: js_trim_empty_iff js_whitespace_def)
qed

text \<open>
  C12: when the random source is unavailable, \<^verbatim>\<open>generateClientKeys\<close> catches the
  error and only logs it: the stored keys and the URI are unchanged.
\<close>

theorem generate_keys_random_unavailable:
  assumes "src (rng_draws s) = None"
  shows "generate_client_keys src s
           = log_effect (ConsoleError ''Error generating client keys:'') (s\<lparr>rng_draws := Suc (rng_draws s)\<rparr>)"
  using assms by (simp add: generate_client_keys_def generate_secret_key_None)

theorem generate_keys_random_unavailable_witness:
  "generate_client_keys (\<lambda>_. None) sample_state
     = log_effect (ConsoleError ''Error generating client keys:'') (sample_state\<lparr>rng_draws := 1\<rparr>)"
  using generate_keys_random_unavailable [of "\<lambda>_. None" sample_state]
  by (simp add: sample_state_def initial_state_def)

subsection \<open>Reachable states\<close>

text \<open>
  C3: in every state the component can reach, a non-empty connection URI carries, in
  its \<^verbatim>\<open>secret\<close> parameter, the secret of the client keys stored now (regenerating
  the keys clears the URI, so it never refers to a replaced key), and its
  \<^verbatim>\<open>relay\<close> parameter is a relay that passed the guard.
\<close>

theorem reachable_uri_embeds_current_secret:
  assumes "reachable src s" and "wallet_connect_uri s \<noteq> []"
  shows "\<exists>k q rly. client_keys s = Some k \<and> url_query (wallet_connect_uri s) = Some q
           \<and> form_parse q = [(''relay'', rly), (''secret'', u8array_to_string (ck_sk k))]
           \<and> js_trim rly \<noteq> []"
proof -
  obtain k where k: "client_keys s = Some k" and u: "uri_from_keys (wallet_connect_uri s) k"
    using reachable_ui_invariant [OF assms(1)] assms(2) by (auto simp: ui_invariant_def)
  show ?thesis
    using uri_from_keys_query [OF u] k by blast
qed

theorem reachable_uri_embeds_current_secret_witness:
  "\<exists>s. reachable zero_source s \<and> wallet_connect_uri s \<noteq> []
       \<and> (\<exists>k q rly. client_keys s = Some k \<and> url_query (wallet_connect_uri s) = Some q
           \<and> form_parse q = [(''relay'', rly), (''secret'', u8array_to_string (ck_sk k))]
           \<and> js_trim rly \<noteq> [])"
proof -
  obtain k where r: "reachable zero_source (uri_state k)"
    using zero_source_uri_state by blast
  have ne: "wallet_connect_uri (uri_state k) \<noteq> []"
    by (simp add: uri_state_def build_wallet_connect_uri_unfold)
  show ?thesis
    using r ne reachable_uri_embeds_current_secret [OF r ne] by blast
qed

text \<open>
  C4: in every reachable state, stored client keys are a consistent key set: the secret
  is 32 bytes encoding a scalar in \<open>[1, n)\<close> that \<^verbatim>\<open>getPublicKey\<close> accepts, and
  \<^verbatim>\<open>pk\<close>, \<^verbatim>\<open>npub\<close> and \<^verbatim>\<open>nsec\<close> are the library's encodings of that secret.
\<close>

theorem reachable_client_keys_consistent:
  assumes "reachable src s" and "client_keys s = Some k"
  shows "length (ck_sk k) = 32 \<and> 1 \<le> be_to_nat (ck_sk k) \<and> be_to_nat (ck_sk k) < secp256k1_n
         \<and> norm_private_key_to_scalar (ck_sk k) = Inr (be_to_nat (ck_sk k))
         \<and> get_public_key (ck_sk k) = Inr (ck_pk k)
         \<and> npub_encode (ck_pk k) = Inr (ck_npub k) \<and> nsec_encode (ck_sk k) = Inr (ck_nsec k)"
  using reachable_keys_consistent [OF assms] norm_private_key_to_scalar_valid
  by (simp add: keys_consistent_def)

theorem reachable_client_keys_consistent_witness:
  "\<exists>s k. reachable zero_source s \<and> client_keys s = Some k
     \<and> length (ck_sk k) = 32 \<and> 1 \<le> be_to_nat (ck_sk k) \<and> be_to_nat (ck_sk k) < secp256k1_n
     \<and> norm_private_key_to_scalar (ck_sk k) = Inr (be_to_nat (ck_sk k))
     \<and> get_public_key (ck_sk k) = Inr (ck_pk k)
     \<and> npub_encode (ck_pk k) = Inr (ck_npub k) \<and> nsec_encode (ck_sk k) = Inr (ck_nsec k)"
proof -
  obtain k where r: "reachable zero_source (keyed_state k)"
    using zero_source_keyed_state by blast
  have c: "client_keys (keyed_state k) = Some k"
    by (simp add: keyed_state_def)
  show ?thesis
    using r c reachable_client_keys_consistent [OF r c] by blast
qed

text \<open>
  C7: in every reachable state, the displayed NIP-19 texts decode back to the stored
  keys: \<^verbatim>\<open>nsec\<close> to the secret bytes and \<^verbatim>\<open>npub\<close> to the public key's hex text;
  they start with \<^verbatim>\<open>nsec1\<close> and \<^verbatim>\<open>npub1\<close> and are never the same text.
\<close>

theorem reachable_keys_nip19_roundtrip:
  assumes "reachable src s" and "client_keys s = Some k"
  shows "nip19_decode (ck_nsec k) = Inr (DecodedNsec (ck_sk k))
         \<and> nip19_decode (ck_npub k) = Inr (DecodedNpub (ck_pk k))
         \<and> take 5 (ck_npub k) = ''npub1'' \<and> take 5 (ck_nsec k) = ''nsec1''
         \<and> ck_npub k \<noteq> ck_nsec k"
proof -
  have kc: "keys_consistent k"
    by (rule reachable_keys_consistent [OF assms])
  have pre: "take 5 (ck_npub k) = ''npub1''" "take 5 (ck_nsec k) = ''nsec1''"
    using keys_consistent_prefixes [OF kc] by simp_all
  then have "ck_npub k \<noteq> ck_nsec k"
    by (auto dest: arg_cong [where f = "take 5"])
  then show ?thesis
    using keys_consistent_decodes [OF kc] pre by simp
qed

theorem reachable_keys_nip19_roundtrip_witness:
  "\<exists>s k. reachable zero_source s \<and> client_keys s = Some k
     \<and> nip19_decode (ck_nsec k) = Inr (DecodedNsec (ck_sk k))
     \<and> nip19_decode (ck_npub k) = Inr (DecodedNpub (ck_pk k))
     \<and> take 5 (ck_npub k) = ''npub1'' \<and> take 5 (ck_nsec k) = ''nsec1''
     \<and> ck_npub k \<noteq> ck_nsec k"
proof -
  obtain k where r: "reachable zero_source (keyed_state k)"
    using zero_source_keyed_state by blast
  have c: "client_keys (keyed_state k) = Some k"
    by (simp add: keyed_state_def)
  show ?thesis
    using r c reachable_keys_nip19_roundtrip [OF r c] by blast
qed

text \<open>
  C10: while the secret is hidden, the rendered key texts of a reachable state are the
  public key, the \<^verbatim>\<open>npub\<close> and two masks, and the \<^verbatim>\<open>nsec\<close> text is none of them.
\<close>

theorem hidden_secret_not_rendered:
  assumes "reachable src s" and "client_keys s = Some k" and "\<not> show_private s"
  shows "rendered_key_texts s = [ck_pk k, ck_npub k, mask_text, mask_text]
         \<and> ck_nsec k \<notin> set (rendered_key_texts s)"
proof -
  have r: "rendered_key_texts s = [ck_pk k, ck_npub k, mask_text, mask_text]"
    using assms(2,3) by (simp add: rendered_key_texts_def)
  show ?thesis
    using hidden_texts_exclude_nsec [OF reachable_keys_consistent [OF assms(1,2)]] r by simp
qed

theorem hidden_secret_not_rendered_witness:
  "\<exists>s k. reachable zero_source s \<and> client_keys s = Some k \<and> \<not> show_private s
     \<and> rendered_key_texts s = [ck_pk k, ck_npub k, mask_text, mask_text]
     \<and> ck_nsec k \<notin> set (rendered_key_texts s)"
proof -
  obtain k where r: "reachable zero_source (keyed_state k)"
    using zero_source_keyed_state by blast
  have c: "client_keys (keyed_state k) = Some k" and h: "\<not> show_private (keyed_state k)"
    by (simp_all add: keyed_state_def initial_state_def)
  show ?thesis
    using r c h hidden_secret_not_rendered [OF r c h] by blast
qed

subsection \<open>Single steps\<close>

text \<open>
  C9: the only event that puts a new non-empty URI in place is the click on
  \<^verbatim>\<open>Generate URI\<close>; it consumes exactly one fresh random draw (the counter of draws
  never goes back, so no draw is reused), and the URI is built from a service key pair
  generated from that draw, with a 64-character public key, the current relay and the
  stored client secret.
\<close>

theorem service_key_fresh_draw:
  assumes step: "ui_step src s e = Some t"
    and new: "wallet_connect_uri t \<noteq> wallet_connect_uri s" and ne: "wallet_connect_uri t \<noteq> []"
  shows "e = ClickGenerateUri \<and> rng_draws t = Suc (rng_draws s)
         \<and> (\<exists>k bsk bpk. client_keys s = Some k \<and> generate_secret_key src (rng_draws s) = Inr bsk
              \<and> get_public_key bsk = Inr bpk \<and> length bpk = 64
              \<and> wallet_connect_uri t = build_wallet_connect_uri bpk (relay s) (ck_sk k))"
proof -
  have e: "e = ClickGenerateUri"
    using ui_step_uri_other_events [OF step] new ne by blast
  then have t: "t = generate_wallet_connect_uri src s"
    using step by (simp add: ui_step_def)
  show ?thesis
    using generate_wallet_connect_uri_cases [of src s] new e t
    by (auto simp: log_effect_def dest: get_public_key_hex_text)
qed

theorem service_key_fresh_draw_witness:
  "ClickGenerateUri = ClickGenerateUri
   \<and> rng_draws (generate_wallet_connect_uri zero_source sample_state) = Suc (rng_draws sample_state)
   \<and> (\<exists>k bsk bpk. client_keys sample_state = Some k
        \<and> generate_secret_key zero_source (rng_draws sample_state) = Inr bsk
        \<and> get_public_key bsk = Inr bpk \<and> length bpk = 64
        \<and> wallet_connect_uri (generate_wallet_connect_uri zero_source sample_state)
            = build_wallet_connect_uri bpk (relay sample_state) (ck_sk k))"
proof -
  have st: "ui_step zero_source sample_state ClickGenerateUri
              = Some (generate_wallet_connect_uri zero_source sample_state)"
    by (simp add: ui_step_def)
  have u: "wallet_connect_uri (generate_wallet_connect_uri zero_source sample_state)
             = build_wallet_connect_uri generator_pk ''wss://relay.example.com'' (replicate 32 7)"
    using zero_source_generates_uri [OF zero_source_const, of sample_state sample_keys] sample_relay_not_blank
    by (simp add: sample_state_def sample_keys_def generator_pk_def)
  have ne: "wallet_connect_uri (generate_wallet_connect_uri zero_source sample_state) \<noteq> []"
    using u by (simp add: build_wallet_connect_uri_unfold)
  have new: "wallet_connect_uri (generate_wallet_connect_uri zero_source sample_state)
               \<noteq> wallet_connect_uri sample_state"
    using ne by (simp add: sample_state_def initial_state_def)
  show ?thesis
    by (rule service_key_fresh_draw [OF st new ne])
qed

text \<open>
  C11: when the key draw and the derivations succeed, \<^verbatim>\<open>generateClientKeys\<close>
  replaces the stored keys by the new consistent set built from the drawn secret, clears
  the connection URI, and consumes one draw; nothing else changes.
\<close>

theorem generate_keys_replaces_pair:
  assumes "generate_secret_key src (rng_draws s) = Inr sk" and "derive_client_keys sk = Inr k"
  shows "generate_client_keys src s
           = s\<lparr>rng_draws := Suc (rng_draws s), client_keys := Some k, wallet_connect_uri := []\<rparr>
         \<and> ck_sk k = sk \<and> keys_consistent k"
  using assms generate_secret_key_valid [OF assms(1)] derive_client_keys_Inr [OF assms(2)]
  by (simp add: generate_client_keys_def keys_consistent_def)

theorem generate_keys_replaces_pair_witness:
  "\<exists>k. generate_secret_key zero_source (rng_draws sample_state) = Inr (nat_to_bytes_be 32 1)
       \<and> derive_client_keys (nat_to_bytes_be 32 1) = Inr k
       \<and> generate_client_keys zero_source sample_state
           = sample_state\<lparr>rng_draws := Suc (rng_draws sample_state), client_keys := Some k,
                          wallet_connect_uri := []\<rparr>
       \<and> ck_sk k = nat_to_bytes_be 32 1 \<and> keys_consistent k"
proof -
  have gen: "generate_secret_key zero_source (rng_draws sample_state) = Inr (nat_to_bytes_be 32 1)"
    using zero_source_const by (simp add: generate_secret_key_zero_source)
  obtain k where k: "derive_client_keys (nat_to_bytes_be 32 1) = Inr k"
    using derive_client_keys_succeeds [OF get_public_key_one] by auto
  show ?thesis
    using gen k generate_keys_replaces_pair [OF gen k] by blast
qed

text \<open>
  C13: with keys and a relay but no working random source, \<^verbatim>\<open>generateWalletConnectURI\<close>
  catches the error and only logs it: the URI is unchanged.
\<close>

theorem generate_uri_random_unavailable:
  assumes "client_keys s = Some k" and "js_trim (relay s) \<noteq> []" and "src (rng_draws s) = None"
  shows "generate_wallet_connect_uri src s
           = log_effect (ConsoleError ''Error generating Wallet Connect URI:'')
               (s\<lparr>rng_draws := Suc (rng_draws s)\<rparr>)"
  using assms by (simp add: generate_wallet_connect_uri_def Let_def generate_secret_key_None)

theorem generate_uri_random_unavailable_witness:
  "generate_wallet_connect_uri (\<lambda>_. None) sample_state
     = log_effect (ConsoleError ''Error generating Wallet Connect URI:'') (sample_state\<lparr>rng_draws := 1\<rparr>)"
proof -
  have "client_keys sample_state = Some sample_keys" "js_trim (relay sample_state) \<noteq> []"
    "(\<lambda>_. None :: (nat \<Rightarrow> byte) option) (rng_draws sample_state) = None"
    by (simp_all add: sample_state_def sample_relay_not_blank)
  from generate_uri_random_unavailable [OF this] show ?thesis
    by (simp add: sample_state_def initial_state_def)
qed

subsection \<open>Copying, the timer and the secret's display\<close>

text \<open>
  C14: the timer of an earlier copy clears the message of a later one: after two
  successful copies and one timer callback, the message is gone although the second
  copy's timer is still pending, and the clipboard holds the second text.
\<close>

theorem copy_timer_clears_newer_message:
  assumes "client_keys s = Some k"
  shows "\<exists>t. ui_run src s [ClickCopy CopyPk True, ClickCopy CopyNpub True, CopyTimerFires] = Some t
             \<and> clipboard t = ck_npub k \<and> copy_message t = []
             \<and> pending_timers t = Suc (pending_timers s)"
  using assms
  by (simp add: ui_step_def copy_text_def copy_to_clipboard_def copy_timer_fires_def Let_def)

theorem copy_timer_clears_newer_message_witness:
  "\<exists>t. ui_run zero_source sample_state [ClickCopy CopyPk True, ClickCopy CopyNpub True, CopyTimerFires]
         = Some t
       \<and> clipboard t = ck_npub sample_keys \<and> copy_message t = []
       \<and> pending_timers t = Suc (pending_timers sample_state)"
  by (rule copy_timer_clears_newer_message) (simp add: sample_state_def)

text \<open>
  C15: the copy button of the secret key puts \<^verbatim>\<open>String(Uint8Array)\<close> on the
  clipboard: the comma-separated decimal bytes, which determine the key but are not its
  hex encoding.
\<close>

theorem copy_secret_clipboard_decimal:
  assumes "reachable src s" and "client_keys s = Some k"
  shows "\<exists>t. ui_step src s (ClickCopy CopySk True) = Some t
             \<and> clipboard t = u8array_to_string (ck_sk k) \<and> copy_message t = ''Copied to clipboard!''
             \<and> clipboard t \<noteq> bytes_to_hex (ck_sk k)
             \<and> parse_u8array_string (clipboard t) = Some (ck_sk k)"
proof -
  have "length (ck_sk k) = 32"
    using reachable_keys_consistent [OF assms] by (simp add: keys_consistent_def)
  then have "u8array_to_string (ck_sk k) \<noteq> bytes_to_hex (ck_sk k)"
    using u8array_string_not_hex [of "ck_sk k"] by simp
  then show ?thesis
    using assms(2)
    by (simp add: ui_step_def copy_text_def copy_to_clipboard_def Let_def parse_u8array_string_roundtrip)
qed

theorem copy_secret_clipboard_decimal_witness:
  "\<exists>s k t. reachable zero_source s \<and> client_keys s = Some k
     \<and> ui_step zero_source s (ClickCopy CopySk True) = Some t
     \<and> clipboard t = u8array_to_string (ck_sk k) \<and> copy_message t = ''Copied to clipboard!''
     \<and> clipboard t \<noteq> bytes_to_hex (ck_sk k)
     \<and> parse_u8array_string (clipboard t) = Some (ck_sk k)"
proof -
  obtain k where r: "reachable zero_source (keyed_state k)"
    using zero_source_keyed_state by blast
  have c: "client_keys (keyed_state k) = Some k"
    by (simp add: keyed_state_def)
  show ?thesis
    using r c copy_secret_clipboard_decimal [OF r c] by blast
qed

text \<open>
  C16: when the clipboard write fails, the copy only logs \<^verbatim>\<open>Copy failed\<close>, shows
  \<^verbatim>\<open>Copy failed!\<close> and schedules the timer: the clipboard is unchanged.
\<close>

theorem copy_failure_keeps_clipboard:
  assumes "copy_text s tgt = Some x"
  shows "\<exists>t. ui_step src s (ClickCopy tgt False) = Some t
             \<and> clipboard t = clipboard s \<and> copy_message t = ''Copy failed!''
             \<and> effects t = effects s @ [ConsoleError ''Copy failed'']
             \<and> pending_timers t = Suc (pending_timers s)"
  using assms by (simp add: ui_step_def copy_to_clipboard_def log_effect_def Let_def)

theorem copy_failure_keeps_clipboard_witness:
  "\<exists>t. ui_step zero_source sample_state (ClickCopy CopyPk False) = Some t
       \<and> clipboard t = clipboard sample_state \<and> copy_message t = ''Copy failed!''
       \<and> effects t = effects sample_state @ [ConsoleError ''Copy failed'']
       \<and> pending_timers t = Suc (pending_timers sample_state)"
  by (rule copy_failure_keeps_clipboard [of _ _ "[]"])
     (simp add: copy_text_def sample_state_def sample_keys_def)

text \<open>
  C18: the \<^verbatim>\<open>Show\<close> button reveals both secret texts: the box labelled
  \<^verbatim>\<open>Client Private Key (Hex)\<close> then shows React's rendering of the
  \<^verbatim>\<open>Uint8Array\<close> (its decimal bytes run together), and the NIP-19 box shows the
  \<^verbatim>\<open>nsec\<close> text.
\<close>

theorem toggle_reveals_secret:
  assumes "client_keys s = Some k" and "\<not> show_private s"
  shows "\<exists>t. ui_step src s ClickToggleShow = Some t \<and> show_private t
             \<and> rendered_key_texts t = [ck_pk k, ck_npub k, react_text_of_u8array (ck_sk k), ck_nsec k]"
  using assms by (simp add: ui_step_def rendered_key_texts_def)

theorem toggle_reveals_secret_witness:
  "\<exists>t. ui_step zero_source sample_state ClickToggleShow = Some t \<and> show_private t
       \<and> rendered_key_texts t = [ck_pk sample_keys, ck_npub sample_keys,
                                 react_text_of_u8array (ck_sk sample_keys), ck_nsec sample_keys]"
  by (rule toggle_reveals_secret) (simp_all add: sample_state_def initial_state_def)

subsection \<open>Runs from the initial state\<close>

text \<open>
  C17: from the initial state, whenever the random source delivers two draws whose keys
  \<^verbatim>\<open>getPublicKey\<close> accepts, the three events \<^verbatim>\<open>Generate\<close>, entering a non-blank
  relay and \<^verbatim>\<open>Generate URI\<close> produce a connection URI for the new client keys.
\<close>

theorem keys_then_uri_run:
  assumes rly: "js_trim r \<noteq> []" and d0: "src 0 = Some f0" and d1: "src (Suc 0) = Some f1"
    and pk: "\<forall>i < 2. \<forall>sk. generate_secret_key src i = Inr sk \<longrightarrow> (\<exists>pk. get_public_key sk = Inr pk)"
  shows "\<exists>t k bpk. ui_run src initial_state [ClickGenerateKeys, ChangeRelay r, ClickGenerateUri] = Some t
           \<and> client_keys t = Some k \<and> rng_draws t = 2
           \<and> wallet_connect_uri t = build_wallet_connect_uri bpk r (ck_sk k)"
proof -
  obtain sk0 where g0: "generate_secret_key src 0 = Inr sk0"
    using generate_secret_key_Some [of src 0 f0, OF d0] by blast
  obtain pk0 where p0: "get_public_key sk0 = Inr pk0"
    using pk [rule_format, of 0 sk0] g0 by auto
  obtain k where k: "derive_client_keys sk0 = Inr k"
    using derive_client_keys_succeeds [OF p0] generate_secret_key_valid [OF g0] by auto
  obtain sk1 where g1: "generate_secret_key src (Suc 0) = Inr sk1"
    using generate_secret_key_Some [of src "Suc 0" f1, OF d1] by blast
  obtain pk1 where p1: "get_public_key sk1 = Inr pk1"
    using pk [rule_format, of "Suc 0" sk1] g1 by auto
  have "ui_run src initial_state [ClickGenerateKeys, ChangeRelay r, ClickGenerateUri]
          = Some (initial_state\<lparr>client_keys := Some k, relay := r, rng_draws := 2,
                    wallet_connect_uri := build_wallet_connect_uri pk1 r (ck_sk k)\<rparr>)"
    using g0 k g1 p1 rly
    by (simp add: ui_step_def generate_client_keys_def generate_wallet_connect_uri_def initial_state_def)
  then show ?thesis
    by auto
qed

theorem keys_then_uri_run_witness:
  "\<exists>t k bpk. ui_run zero_source initial_state
                 [ClickGenerateKeys, ChangeRelay ''wss://relay.example.com'', ClickGenerateUri] = Some t
             \<and> client_keys t = Some k \<and> rng_draws t = 2
             \<and> wallet_connect_uri t = build_wallet_connect_uri bpk ''wss://relay.example.com'' (ck_sk k)"
proof (rule keys_then_uri_run)
  show "js_trim ''wss://relay.example.com'' \<noteq> []"
    by (rule sample_relay_not_blank)
  show "zero_source 0 = Some (\<lambda>_. 0)" "zero_source (Suc 0) = Some (\<lambda>_. 0)"
    by (simp_all add: zero_source_def)
  show "\<forall>i < 2. \<forall>sk. generate_secret_key zero_source i = Inr sk \<longrightarrow> (\<exists>pk. get_public_key sk = Inr pk)"
    using zero_source_const get_public_key_one by (simp add: generate_secret_key_zero_source)
qed

subsection \<open>A wallet's reading of the URI\<close>

text \<open>
  C24: a wallet that reads the URI of a reachable state as the spec defines it (the
  \<^verbatim>\<open>secret\<close> parameter as hex) fails: the parameter is the comma-separated decimal
  text of the client secret, which determines the secret but which \<^verbatim>\<open>hexToBytes\<close>
  rejects.
\<close>

theorem reachable_uri_secret_not_hex:
  assumes "reachable src s" and "wallet_connect_uri s \<noteq> []"
  shows "\<exists>k q x. client_keys s = Some k \<and> url_query (wallet_connect_uri s) = Some q
           \<and> usp_get (form_parse q) ''secret'' = Some x \<and> parse_u8array_string x = Some (ck_sk k)
           \<and> (\<exists>e. hex_to_bytes x = Inl e)"
proof -
  obtain k bpk rly where parts: "client_keys s = Some k" "length (ck_sk k) = 32" "length bpk = 64"
    "list_all is_lower_hex_char bpk" "js_trim rly \<noteq> []"
    "wallet_connect_uri s = build_wallet_connect_uri bpk rly (ck_sk k)"
    by (rule reachable_uri_parts [OF assms])
  have q: "url_query (wallet_connect_uri s)
             = Some (usp_to_string [(''relay'', rly), (''secret'', u8array_to_string (ck_sk k))])
           \<and> form_parse (usp_to_string [(''relay'', rly), (''secret'', u8array_to_string (ck_sk k))])
             = [(''relay'', rly), (''secret'', u8array_to_string (ck_sk k))]"
    using build_wallet_connect_uri_query [OF qmark_not_lower_hex [OF parts(4)]] parts(6) by simp
  have "\<exists>e. hex_to_bytes (u8array_to_string (ck_sk k)) = Inl e"
    using comma_in_u8array_to_string [of "ck_sk k"] parts(2) by (simp add: hex_to_bytes_comma)
  then show ?thesis
    using q parts(1) by (simp add: usp_get_def parse_u8array_string_roundtrip)
qed

theorem reachable_uri_secret_not_hex_witness:
  "\<exists>s. reachable zero_source s \<and> wallet_connect_uri s \<noteq> []
       \<and> (\<exists>k q x. client_keys s = Some k \<and> url_query (wallet_connect_uri s) = Some q
           \<and> usp_get (form_parse q) ''secret'' = Some x \<and> parse_u8array_string x = Some (ck_sk k)
           \<and> (\<exists>e. hex_to_bytes x = Inl e))"
proof -
  obtain k where r: "reachable zero_source (uri_state k)"
    using zero_source_uri_state by blast
  have ne: "wallet_connect_uri (uri_state k) \<noteq> []"
    by (simp add: uri_state_def build_wallet_connect_uri_unfold)
  show ?thesis
    using r ne reachable_uri_secret_not_hex [OF r ne] by blast
qed

end
